(* ===== verification/Prelude.thy ===== *)
theory Prelude
  imports Main "HOL-Library.Word"
begin

text \<open>
  What every component shares: the machine integers of the crate as words, byte strings as
  lists, Rust's \<^verbatim>\<open>Result\<close> with its \<^verbatim>\<open>?\<close> operator as a bind, parsers over a byte buffer,
  and the big-endian conversions of the standard library
  (\<^verbatim>\<open>to_be_bytes\<close>, \<^verbatim>\<open>from_be_bytes\<close>), which the integer accessors of the buffer apply.
\<close>

unbundle bit_operations_syntax

named_theorems wire_simps \<open>what a serializer appends to its output\<close>
named_theorems parse_simps \<open>what a deserializer reads back from a wire layout\<close>
named_theorems suffix_intros \<open>a parser leaves a suffix of its input\<close>

type_synonym u8 = "8 word"
type_synonym u16 = "16 word"
type_synonym u32 = "32 word"
type_synonym u64 = "64 word"
type_synonym bytes = "u8 list"

section \<open>Results\<close>

datatype ('a, 'e) result = Ok 'a | Err 'e

fun result_bind :: "('a, 'e) result \<Rightarrow> ('a \<Rightarrow> ('b, 'e) result) \<Rightarrow> ('b, 'e) result" where
  "result_bind (Ok x) f = f x"
| "result_bind (Err e) f = Err e"

fun map_ok :: "('a \<Rightarrow> 'b) \<Rightarrow> ('a, 'e) result \<Rightarrow> ('b, 'e) result" where
  "map_ok f (Ok x) = Ok (f x)"
| "map_ok f (Err e) = Err e"

fun map_err :: "('e \<Rightarrow> 'f) \<Rightarrow> ('a, 'e) result \<Rightarrow> ('a, 'f) result" where
  "map_err f (Ok x) = Ok x"
| "map_err f (Err e) = Err (f e)"

fun is_ok :: "('a, 'e) result \<Rightarrow> bool" where
  "is_ok (Ok x) = True"
| "is_ok (Err e) = False"

fun unwrap_or :: "'a option \<Rightarrow> 'a \<Rightarrow> 'a" where
  "unwrap_or (Some x) d = x"
| "unwrap_or None d = d"

lemma result_bind_eq_Ok: "result_bind r f = Ok y \<longleftrightarrow> (\<exists>x. r = Ok x \<and> f x = Ok y)"
  by (cases r) simp_all

lemma map_ok_eq_Ok: "map_ok f r = Ok y \<longleftrightarrow> (\<exists>x. r = Ok x \<and> y = f x)"
  by (cases r) auto

lemma map_err_eq_Ok: "map_err f r = Ok y \<longleftrightarrow> r = Ok y"
  by (cases r) simp_all

lemma is_ok_iff: "is_ok r \<longleftrightarrow> (\<exists>x. r = Ok x)"
  by (cases r) simp_all

lemmas result_inversions = result_bind_eq_Ok map_ok_eq_Ok map_err_eq_Ok

section \<open>Parsers\<close>

text \<open>
  A parser consumes a front part of the buffer: on success it returns the value and what is
  left of the buffer. After an error the code drops the buffer, so no rest is kept.
\<close>

type_synonym ('a, 'e) parser = "bytes \<Rightarrow> ('a \<times> bytes, 'e) result"

definition leaves_suffix :: "('a, 'e) parser \<Rightarrow> bool" where
  "leaves_suffix p \<longleftrightarrow> (\<forall>bs x rest. p bs = Ok (x, rest) \<longrightarrow> (\<exists>used. bs = used @ rest))"

lemma drop_suffix [simp]: "\<exists>used. bs = used @ drop n bs"
  by (rule exI [of _ "take n bs"]) simp

lemma leaves_suffixI:
  assumes "\<And>bs x rest. p bs = Ok (x, rest) \<Longrightarrow> \<exists>used. bs = used @ rest"
  shows "leaves_suffix p"
  using assms by (simp add: leaves_suffix_def)

lemma leaves_suffixD: "leaves_suffix p \<Longrightarrow> p bs = Ok (x, rest) \<Longrightarrow> \<exists>used. bs = used @ rest"
  by (simp add: leaves_suffix_def)

lemma leaves_suffix_length:
  "leaves_suffix p \<Longrightarrow> p bs = Ok (x, rest) \<Longrightarrow> length rest \<le> length bs"
  by (auto dest: leaves_suffixD)

section \<open>Big-endian bytes of an integer\<close>

fun to_be :: "nat \<Rightarrow> 'a::len word \<Rightarrow> bytes" where
  "to_be 0 v = []"
| "to_be (Suc n) v = ucast (drop_bit (8 * n) v) # to_be n v"

fun from_be_acc :: "'a::len word \<Rightarrow> bytes \<Rightarrow> 'a word" where
  "from_be_acc a [] = a"
| "from_be_acc a (b # bs) = from_be_acc (a * 256 + ucast b) bs"

definition from_be :: "bytes \<Rightarrow> 'a::len word" where
  "from_be bs = from_be_acc 0 bs"

lemma length_to_be [simp]: "length (to_be n v) = n"
  by (induction n) simp_all

lemma from_be_acc_eq: "from_be_acc a bs = a * 256 ^ length bs + from_be bs"
proof (induction bs arbitrary: a)
  case Nil
  show ?case by (simp add: from_be_def)
next
  case (Cons b bs)
  have "(from_be (b # bs) :: 'a word) = from_be_acc (ucast b) bs" by (simp add: from_be_def)
  also have "\<dots> = ucast b * 256 ^ length bs + from_be bs" by (rule Cons.IH)
  finally show ?case using Cons.IH [of "a * 256 + ucast b"] by (simp add: algebra_simps)
qed

lemma from_be_Nil [simp]: "from_be [] = 0"
  by (simp add: from_be_def)

lemma from_be_Cons: "from_be (b # bs) = ucast b * 256 ^ length bs + from_be bs"
  using from_be_acc_eq [of "ucast b" bs] by (simp add: from_be_def)

lemma unat_ucast_byte: "unat (ucast (v :: 'a::len word) :: u8) = unat v mod 256"
  by (simp add: unsigned_ucast_eq take_bit_eq_mod)

lemma from_be_to_be_nat: "from_be (to_be n v) = (of_nat (unat v mod 256 ^ n) :: 'a::len word)"
  for v :: "'a::len word"
proof (induction n)
  case 0
  show ?case by simp
next
  case (Suc n)
  have pow: "(256 :: nat) ^ n = 2 ^ (8 * n)" by (simp add: power_mult)
  have "unat (ucast (drop_bit (8 * n) v) :: u8) = (unat v div 256 ^ n) mod 256"
    by (simp add: unat_ucast_byte unat_drop_bit_eq flip: drop_bit_eq_div) (simp add: drop_bit_eq_div pow)
  then have hd: "(ucast (ucast (drop_bit (8 * n) v) :: u8) :: 'a word)
      = of_nat ((unat v div 256 ^ n) mod 256)"
    by (metis of_nat_unat)
  have "unat v mod 256 ^ Suc n = (unat v div 256 ^ n) mod 256 * 256 ^ n + unat v mod 256 ^ n"
    using mod_mult2_eq [of "unat v" "256 ^ n" 256] by (simp add: ac_simps)
  then show ?case by (simp add: from_be_Cons Suc.IH hd)
qed

lemma from_be_to_be:
  assumes "LENGTH('a) \<le> 8 * n"
  shows "from_be (to_be n v) = (v :: 'a::len word)"
proof -
  have "unat v < 2 ^ LENGTH('a)" by (rule unsigned_less)
  also have "\<dots> \<le> 2 ^ (8 * n)" using assms by (rule power_increasing) simp
  finally have "unat v mod 256 ^ n = unat v" by (simp add: power_mult)
  then show ?thesis by (simp add: from_be_to_be_nat)
qed

lemma to_be_append_take [simp]: "take n (to_be n v @ rest) = to_be n v"
  and to_be_append_drop [simp]: "drop n (to_be n v @ rest) = rest"
  by simp_all

lemma unat_of_nat_u32: "n < 2 ^ 32 \<Longrightarrow> unat (of_nat n :: u32) = n"
  by (simp add: unat_of_nat)

section \<open>Strings of the source\<close>

text \<open>A Rust \<^verbatim>\<open>String\<close> is the list of its UTF-8 bytes; \<open>lit\<close> is an ASCII literal of the source.\<close>

definition lit :: "string \<Rightarrow> bytes" where
  "lit s = map of_char s"

end
