(* ===== verification/Utf8.thy ===== *)
theory Utf8
  imports Prelude
begin

text \<open>
  \<^verbatim>\<open>String::from_utf8_lossy\<close> of the standard library, which \<^verbatim>\<open>src/buf.rs\<close> applies to every
  string it reads. \<open>utf8_step\<close> inspects the front of the input as the library's chunk iterator
  does: it answers whether a character was recognised and how many bytes were inspected, where
  the table of second bytes excludes overlong forms, surrogates and values above U+10FFFF.
  \<open>from_utf8_lossy\<close> copies characters and writes U+FFFD for each maximal ill-formed part.
  The reference for well-formedness is the grammar of RFC 3629 (\<open>utf8_char\<close>, \<open>utf8_text\<close>).
\<close>

section \<open>The conversion\<close>

definition safe_get :: "bytes \<Rightarrow> nat \<Rightarrow> u8" where
  "safe_get bs i = (if i < length bs then bs ! i else 0)"

definition utf8_char_width :: "u8 \<Rightarrow> nat" where
  "utf8_char_width b =
     (if b < 128 then 1 else if b < 0xC2 then 0 else if b < 0xE0 then 2
      else if b < 0xF0 then 3 else if b < 0xF5 then 4 else 0)"

definition is_continuation :: "u8 \<Rightarrow> bool" where
  "is_continuation b \<longleftrightarrow> b AND 192 = 128"

definition second_of_three :: "u8 \<Rightarrow> u8 \<Rightarrow> bool" where
  "second_of_three b c \<longleftrightarrow>
     b = 0xE0 \<and> 0xA0 \<le> c \<and> c \<le> 0xBF
   \<or> 0xE1 \<le> b \<and> b \<le> 0xEC \<and> 0x80 \<le> c \<and> c \<le> 0xBF
   \<or> b = 0xED \<and> 0x80 \<le> c \<and> c \<le> 0x9F
   \<or> 0xEE \<le> b \<and> b \<le> 0xEF \<and> 0x80 \<le> c \<and> c \<le> 0xBF"

definition second_of_four :: "u8 \<Rightarrow> u8 \<Rightarrow> bool" where
  "second_of_four b c \<longleftrightarrow>
     b = 0xF0 \<and> 0x90 \<le> c \<and> c \<le> 0xBF
   \<or> 0xF1 \<le> b \<and> b \<le> 0xF3 \<and> 0x80 \<le> c \<and> c \<le> 0xBF
   \<or> b = 0xF4 \<and> 0x80 \<le> c \<and> c \<le> 0x8F"

fun utf8_step :: "bytes \<Rightarrow> bool \<times> nat" where
  "utf8_step [] = (True, 0)"
| "utf8_step (b # r) =
     (let w = utf8_char_width b in
      if w = 1 then (True, 1)
      else if w = 2 then (if is_continuation (safe_get r 0) then (True, 2) else (False, 1))
      else if w = 3 then
        (if \<not> second_of_three b (safe_get r 0) then (False, 1)
         else if \<not> is_continuation (safe_get r 1) then (False, 2) else (True, 3))
      else if w = 4 then
        (if \<not> second_of_four b (safe_get r 0) then (False, 1)
         else if \<not> is_continuation (safe_get r 1) then (False, 2)
         else if \<not> is_continuation (safe_get r 2) then (False, 3) else (True, 4))
      else (False, 1))"

definition replacement :: bytes where
  "replacement = [0xEF, 0xBF, 0xBD]"

lemma utf8_step_pos: "bs \<noteq> [] \<Longrightarrow> 0 < snd (utf8_step bs)"
  by (cases bs) (auto simp: Let_def)

function from_utf8_lossy :: "bytes \<Rightarrow> bytes" where
  "from_utf8_lossy bs =
     (if bs = [] then []
      else let (valid, n) = utf8_step bs
           in (if valid then take n bs else replacement) @ from_utf8_lossy (drop n bs))"
  by pat_completeness auto
termination
proof (relation "measure length")
  fix bs :: bytes and p valid n
  assume "bs \<noteq> []" "p = utf8_step bs" "(valid, n) = p"
  then have "0 < n" using utf8_step_pos by (metis snd_conv)
  with \<open>bs \<noteq> []\<close> show "(drop n bs, bs) \<in> measure length" by simp
qed simp

declare from_utf8_lossy.simps [simp del]

section \<open>Well-formed UTF-8\<close>

definition utf8_tail :: "u8 \<Rightarrow> bool" where
  "utf8_tail b \<longleftrightarrow> 0x80 \<le> b \<and> b \<le> 0xBF"

fun utf8_char :: "bytes \<Rightarrow> bool" where
  "utf8_char [a] \<longleftrightarrow> a \<le> 0x7F"
| "utf8_char [a, b] \<longleftrightarrow> 0xC2 \<le> a \<and> a \<le> 0xDF \<and> utf8_tail b"
| "utf8_char [a, b, c] \<longleftrightarrow> utf8_tail c \<and>
     (a = 0xE0 \<and> 0xA0 \<le> b \<and> b \<le> 0xBF \<or> 0xE1 \<le> a \<and> a \<le> 0xEC \<and> utf8_tail b
      \<or> a = 0xED \<and> 0x80 \<le> b \<and> b \<le> 0x9F \<or> 0xEE \<le> a \<and> a \<le> 0xEF \<and> utf8_tail b)"
| "utf8_char [a, b, c, d] \<longleftrightarrow> utf8_tail c \<and> utf8_tail d \<and>
     (a = 0xF0 \<and> 0x90 \<le> b \<and> b \<le> 0xBF \<or> 0xF1 \<le> a \<and> a \<le> 0xF3 \<and> utf8_tail b
      \<or> a = 0xF4 \<and> 0x80 \<le> b \<and> b \<le> 0x8F)"
| "utf8_char _ \<longleftrightarrow> False"

inductive utf8_text :: "bytes \<Rightarrow> bool" where
  empty: "utf8_text []"
| char: "utf8_char c \<Longrightarrow> utf8_text t \<Longrightarrow> utf8_text (c @ t)"

text \<open>A continuation byte, read bitwise by the code, is the range 80--BF of the grammar.\<close>

lemma continuation_of_nat:
  "\<forall>n \<in> set [0..<256]. is_continuation (word_of_nat n) = utf8_tail (word_of_nat n)"
  by code_simp

lemma is_continuation_iff: "is_continuation b \<longleftrightarrow> utf8_tail b"
proof -
  have "unat b \<in> set [0..<256]" using unsigned_less [of b] by simp
  then have "is_continuation (word_of_nat (unat b)) = utf8_tail (word_of_nat (unat b))"
    using continuation_of_nat by blast
  then show ?thesis by simp
qed

text \<open>The step recognises exactly the characters of the grammar.\<close>

lemmas utf8_word_order = word_less_nat_alt word_le_nat_alt word_unat_eq_iff

lemma utf8_tail_0 [simp]: "\<not> utf8_tail 0"
  by (simp add: utf8_tail_def)

lemma second_of_three_tail: "second_of_three b c \<Longrightarrow> utf8_tail c"
  by (auto simp: second_of_three_def utf8_tail_def utf8_word_order)

lemma second_of_four_tail: "second_of_four b c \<Longrightarrow> utf8_tail c"
  by (auto simp: second_of_four_def utf8_tail_def utf8_word_order)

lemma utf8_char_width_cases:
  "utf8_char_width b = Suc 0 \<longleftrightarrow> b \<le> 0x7F"
  "utf8_char_width b = 2 \<longleftrightarrow> 0xC2 \<le> b \<and> b \<le> 0xDF"
  "utf8_char_width b = 3 \<longleftrightarrow> 0xE0 \<le> b \<and> b \<le> 0xEF"
  "utf8_char_width b = 4 \<longleftrightarrow> 0xF0 \<le> b \<and> b \<le> 0xF4"
  by (auto simp: utf8_char_width_def utf8_word_order)

lemma utf8_step_good:
  assumes "utf8_step bs = (True, n)" and "bs \<noteq> []"
  shows "utf8_char (take n bs)"
proof -
  obtain b r where bs: "bs = b # r" using assms(2) by (cases bs) auto
  consider (one) "n = 1" "b \<le> 0x7F"
    | (two) "n = 2" "0xC2 \<le> b" "b \<le> 0xDF" "utf8_tail (safe_get r 0)"
    | (three) "n = 3" "second_of_three b (safe_get r 0)" "utf8_tail (safe_get r 1)"
    | (four) "n = 4" "second_of_four b (safe_get r 0)" "utf8_tail (safe_get r 1)"
        "utf8_tail (safe_get r 2)"
    using assms(1) bs
    by (auto simp: Let_def is_continuation_iff utf8_char_width_cases split: if_splits)
  then show ?thesis
  proof cases
    case one
    then show ?thesis using bs by simp
  next
    case two
    then obtain c r' where "r = c # r'" by (cases r) (auto simp: safe_get_def)
    with two bs show ?thesis by (simp add: safe_get_def numeral_2_eq_2)
  next
    case three
    then have "utf8_tail (safe_get r 0)" by (blast dest: second_of_three_tail)
    then have "1 < length r" using three(3) by (auto simp: safe_get_def split: if_splits)
    then obtain c d r' where "r = c # d # r'" by (cases r; cases "tl r") auto
    with three bs show ?thesis
      by (auto simp: safe_get_def second_of_three_def utf8_tail_def numeral_3_eq_3)
  next
    case four
    then have "utf8_tail (safe_get r 0)" by (blast dest: second_of_four_tail)
    then have "2 < length r" using four(3,4) by (auto simp: safe_get_def split: if_splits)
    then obtain c d e r' where "r = c # d # e # r'"
      by (cases r; cases "tl r"; cases "tl (tl r)") auto
    with four bs show ?thesis
      by (auto simp: safe_get_def second_of_four_def utf8_tail_def eval_nat_numeral)
  qed
qed

lemma three_byte_char:
  "utf8_char [a, b, c] \<longleftrightarrow> second_of_three a b \<and> utf8_tail c"
  by (auto simp: second_of_three_def utf8_tail_def)

lemma four_byte_char:
  "utf8_char [a, b, c, d] \<longleftrightarrow> second_of_four a b \<and> utf8_tail c \<and> utf8_tail d"
  by (auto simp: second_of_four_def utf8_tail_def)

lemma second_of_three_width: "second_of_three a b \<Longrightarrow> utf8_char_width a = 3"
  by (auto simp: second_of_three_def utf8_char_width_def utf8_word_order)

lemma second_of_four_width: "second_of_four a b \<Longrightarrow> utf8_char_width a = 4"
  by (auto simp: second_of_four_def utf8_char_width_def utf8_word_order)

lemma utf8_step_char:
  assumes "utf8_char c"
  shows "utf8_step (c @ r) = (True, length c)"
proof (cases c rule: utf8_char.cases)
  case (1 a)
  then have "utf8_char_width a = Suc 0" using assms by (simp add: utf8_char_width_cases)
  with 1 show ?thesis by simp
next
  case (2 a b)
  then have "utf8_char_width a = 2" "utf8_tail b" using assms by (simp_all add: utf8_char_width_cases)
  with 2 show ?thesis by (simp add: safe_get_def is_continuation_iff)
next
  case (3 a b d)
  then have "second_of_three a b" "utf8_tail d" using assms by (simp_all only: three_byte_char)
  with 3 show ?thesis
    by (simp add: safe_get_def is_continuation_iff second_of_three_width)
next
  case (4 a b d e)
  then have "second_of_four a b" "utf8_tail d" "utf8_tail e" using assms
    by (simp_all only: four_byte_char)
  with 4 show ?thesis
    by (simp add: safe_get_def is_continuation_iff second_of_four_width eval_nat_numeral)
qed (use assms in simp_all)

lemma utf8_char_nonempty: "utf8_char c \<Longrightarrow> c \<noteq> []"
  by auto

section \<open>What the conversion does\<close>

lemma utf8_char_replacement: "utf8_char replacement"
  by (simp add: replacement_def utf8_tail_def)

lemma from_utf8_lossy_Nil [simp]: "from_utf8_lossy [] = []"
  by (simp add: from_utf8_lossy.simps)

lemma from_utf8_lossy_char:
  "utf8_char c \<Longrightarrow> from_utf8_lossy (c @ r) = c @ from_utf8_lossy r"
  by (auto simp: from_utf8_lossy.simps [of "c @ r"] utf8_step_char)

lemma from_utf8_lossy_text_append:
  "utf8_text t \<Longrightarrow> from_utf8_lossy (t @ r) = t @ from_utf8_lossy r"
  by (induction rule: utf8_text.induct) (simp_all add: from_utf8_lossy_char)

lemma from_utf8_lossy_text: "utf8_text t \<Longrightarrow> from_utf8_lossy t = t"
  using from_utf8_lossy_text_append [of t "[]"] by simp

lemma utf8_text_lossy: "utf8_text (from_utf8_lossy bs)"
proof (induction bs rule: from_utf8_lossy.induct)
  case (1 bs)
  show ?case
  proof (cases "bs = []")
    case True
    then show ?thesis by (simp add: utf8_text.empty)
  next
    case False
    obtain v n where step: "utf8_step bs = (v, n)" by fastforce
    have rest: "utf8_text (from_utf8_lossy (drop n bs))" using 1 False step by simp
    have "utf8_char (if v then take n bs else replacement)"
      using False step by (simp add: utf8_step_good utf8_char_replacement)
    then show ?thesis
      using rest False step by (simp add: from_utf8_lossy.simps [of bs] utf8_text.char)
  qed
qed

text \<open>Well-formedness as a test: nothing is replaced.\<close>

definition valid_utf8 :: "bytes \<Rightarrow> bool" where
  "valid_utf8 bs \<longleftrightarrow> from_utf8_lossy bs = bs"

lemma valid_utf8_iff: "valid_utf8 bs \<longleftrightarrow> utf8_text bs"
  unfolding valid_utf8_def using from_utf8_lossy_text utf8_text_lossy by metis

lemma valid_utf8_lossy [simp]: "valid_utf8 (from_utf8_lossy bs)"
  by (simp add: valid_utf8_iff utf8_text_lossy)

lemma valid_utf8_Nil [simp]: "valid_utf8 []"
  by (simp add: valid_utf8_def)

lemma utf8_text_ascii: "\<forall>b \<in> set t. b \<le> 0x7F \<Longrightarrow> utf8_text t"
proof (induction t)
  case Nil
  show ?case by (rule utf8_text.empty)
next
  case (Cons b t)
  then have "utf8_text ([b] @ t)" by (intro utf8_text.char) simp_all
  then show ?case by simp
qed

lemma valid_utf8_ascii: "\<forall>b \<in> set t. b \<le> 0x7F \<Longrightarrow> valid_utf8 t"
  by (simp add: valid_utf8_iff utf8_text_ascii)

text \<open>A replaced part has at least one byte and its replacement has three.\<close>

lemma from_utf8_lossy_length: "length (from_utf8_lossy bs) \<le> 3 * length bs"
proof (induction bs rule: from_utf8_lossy.induct)
  case (1 bs)
  show ?case
  proof (cases "bs = []")
    case False
    obtain v n where step: "utf8_step bs = (v, n)" by fastforce
    have "0 < n" using utf8_step_pos [OF False] step by simp
    moreover from this have "1 \<le> min n (length bs)" using False by (simp add: Suc_le_eq)
    moreover from this have "length (if v then take n bs else replacement) \<le> 3 * min n (length bs)"
      by (cases v) (auto simp: replacement_def min_def)
    moreover have "length (from_utf8_lossy (drop n bs)) \<le> 3 * (length bs - n)"
      using "1.IH" [OF False step [symmetric] refl] by simp
    moreover have "length (from_utf8_lossy bs)
        = length (if v then take n bs else replacement) + length (from_utf8_lossy (drop n bs))"
      using False step by (simp add: from_utf8_lossy.simps [of bs])
    ultimately show ?thesis by linarith
  qed simp
qed

end
