(* ===== verification/Buf.thy ===== *)
theory Buf
  imports Utf8
begin

text \<open>
  \<^verbatim>\<open>src/error.rs\<close> and \<^verbatim>\<open>src/buf.rs\<close>: the crate's error type with its conversions, and
  the length-prefixed reads on a buffer. A buffer (\<^verbatim>\<open>bytes::Bytes\<close>) is the list of the bytes
  it still holds; its integer accessors check how much remains and apply the standard library's
  big-endian conversion, as documented.
\<close>

section \<open>Error values\<close>

text \<open>
  Formatted text is kept as its pieces: literals of the source, numbers, strings and, for the
  \<^verbatim>\<open>Display\<close> of a value of another crate, the value itself.
\<close>

record try_get_error =
  requested :: nat
  available :: nat

datatype io_kind = KUnexpectedEof | KOther | KInvalidData | KOtherKind nat

record io_error =
  io_kind_of :: io_kind
  io_inner :: "bytes option"

datatype piece =
    Lit string
  | Num nat
  | Text bytes
  | TryGetDisplay try_get_error
  | IoKindDisplay io_kind
  | IoErrorDisplay io_error
  | SerdeInvalidLength nat
  | SerdeInvalidVariant u32
  | CrateDisplay string

type_synonym msg = "piece list"

datatype error =
    IO msg
  | UnexpectedEof
  | BadMessage msg
  | Client msg
  | UnexpectedBehavior msg

text \<open>The \<^verbatim>\<open>Display\<close> of the error, from its \<^verbatim>\<open>#[error]\<close> attributes.\<close>

fun display_error :: "error \<Rightarrow> msg" where
  "display_error (IO m) = Lit ''I/O: '' # m"
| "display_error UnexpectedEof = [Lit ''Unexpected EOF on stream'']"
| "display_error (BadMessage m) = Lit ''Bad message: '' # m"
| "display_error (Client m) = Lit ''Client error. ('' # m @ [Lit '')'']"
| "display_error (UnexpectedBehavior m) = Lit ''Unexpected behavior: '' # m"

definition error_of_io :: "io_error \<Rightarrow> error" where
  "error_of_io err =
     (let kind = io_kind_of err;
          m = (case io_inner err of None \<Rightarrow> lit '''' | Some x \<Rightarrow> x)
      in if kind = KUnexpectedEof then UnexpectedEof
         else if kind = KOther \<and> m = lit ''EOF'' then UnexpectedEof
         else IO [IoKindDisplay kind])"

definition error_of_try_get :: "try_get_error \<Rightarrow> error" where
  "error_of_try_get err =
     BadMessage [Lit ''only '', Num (available err), Lit '' bytes remaining, but '',
       Num (requested err), Lit '' requested'']"

text \<open>\<^verbatim>\<open>serde::de::Error::custom\<close> and \<^verbatim>\<open>serde::ser::Error::custom\<close>.\<close>

definition custom :: "msg \<Rightarrow> error" where
  "custom m = BadMessage m"

section \<open>Integer accessors of the buffer\<close>

definition try_get_be :: "nat \<Rightarrow> bytes \<Rightarrow> ('a::len word \<times> bytes, try_get_error) result" where
  "try_get_be n bs =
     (if length bs < n then Err \<lparr>requested = n, available = length bs\<rparr>
      else Ok (from_be (take n bs), drop n bs))"

definition try_get_u8 :: "bytes \<Rightarrow> (u8 \<times> bytes, try_get_error) result" where
  "try_get_u8 = try_get_be 1"

definition try_get_u32 :: "bytes \<Rightarrow> (u32 \<times> bytes, try_get_error) result" where
  "try_get_u32 = try_get_be 4"

definition try_get_u64 :: "bytes \<Rightarrow> (u64 \<times> bytes, try_get_error) result" where
  "try_get_u64 = try_get_be 8"

lemmas try_get_defs = try_get_u8_def try_get_u32_def try_get_u64_def

definition put_u8 :: "bytes \<Rightarrow> u8 \<Rightarrow> bytes" where
  "put_u8 out v = out @ [v]"

definition put_u32 :: "bytes \<Rightarrow> u32 \<Rightarrow> bytes" where
  "put_u32 out v = out @ to_be 4 v"

definition put_u64 :: "bytes \<Rightarrow> u64 \<Rightarrow> bytes" where
  "put_u64 out v = out @ to_be 8 v"

section \<open>Length-prefixed reads\<close>

definition try_get_bytes :: "bytes \<Rightarrow> (bytes \<times> bytes, error) result" where
  "try_get_bytes bs =
     result_bind (map_err (\<lambda>e. UnexpectedBehavior [TryGetDisplay e]) (try_get_u32 bs))
       (\<lambda>(n, bs').
          let len = unat n in
          if length bs' < len then Err (BadMessage [Lit ''no remaining for vec''])
          else Ok (take len bs', drop len bs'))"

definition try_get_string :: "bytes \<Rightarrow> (bytes \<times> bytes, error) result" where
  "try_get_string bs =
     result_bind (try_get_bytes bs) (\<lambda>(b, bs'). Ok (from_utf8_lossy b, bs'))"

section \<open>Facts\<close>

lemma try_get_be_to_be [parse_simps]:
  "LENGTH('a) \<le> 8 * n \<Longrightarrow> try_get_be n (to_be n v @ rest) = Ok (v :: 'a::len word, rest)"
  by (simp add: try_get_be_def from_be_to_be)

lemma try_get_u8_Cons [parse_simps]: "try_get_u8 (b # rest) = Ok (b, rest)"
  by (simp add: try_get_u8_def try_get_be_def from_be_Cons)

lemma try_get_u8_Nil [parse_simps]: "try_get_u8 [] = Err \<lparr>requested = 1, available = 0\<rparr>"
  by (simp add: try_get_u8_def try_get_be_def)

lemma try_get_u32_to_be [parse_simps]: "try_get_u32 (to_be 4 v @ rest) = Ok (v, rest)"
  by (simp add: try_get_u32_def try_get_be_to_be)

lemma try_get_u64_to_be [parse_simps]: "try_get_u64 (to_be 8 v @ rest) = Ok (v, rest)"
  by (simp add: try_get_u64_def try_get_be_to_be)

lemma try_get_u32_short:
  "length bs < 4 \<Longrightarrow> try_get_u32 bs = Err \<lparr>requested = 4, available = length bs\<rparr>"
  by (simp add: try_get_u32_def try_get_be_def)

lemma try_get_u32_length: "try_get_u32 bs = Ok (v, rest) \<Longrightarrow> length bs = length rest + 4"
  by (auto simp: try_get_u32_def try_get_be_def split: if_splits)

text \<open>A string of less than 4 GiB comes back, ill-formed parts replaced.\<close>

definition wire_string :: "bytes \<Rightarrow> bytes" where
  "wire_string s = to_be 4 (of_nat (length s) :: u32) @ s"

lemma try_get_bytes_wire [parse_simps]:
  "length s < 2 ^ 32 \<Longrightarrow> try_get_bytes (wire_string s @ rest) = Ok (s, rest)"
  by (simp add: try_get_bytes_def wire_string_def try_get_u32_to_be unat_of_nat_u32)

lemma try_get_string_wire [parse_simps]:
  "length s < 2 ^ 32 \<Longrightarrow> try_get_string (wire_string s @ rest) = Ok (from_utf8_lossy s, rest)"
  by (simp add: try_get_string_def try_get_bytes_wire)

lemma try_get_bytes_suffix [suffix_intros]: "leaves_suffix try_get_bytes"
proof (rule leaves_suffixI)
  fix bs x rest
  assume "try_get_bytes bs = Ok (x, rest)"
  then obtain n bs' where "try_get_u32 bs = Ok (n, bs')" "rest = drop (unat n) bs'"
    by (auto simp: try_get_bytes_def result_inversions Let_def split: if_splits)
  then have "bs = take 4 bs @ take (unat n) bs' @ rest"
    by (auto simp: try_get_u32_def try_get_be_def split: if_splits)
  then show "\<exists>used. bs = used @ rest" by (metis append.assoc)
qed

lemma try_get_string_suffix [suffix_intros]: "leaves_suffix try_get_string"
  using try_get_bytes_suffix
  by (auto simp: leaves_suffix_def try_get_string_def result_inversions)

lemma try_get_string_length: "try_get_string bs = Ok (s, rest) \<Longrightarrow> length rest + 4 \<le> length bs"
  by (auto simp: try_get_string_def try_get_bytes_def result_inversions Let_def
      dest!: try_get_u32_length split: if_splits)

text \<open>Whatever is read as a string is well-formed UTF-8, as Rust's type requires.\<close>

lemma try_get_string_valid: "try_get_string bs = Ok (s, rest) \<Longrightarrow> valid_utf8 s"
  by (auto simp: try_get_string_def result_inversions)

section \<open>Properties of string reads\<close>

text \<open> A length-prefixed string is read when, and only when, the buffer holds the four bytes of the
  length and as many bytes as it says; a hostile length is an error and never reads past the end.\<close>

theorem string_read_bounds:
  "is_ok (try_get_string bs) \<longleftrightarrow>
     4 \<le> length bs \<and> unat (from_be (take 4 bs) :: u32) \<le> length bs - 4"
  by (auto simp: is_ok_iff try_get_string_def try_get_bytes_def try_get_u32_def try_get_be_def
      Let_def result_inversions split: if_splits)

text \<open>C29: A string of less than 4 GiB on the wire is always read as well-formed UTF-8, at most three
  times as long, and unchanged exactly when it was well-formed.\<close>

theorem string_read_well_formed:
  assumes "length b < 2 ^ 32"
  shows "\<exists>s. try_get_string (wire_string b @ rest) = Ok (s, rest) \<and> utf8_text s
    \<and> length s \<le> 3 * length b \<and> (s = b \<longleftrightarrow> utf8_text b)"
  using assms utf8_text_lossy [of b] from_utf8_lossy_text [of b]
  by (intro exI [of _ "from_utf8_lossy b"])
    (auto simp: try_get_string_wire from_utf8_lossy_length)

theorem string_read_well_formed_witness:
  "\<exists>s. try_get_string (wire_string [0x41, 0xFF] @ [7]) = Ok (s, [7]) \<and> utf8_text s
    \<and> length s \<le> 3 * length [0x41 :: u8, 0xFF] \<and> (s = [0x41, 0xFF] \<longleftrightarrow> utf8_text [0x41, 0xFF])"
  by (rule string_read_well_formed) simp

end
