(* ===== verification/Ser.thy ===== *)
theory Ser
  imports Buf
begin

text \<open>
  \<^verbatim>\<open>src/ser.rs\<close>: the serializer. Its state is the output written so far (\<^verbatim>\<open>output: BytesMut\<close>);
  every method of \<^verbatim>\<open>serde::Serializer\<close> is a function that takes that output and answers the
  longer output or an error. A value is serialized by a function that calls these methods, as
  its \<^verbatim>\<open>Serialize\<close> implementation does; \<open>'a serialize\<close> is the type of these functions. The
  \<^verbatim>\<open>wire_simps\<close> facts say what each one appends.
\<close>

type_synonym obuf = bytes
type_synonym 'a serialize = "'a \<Rightarrow> obuf \<Rightarrow> (obuf, error) result"

definition to_bytes :: "'a serialize \<Rightarrow> 'a \<Rightarrow> (bytes, error) result" where
  "to_bytes ser v = ser v []"

section \<open>The methods of the serializer\<close>

definition serialize_bool :: "obuf \<Rightarrow> bool \<Rightarrow> (obuf, error) result" where
  "serialize_bool out v = Err (BadMessage [Lit ''bool not supported''])"

definition serialize_i8 :: "obuf \<Rightarrow> u8 \<Rightarrow> (obuf, error) result" where
  "serialize_i8 out v = Err (BadMessage [Lit ''i8 not supported''])"

definition serialize_i16 :: "obuf \<Rightarrow> u16 \<Rightarrow> (obuf, error) result" where
  "serialize_i16 out v = Err (BadMessage [Lit ''i16 not supported''])"

definition serialize_i32 :: "obuf \<Rightarrow> u32 \<Rightarrow> (obuf, error) result" where
  "serialize_i32 out v = Err (BadMessage [Lit ''i32 not supported''])"

definition serialize_i64 :: "obuf \<Rightarrow> u64 \<Rightarrow> (obuf, error) result" where
  "serialize_i64 out v = Err (BadMessage [Lit ''i64 not supported''])"

definition serialize_u8 :: "obuf \<Rightarrow> u8 \<Rightarrow> (obuf, error) result" where
  "serialize_u8 out v = Ok (put_u8 out v)"

definition serialize_u16 :: "obuf \<Rightarrow> u16 \<Rightarrow> (obuf, error) result" where
  "serialize_u16 out v = Err (BadMessage [Lit ''u16 not supported''])"

definition serialize_u32 :: "obuf \<Rightarrow> u32 \<Rightarrow> (obuf, error) result" where
  "serialize_u32 out v = Ok (put_u32 out v)"

definition serialize_u64 :: "obuf \<Rightarrow> u64 \<Rightarrow> (obuf, error) result" where
  "serialize_u64 out v = Ok (put_u64 out v)"

definition serialize_f32 :: "obuf \<Rightarrow> 'v \<Rightarrow> (obuf, error) result" where
  "serialize_f32 out v = Err (BadMessage [Lit ''f32 not supported''])"

definition serialize_f64 :: "obuf \<Rightarrow> 'v \<Rightarrow> (obuf, error) result" where
  "serialize_f64 out v = Err (BadMessage [Lit ''f64 not supported''])"

definition serialize_char :: "obuf \<Rightarrow> 'v \<Rightarrow> (obuf, error) result" where
  "serialize_char out v = Err (BadMessage [Lit ''char not supported''])"

definition serialize_str :: "obuf \<Rightarrow> bytes \<Rightarrow> (obuf, error) result" where
  "serialize_str out v = Ok (put_u32 out (of_nat (length v)) @ v)"

definition serialize_bytes :: "obuf \<Rightarrow> bytes \<Rightarrow> (obuf, error) result" where
  "serialize_bytes out v = Err (BadMessage [Lit ''bytes not supported''])"

definition serialize_none :: "obuf \<Rightarrow> (obuf, error) result" where
  "serialize_none out = Ok out"

definition serialize_some :: "'a serialize \<Rightarrow> obuf \<Rightarrow> 'a \<Rightarrow> (obuf, error) result" where
  "serialize_some ser out v = ser v out"

definition serialize_unit :: "obuf \<Rightarrow> (obuf, error) result" where
  "serialize_unit out = Err (BadMessage [Lit ''unit not supported''])"

definition serialize_unit_struct :: "obuf \<Rightarrow> string \<Rightarrow> (obuf, error) result" where
  "serialize_unit_struct out name = Err (BadMessage [Lit ''unit struct not supported''])"

definition serialize_unit_variant :: "obuf \<Rightarrow> u32 \<Rightarrow> (obuf, error) result" where
  "serialize_unit_variant out variant_index = serialize_u32 out variant_index"

definition serialize_newtype_struct :: "'a serialize \<Rightarrow> obuf \<Rightarrow> 'a \<Rightarrow> (obuf, error) result" where
  "serialize_newtype_struct ser out v = ser v out"

definition serialize_newtype_variant ::
  "'a serialize \<Rightarrow> obuf \<Rightarrow> u32 \<Rightarrow> 'a \<Rightarrow> (obuf, error) result" where
  "serialize_newtype_variant ser out variant_index v = ser v out"

definition serialize_seq :: "obuf \<Rightarrow> nat option \<Rightarrow> (obuf, error) result" where
  "serialize_seq out len =
     (case len of Some n \<Rightarrow> Ok (put_u32 out (of_nat n)) | None \<Rightarrow> Ok out)"

definition serialize_tuple_variant :: "obuf \<Rightarrow> u32 \<Rightarrow> nat \<Rightarrow> (obuf, error) result" where
  "serialize_tuple_variant out variant_index len = Ok out"

definition serialize_tuple :: "obuf \<Rightarrow> nat \<Rightarrow> (obuf, error) result" where
  "serialize_tuple out len = Ok out"

definition serialize_tuple_struct :: "obuf \<Rightarrow> nat \<Rightarrow> (obuf, error) result" where
  "serialize_tuple_struct out len = Ok out"

definition serialize_map :: "obuf \<Rightarrow> nat option \<Rightarrow> (obuf, error) result" where
  "serialize_map out len = Ok out"

definition serialize_struct :: "obuf \<Rightarrow> nat \<Rightarrow> (obuf, error) result" where
  "serialize_struct out len = Ok out"

definition serialize_struct_variant :: "obuf \<Rightarrow> u32 \<Rightarrow> nat \<Rightarrow> (obuf, error) result" where
  "serialize_struct_variant out variant_index len =
     Err (BadMessage [Lit ''struct variant not supported''])"

definition ser_is_human_readable :: bool where
  "ser_is_human_readable = False"

text \<open>The compound serializers write an element, key, value or field where the output ends.\<close>

definition seq_serialize_element :: "'a serialize \<Rightarrow> obuf \<Rightarrow> 'a \<Rightarrow> (obuf, error) result" where
  "seq_serialize_element ser out v = ser v out"

definition map_serialize_key :: "'a serialize \<Rightarrow> obuf \<Rightarrow> 'a \<Rightarrow> (obuf, error) result" where
  "map_serialize_key ser out v = ser v out"

definition map_serialize_value :: "'a serialize \<Rightarrow> obuf \<Rightarrow> 'a \<Rightarrow> (obuf, error) result" where
  "map_serialize_value ser out v = ser v out"

definition tuple_serialize_element :: "'a serialize \<Rightarrow> obuf \<Rightarrow> 'a \<Rightarrow> (obuf, error) result" where
  "tuple_serialize_element ser out v = ser v out"

definition serialize_field :: "'a serialize \<Rightarrow> obuf \<Rightarrow> 'a \<Rightarrow> (obuf, error) result" where
  "serialize_field ser out v = ser v out"

definition struct_variant_serialize_field ::
  "'a serialize \<Rightarrow> obuf \<Rightarrow> 'a \<Rightarrow> (obuf, error) result" where
  "struct_variant_serialize_field ser out v = ser v out"

definition tuple_struct_serialize_field ::
  "'a serialize \<Rightarrow> obuf \<Rightarrow> 'a \<Rightarrow> (obuf, error) result" where
  "tuple_struct_serialize_field ser out v = ser v out"

definition tuple_variant_serialize_field ::
  "'a serialize \<Rightarrow> obuf \<Rightarrow> 'a \<Rightarrow> (obuf, error) result" where
  "tuple_variant_serialize_field ser out v = ser v out"

definition ser_end :: "obuf \<Rightarrow> (obuf, error) result" where
  "ser_end out = Ok out"

section \<open>Values of the standard types\<close>

text \<open>
  Serde calls \<open>serialize_u8\<close> for a \<^verbatim>\<open>u8\<close> and so on, \<open>serialize_str\<close> for a \<^verbatim>\<open>String\<close>,
  \<open>serialize_seq\<close> with the length for a \<^verbatim>\<open>Vec\<close>, \<open>serialize_map\<close> for a \<^verbatim>\<open>HashMap\<close>. A
  \<^verbatim>\<open>HashMap<String, String>\<close> is the list of its entries in the order it iterates over them.
\<close>

definition ser_u8 :: "u8 serialize" where
  "ser_u8 v out = serialize_u8 out v"

definition ser_u32 :: "u32 serialize" where
  "ser_u32 v out = serialize_u32 out v"

definition ser_u64 :: "u64 serialize" where
  "ser_u64 v out = serialize_u64 out v"

definition ser_string :: "bytes serialize" where
  "ser_string v out = serialize_str out v"

fun ser_elements :: "'a serialize \<Rightarrow> 'a list serialize" where
  "ser_elements ser [] out = ser_end out"
| "ser_elements ser (v # vs) out =
     result_bind (seq_serialize_element ser out v) (\<lambda>out. ser_elements ser vs out)"

definition ser_vec :: "'a serialize \<Rightarrow> 'a list serialize" where
  "ser_vec ser vs out =
     result_bind (serialize_seq out (Some (length vs))) (\<lambda>out. ser_elements ser vs out)"

definition data_serialize :: "bytes serialize" where
  "data_serialize data out =
     result_bind (serialize_seq out None) (\<lambda>out. ser_elements ser_u8 data out)"

type_synonym string_map = "(bytes \<times> bytes) list"

fun ser_entries :: "string_map serialize" where
  "ser_entries [] out = ser_end out"
| "ser_entries ((k, v) # kvs) out =
     result_bind (map_serialize_key ser_string out k) (\<lambda>out.
     result_bind (map_serialize_value ser_string out v) (\<lambda>out.
     ser_entries kvs out))"

definition ser_string_map :: "string_map serialize" where
  "ser_string_map m out =
     result_bind (serialize_map out (Some (length m))) (\<lambda>out. ser_entries m out)"

section \<open>What is written\<close>

definition wire_entries :: "string_map \<Rightarrow> bytes" where
  "wire_entries m = concat (map (\<lambda>(k, v). wire_string k @ wire_string v) m)"

definition wire_vec :: "('a \<Rightarrow> bytes) \<Rightarrow> 'a list \<Rightarrow> bytes" where
  "wire_vec wire vs = to_be 4 (of_nat (length vs) :: u32) @ concat (map wire vs)"

lemmas ser_put_defs = put_u8_def put_u32_def put_u64_def

lemma ser_u8_wire [wire_simps]: "ser_u8 v out = Ok (out @ [v])"
  by (simp add: ser_u8_def serialize_u8_def ser_put_defs)

lemma ser_u32_wire [wire_simps]: "ser_u32 v out = Ok (out @ to_be 4 v)"
  by (simp add: ser_u32_def serialize_u32_def ser_put_defs)

lemma ser_u64_wire [wire_simps]: "ser_u64 v out = Ok (out @ to_be 8 v)"
  by (simp add: ser_u64_def serialize_u64_def ser_put_defs)

lemma ser_string_wire [wire_simps]: "ser_string s out = Ok (out @ wire_string s)"
  by (simp add: ser_string_def serialize_str_def ser_put_defs wire_string_def)

lemma ser_elements_wire:
  assumes "\<And>v out. v \<in> set vs \<Longrightarrow> ser v out = Ok (out @ wire v)"
  shows "ser_elements ser vs out = Ok (out @ concat (map wire vs))"
  using assms
  by (induction vs arbitrary: out) (simp_all add: ser_end_def seq_serialize_element_def)

lemma ser_vec_wire:
  assumes "\<And>v out. v \<in> set vs \<Longrightarrow> ser v out = Ok (out @ wire v)"
  shows "ser_vec ser vs out = Ok (out @ wire_vec wire vs)"
  by (simp add: ser_vec_def serialize_seq_def ser_put_defs wire_vec_def ser_elements_wire [OF assms])

lemma data_serialize_wire [wire_simps]: "data_serialize data out = Ok (out @ data)"
  using ser_elements_wire [of data ser_u8 "\<lambda>b. [b]" out]
  by (simp add: data_serialize_def serialize_seq_def ser_u8_wire)

lemma ser_entries_wire: "ser_entries m out = Ok (out @ wire_entries m)"
  by (induction m out rule: ser_entries.induct)
    (simp_all add: ser_end_def wire_entries_def map_serialize_key_def map_serialize_value_def
      ser_string_wire)

lemma ser_string_map_wire [wire_simps]: "ser_string_map m out = Ok (out @ wire_entries m)"
  by (simp add: ser_string_map_def serialize_map_def ser_entries_wire)

lemmas ser_struct_defs = serialize_struct_def serialize_field_def ser_end_def

end
