(* ===== verification/De.thy ===== *)
theory De
  imports Ser "HOL-Library.AList"
begin

text \<open>
  \<^verbatim>\<open>src/de.rs\<close>: the deserializer. A method takes the visitor it calls and the input buffer, and
  answers the visitor's value with the rest of the buffer, or an error. \<^verbatim>\<open>SeqDeserializer\<close> is the
  record of its two fields; a \<^verbatim>\<open>visit_seq\<close> of a visitor is a function on it. Visitors of the
  standard types and of derived structs call \<open>next_element\<close> as serde's do: a \<^verbatim>\<open>Vec\<close> until it
  answers \<^verbatim>\<open>None\<close>, a struct once for each field.
\<close>

record seq_deserializer =
  sd_input :: bytes
  sd_len :: "nat option"

type_synonym 'a deserialize = "('a, error) parser"
type_synonym 'a visit_seq = "seq_deserializer \<Rightarrow> ('a \<times> seq_deserializer, error) result"

definition from_bytes :: "'a deserialize \<Rightarrow> 'a deserialize" where
  "from_bytes de bs = de bs"

section \<open>Sequences, maps and variants\<close>

definition next_element :: "'a deserialize \<Rightarrow> 'a option visit_seq" where
  "next_element seed s =
     (if sd_len s = Some 0 then Ok (None, s)
      else
        let s = s\<lparr>sd_len := map_option (\<lambda>n. n - 1) (sd_len s)\<rparr>
        in map_ok (\<lambda>(x, rest). (Some x, s\<lparr>sd_input := rest\<rparr>)) (seed (sd_input s)))"

definition seq_size_hint :: "seq_deserializer \<Rightarrow> nat option" where
  "seq_size_hint s = sd_len s"

definition next_key :: "'a deserialize \<Rightarrow> 'a option deserialize" where
  "next_key seed bs =
     (if length bs = 0 then Ok (None, bs) else map_ok (\<lambda>(k, rest). (Some k, rest)) (seed bs))"

definition next_value :: "'a deserialize \<Rightarrow> 'a deserialize" where
  "next_value seed bs = seed bs"

definition unit_variant :: "unit deserialize" where
  "unit_variant bs = Ok ((), bs)"

definition newtype_variant :: "'a deserialize \<Rightarrow> 'a deserialize" where
  "newtype_variant seed bs = seed bs"

text \<open>The variant's seed is given the index that was read.\<close>

definition variant_seed :: "(u32 \<Rightarrow> ('v, error) result) \<Rightarrow> 'v deserialize" where
  "variant_seed seed bs =
     result_bind (map_err error_of_try_get (try_get_u32 bs)) (\<lambda>(v, rest).
     map_ok (\<lambda>x. (x, rest)) (seed v))"

section \<open>The methods of the deserializer\<close>

definition over_input :: "'a visit_seq \<Rightarrow> nat option \<Rightarrow> 'a deserialize" where
  "over_input visit_seq len bs =
     map_ok (\<lambda>(x, s). (x, sd_input s)) (visit_seq \<lparr>sd_input = bs, sd_len = len\<rparr>)"

definition deserialize_any :: "'a visit_seq \<Rightarrow> 'a deserialize" where
  "deserialize_any visit_seq bs = over_input visit_seq (Some (length bs)) bs"

definition deserialize_bool :: "'v \<Rightarrow> 'a deserialize" where
  "deserialize_bool visitor bs = Err (BadMessage [Lit ''bool not supported''])"

definition deserialize_i8 :: "'v \<Rightarrow> 'a deserialize" where
  "deserialize_i8 visitor bs = Err (BadMessage [Lit ''i8 not supported''])"

definition deserialize_i16 :: "'v \<Rightarrow> 'a deserialize" where
  "deserialize_i16 visitor bs = Err (BadMessage [Lit ''i16 not supported''])"

definition deserialize_i32 :: "'v \<Rightarrow> 'a deserialize" where
  "deserialize_i32 visitor bs = Err (BadMessage [Lit ''i32 not supported''])"

definition deserialize_i64 :: "'v \<Rightarrow> 'a deserialize" where
  "deserialize_i64 visitor bs = Err (BadMessage [Lit ''i64 not supported''])"

definition deserialize_u8 :: "(u8 \<Rightarrow> ('a, error) result) \<Rightarrow> 'a deserialize" where
  "deserialize_u8 visit bs =
     result_bind (map_err error_of_try_get (try_get_u8 bs)) (\<lambda>(v, rest).
     map_ok (\<lambda>x. (x, rest)) (visit v))"

definition deserialize_u16 :: "'v \<Rightarrow> 'a deserialize" where
  "deserialize_u16 visitor bs = Err (BadMessage [Lit ''u16 not supported''])"

definition deserialize_u32 :: "(u32 \<Rightarrow> ('a, error) result) \<Rightarrow> 'a deserialize" where
  "deserialize_u32 visit bs =
     result_bind (map_err error_of_try_get (try_get_u32 bs)) (\<lambda>(v, rest).
     map_ok (\<lambda>x. (x, rest)) (visit v))"

definition deserialize_u64 :: "(u64 \<Rightarrow> ('a, error) result) \<Rightarrow> 'a deserialize" where
  "deserialize_u64 visit bs =
     result_bind (map_err error_of_try_get (try_get_u64 bs)) (\<lambda>(v, rest).
     map_ok (\<lambda>x. (x, rest)) (visit v))"

definition deserialize_f32 :: "'v \<Rightarrow> 'a deserialize" where
  "deserialize_f32 visitor bs = Err (BadMessage [Lit ''f32 not supported''])"

definition deserialize_f64 :: "'v \<Rightarrow> 'a deserialize" where
  "deserialize_f64 visitor bs = Err (BadMessage [Lit ''f64 not supported''])"

definition deserialize_char :: "'v \<Rightarrow> 'a deserialize" where
  "deserialize_char visitor bs = Err (BadMessage [Lit ''char not supported''])"

definition deserialize_str :: "(bytes \<Rightarrow> ('a, error) result) \<Rightarrow> 'a deserialize" where
  "deserialize_str visit bs =
     result_bind (try_get_string bs) (\<lambda>(v, rest). map_ok (\<lambda>x. (x, rest)) (visit v))"

definition deserialize_string :: "(bytes \<Rightarrow> ('a, error) result) \<Rightarrow> 'a deserialize" where
  "deserialize_string visit bs = deserialize_str visit bs"

definition deserialize_bytes :: "(bytes \<Rightarrow> ('a, error) result) \<Rightarrow> 'a deserialize" where
  "deserialize_bytes visit bs =
     result_bind (try_get_bytes bs) (\<lambda>(v, rest). map_ok (\<lambda>x. (x, rest)) (visit v))"

definition deserialize_byte_buf :: "(bytes \<Rightarrow> ('a, error) result) \<Rightarrow> 'a deserialize" where
  "deserialize_byte_buf visit bs = deserialize_bytes visit bs"

definition deserialize_option :: "'v \<Rightarrow> 'a deserialize" where
  "deserialize_option visitor bs = Err (BadMessage [Lit ''option not supported''])"

definition deserialize_unit :: "('a, error) result \<Rightarrow> 'a deserialize" where
  "deserialize_unit visit_unit bs = map_ok (\<lambda>x. (x, bs)) visit_unit"

definition deserialize_unit_struct :: "('a, error) result \<Rightarrow> 'a deserialize" where
  "deserialize_unit_struct visit_unit bs = map_ok (\<lambda>x. (x, bs)) visit_unit"

definition deserialize_newtype_struct :: "'a deserialize \<Rightarrow> 'a deserialize" where
  "deserialize_newtype_struct visit_newtype bs = visit_newtype bs"

definition deserialize_seq :: "'a visit_seq \<Rightarrow> 'a deserialize" where
  "deserialize_seq visit_seq bs =
     result_bind (map_err error_of_try_get (try_get_u32 bs)) (\<lambda>(len, rest).
     over_input visit_seq (Some (unat len)) rest)"

definition deserialize_tuple :: "nat \<Rightarrow> 'a visit_seq \<Rightarrow> 'a deserialize" where
  "deserialize_tuple len visit_seq bs = over_input visit_seq (Some len) bs"

definition deserialize_tuple_struct :: "nat \<Rightarrow> 'a visit_seq \<Rightarrow> 'a deserialize" where
  "deserialize_tuple_struct len visit_seq bs = deserialize_tuple len visit_seq bs"

definition deserialize_map :: "'a deserialize \<Rightarrow> 'a deserialize" where
  "deserialize_map visit_map bs = visit_map bs"

definition deserialize_struct :: "nat \<Rightarrow> 'a visit_seq \<Rightarrow> 'a deserialize" where
  "deserialize_struct n visit_seq bs = deserialize_tuple n visit_seq bs"

definition deserialize_enum :: "'a deserialize \<Rightarrow> 'a deserialize" where
  "deserialize_enum visit_enum bs = visit_enum bs"

definition deserialize_identifier :: "'v \<Rightarrow> 'a deserialize" where
  "deserialize_identifier visitor bs = Err (BadMessage [Lit ''identifier not supported''])"

definition deserialize_ignored_any :: "'v \<Rightarrow> 'a deserialize" where
  "deserialize_ignored_any visitor bs = Err (BadMessage [Lit ''ignored any not supported''])"

definition de_is_human_readable :: bool where
  "de_is_human_readable = False"

definition tuple_variant :: "nat \<Rightarrow> 'a visit_seq \<Rightarrow> 'a deserialize" where
  "tuple_variant len visit_seq bs = deserialize_tuple len visit_seq bs"

definition struct_variant :: "nat \<Rightarrow> 'a visit_seq \<Rightarrow> 'a deserialize" where
  "struct_variant n visit_seq bs = deserialize_tuple n visit_seq bs"

section \<open>Values of the standard types\<close>

definition de_u8 :: "u8 deserialize" where
  "de_u8 = deserialize_u8 Ok"

definition de_u32 :: "u32 deserialize" where
  "de_u32 = deserialize_u32 Ok"

definition de_u64 :: "u64 deserialize" where
  "de_u64 = deserialize_u64 Ok"

definition de_string :: "bytes deserialize" where
  "de_string = deserialize_string Ok"

text \<open>
  The visitor of a \<^verbatim>\<open>Vec\<close> asks for elements until there is none. The first argument bounds the
  number of calls; \<open>visit_vec\<close> gives one more than the length, and \<open>vec_loop_enough\<close> shows that
  a larger bound changes nothing.
\<close>

fun vec_loop :: "nat \<Rightarrow> 'a deserialize \<Rightarrow> 'a list \<Rightarrow> 'a list visit_seq" where
  "vec_loop 0 seed acc s = Ok (acc, s)"
| "vec_loop (Suc calls) seed acc s =
     result_bind (next_element seed s) (\<lambda>(x, s).
     case x of
       None \<Rightarrow> Ok (acc, s)
     | Some v \<Rightarrow> vec_loop calls seed (acc @ [v]) s)"

definition visit_vec :: "'a deserialize \<Rightarrow> 'a list visit_seq" where
  "visit_vec seed s = vec_loop (Suc (case sd_len s of Some n \<Rightarrow> n | None \<Rightarrow> length (sd_input s))) seed [] s"

definition de_vec :: "'a deserialize \<Rightarrow> 'a list deserialize" where
  "de_vec de = deserialize_seq (visit_vec de)"

text \<open>\<^verbatim>\<open>data_deserialize\<close>: bytes until the end of the input, which is the length given to the visitor.\<close>

definition data_deserialize :: "bytes deserialize" where
  "data_deserialize = deserialize_any (visit_vec de_u8)"

lemma de_string_length: "de_string bs = Ok (s, rest) \<Longrightarrow> length rest + 4 \<le> length bs"
  by (auto simp: de_string_def deserialize_string_def deserialize_str_def result_inversions
      dest: try_get_string_length)

text \<open>The visitor of \<^verbatim>\<open>HashMap<String, String>\<close>: entries until the input is empty; a later entry
  replaces an earlier one with the same key.\<close>

function string_map_loop :: "string_map \<Rightarrow> string_map deserialize" where
  "string_map_loop m bs =
     (case next_key de_string bs of
        Err e \<Rightarrow> Err e
      | Ok (None, rest) \<Rightarrow> Ok (m, rest)
      | Ok (Some k, rest) \<Rightarrow>
          (case next_value de_string rest of
             Err e \<Rightarrow> Err e
           | Ok (v, rest) \<Rightarrow> string_map_loop (AList.update k v m) rest))"
  by pat_completeness auto
termination
  by (relation "measure (\<lambda>(m, bs). length bs)")
    (auto simp: next_key_def next_value_def result_inversions dest!: de_string_length split: if_splits)

declare string_map_loop.simps [simp del]

definition de_string_map :: "string_map deserialize" where
  "de_string_map = deserialize_map (string_map_loop [])"

text \<open>A derived struct visitor asks for its fields in order; a missing one is an error.\<close>

definition next_field :: "nat \<Rightarrow> 'a deserialize \<Rightarrow> 'a visit_seq" where
  "next_field i seed s =
     result_bind (next_element seed s) (\<lambda>(x, s).
     case x of
       None \<Rightarrow> Err (custom [SerdeInvalidLength i])
     | Some v \<Rightarrow> Ok (v, s))"

section \<open>What is read back\<close>

lemma de_u8_wire [parse_simps]: "de_u8 (v # rest) = Ok (v, rest)"
  by (simp add: de_u8_def deserialize_u8_def try_get_u8_Cons)

lemma de_u32_wire [parse_simps]: "de_u32 (to_be 4 v @ rest) = Ok (v, rest)"
  by (simp add: de_u32_def deserialize_u32_def try_get_u32_to_be)

lemma de_u64_wire [parse_simps]: "de_u64 (to_be 8 v @ rest) = Ok (v, rest)"
  by (simp add: de_u64_def deserialize_u64_def try_get_u64_to_be)

lemma de_string_wire [parse_simps]:
  "length s < 2 ^ 32 \<Longrightarrow> de_string (wire_string s @ rest) = Ok (from_utf8_lossy s, rest)"
  by (simp add: de_string_def deserialize_string_def deserialize_str_def try_get_string_wire)

lemma next_element_step [parse_simps]:
  "0 < n \<Longrightarrow> next_element seed \<lparr>sd_input = bs, sd_len = Some n\<rparr> =
     map_ok (\<lambda>(x, rest). (Some x, \<lparr>sd_input = rest, sd_len = Some (n - 1)\<rparr>)) (seed bs)"
  by (cases "seed bs") (auto simp: next_element_def)

lemma next_element_end [parse_simps]:
  "next_element seed \<lparr>sd_input = bs, sd_len = Some 0\<rparr> =
     Ok (None, \<lparr>sd_input = bs, sd_len = Some 0\<rparr>)"
  by (simp add: next_element_def)

lemma next_field_step [parse_simps]:
  "0 < n \<Longrightarrow> next_field i seed \<lparr>sd_input = bs, sd_len = Some n\<rparr> =
     map_ok (\<lambda>(x, rest). (x, \<lparr>sd_input = rest, sd_len = Some (n - 1)\<rparr>)) (seed bs)"
  by (cases "seed bs") (auto simp: next_field_def next_element_step)

lemma vec_loop_enough:
  assumes "sd_len s = Some n" and "n < calls"
  shows "vec_loop calls seed acc s = vec_loop (Suc n) seed acc s"
  using assms
proof (induction n arbitrary: calls acc s)
  case 0
  then obtain c where "calls = Suc c" by (cases calls) auto
  with 0 show ?case by (simp add: next_element_def)
next
  case (Suc n)
  then obtain c where c: "calls = Suc c" "n < c" by (cases calls) auto
  have "vec_loop c seed (acc @ [x]) s' = vec_loop (Suc n) seed (acc @ [x]) s'"
    if "next_element seed s = Ok (Some x, s')" for x s'
    using that Suc.prems(1) c(2) by (intro Suc.IH) (auto simp: next_element_def result_inversions)
  then show ?case
    using c by (cases "next_element seed s") (auto split: option.splits)
qed

lemma vec_loop_wire:
  assumes "\<And>v rest. v \<in> set vs \<Longrightarrow> de (wire v @ rest) = Ok (f v, rest)"
  shows "vec_loop (Suc (length vs)) de acc
      \<lparr>sd_input = concat (map wire vs) @ rest, sd_len = Some (length vs)\<rparr>
    = Ok (acc @ map f vs, \<lparr>sd_input = rest, sd_len = Some 0\<rparr>)"
  using assms
proof (induction vs arbitrary: acc)
  case Nil
  show ?case by (simp add: next_element_end)
next
  case (Cons v vs)
  then show ?case by (simp add: next_element_step)
qed

lemma de_vec_wire:
  assumes "\<And>v rest. v \<in> set vs \<Longrightarrow> de (wire v @ rest) = Ok (f v, rest)" and "length vs < 2 ^ 32"
  shows "de_vec de (wire_vec wire vs @ rest) = Ok (map f vs, rest)"
  by (simp add: de_vec_def deserialize_seq_def wire_vec_def try_get_u32_to_be over_input_def
      visit_vec_def unat_of_nat_u32 [OF assms(2)] vec_loop_wire [OF assms(1)] del: vec_loop.simps)

lemma data_deserialize_all [parse_simps]: "data_deserialize bs = Ok (bs, [])"
  using vec_loop_wire [of bs de_u8 "\<lambda>b. [b]" "\<lambda>b. b" "[]" "[]"]
  by (simp add: data_deserialize_def deserialize_any_def over_input_def visit_vec_def de_u8_wire
      del: vec_loop.simps)

lemma wire_string_nonempty: "wire_string s \<noteq> []"
  by (simp add: wire_string_def eval_nat_numeral)

lemma string_map_loop_wire:
  assumes "\<forall>(k, v) \<in> set m. length k < 2 ^ 32 \<and> length v < 2 ^ 32"
  shows "string_map_loop acc (wire_entries m)
    = Ok (foldl (\<lambda>a (k, v). AList.update (from_utf8_lossy k) (from_utf8_lossy v) a) acc m, [])"
  using assms
proof (induction m arbitrary: acc)
  case Nil
  show ?case by (simp add: wire_entries_def string_map_loop.simps next_key_def)
next
  case (Cons kv m)
  obtain k v where kv: "kv = (k, v)" by fastforce
  have "wire_entries (kv # m) = wire_string k @ wire_string v @ wire_entries m"
    by (simp add: kv wire_entries_def)
  then show ?case
    using Cons kv
    by (simp add: string_map_loop.simps [of _ "wire_string k @ _"] next_key_def next_value_def
        de_string_wire wire_string_nonempty)
qed

end
