(* ===== verification/Codec.thy ===== *)
theory Codec
  imports De
begin

text \<open>
  What a successful read guarantees: \<open>reads de P\<close> says that every value \<open>de\<close> returns has \<open>P\<close>
  and that the rest is a suffix of the input, for inputs below 1 GiB (so that strings, which
  can grow threefold when ill-formed parts are replaced, stay below 4 GiB). \<open>visits\<close> is the same
  for the visitor of a struct, one field at a time.
\<close>

definition short :: "bytes \<Rightarrow> bool" where
  "short bs \<longleftrightarrow> length bs < 2 ^ 30"

definition reads :: "'a deserialize \<Rightarrow> ('a \<Rightarrow> bool) \<Rightarrow> bool" where
  "reads de P \<longleftrightarrow> (\<forall>bs v rest. short bs \<longrightarrow> de bs = Ok (v, rest) \<longrightarrow>
     P v \<and> (\<exists>used. bs = used @ rest))"

definition visits :: "nat \<Rightarrow> 'a visit_seq \<Rightarrow> ('a \<Rightarrow> bool) \<Rightarrow> bool" where
  "visits n visit Q \<longleftrightarrow> (\<forall>bs v s. short bs \<longrightarrow>
     visit \<lparr>sd_input = bs, sd_len = Some n\<rparr> = Ok (v, s) \<longrightarrow>
     Q v \<and> (\<exists>used. bs = used @ sd_input s))"

lemma short_suffix: "short (used @ rest) \<Longrightarrow> short rest"
  by (simp add: short_def)

lemma readsI:
  assumes "\<And>bs v rest. short bs \<Longrightarrow> de bs = Ok (v, rest) \<Longrightarrow> P v \<and> (\<exists>used. bs = used @ rest)"
  shows "reads de P"
  using assms by (simp add: reads_def)

lemma readsD:
  assumes "reads de P" and "short bs" and "de bs = Ok (v, rest)"
  shows "P v" and "\<exists>used. bs = used @ rest" and "short rest"
  using assms by (auto simp: reads_def dest: short_suffix)

lemma reads_mono: "reads de P \<Longrightarrow> (\<And>v. P v \<Longrightarrow> Q v) \<Longrightarrow> reads de Q"
  by (auto simp: reads_def)

lemma reads_struct: "visits n visit Q \<Longrightarrow> reads (deserialize_struct n visit) Q"
  by (auto simp: reads_def visits_def deserialize_struct_def deserialize_tuple_def over_input_def
      result_inversions)

lemma visits_done: "Q v \<Longrightarrow> visits n (\<lambda>s. Ok (v, s)) Q"
  by (simp add: visits_def)

lemma visits_field:
  assumes "reads de P" and "0 < n" and "\<And>v. P v \<Longrightarrow> visits (n - 1) (k v) Q"
  shows "visits n (\<lambda>s. result_bind (next_field i de s) (case_prod k)) Q"
  unfolding visits_def
proof (intro allI impI)
  fix bs x s
  assume "short bs"
    and "result_bind (next_field i de \<lparr>sd_input = bs, sd_len = Some n\<rparr>) (case_prod k) = Ok (x, s)"
  then obtain v rest where v: "de bs = Ok (v, rest)"
      and x: "k v \<lparr>sd_input = rest, sd_len = Some (n - 1)\<rparr> = Ok (x, s)"
    using assms(2) by (auto simp: result_inversions next_field_step)
  note read = readsD [OF assms(1) \<open>short bs\<close> v]
  have "Q x \<and> (\<exists>used. rest = used @ sd_input s)"
    using assms(3) [OF read(1)] read(3) x by (auto simp: visits_def)
  then show "Q x \<and> (\<exists>used. bs = used @ sd_input s)" using read(2) by (metis append.assoc)
qed

lemma vec_loop_reads:
  assumes "reads de P" and "list_all P acc" and "short bs"
    and "vec_loop calls de acc \<lparr>sd_input = bs, sd_len = Some n\<rparr> = Ok (vs, s)"
  shows "list_all P vs \<and> length vs \<le> length acc + n \<and> (\<exists>used. bs = used @ sd_input s)"
  using assms(2-)
proof (induction calls arbitrary: acc bs n)
  case 0
  then show ?case by auto
next
  case (Suc calls)
  show ?case
  proof (cases "n = 0")
    case True
    with Suc.prems show ?thesis by (auto simp: next_element_end)
  next
    case False
    with Suc.prems(3) obtain v rest where v: "de bs = Ok (v, rest)"
        and more: "vec_loop calls de (acc @ [v]) \<lparr>sd_input = rest, sd_len = Some (n - 1)\<rparr> = Ok (vs, s)"
      by (auto simp: result_inversions next_element_step)
    note read = readsD [OF assms(1) Suc.prems(2) v]
    have "list_all P (acc @ [v])" using Suc.prems(1) read(1) by simp
    from Suc.IH [OF this read(3) more] show ?thesis
      using False read(2) by auto
  qed
qed

lemma vec_reads:
  assumes "reads de P"
  shows "reads (de_vec de) (\<lambda>vs. length vs < 2 ^ 32 \<and> list_all P vs)"
proof (rule readsI)
  fix bs vs rest
  assume "short bs" and "de_vec de bs = Ok (vs, rest)"
  then obtain len bs' s where len: "try_get_u32 bs = Ok (len, bs')"
      and vs: "vec_loop (Suc (unat len)) de [] \<lparr>sd_input = bs', sd_len = Some (unat len)\<rparr> = Ok (vs, s)"
      and rest: "rest = sd_input s"
    by (auto simp: de_vec_def deserialize_seq_def over_input_def visit_vec_def result_inversions
        simp del: vec_loop.simps)
  have bs: "bs = take 4 bs @ bs'"
    using len by (auto simp: try_get_u32_def try_get_be_def split: if_splits)
  have "short bs'" using \<open>short bs\<close> by (subst (asm) bs) (rule short_suffix)
  from vec_loop_reads [OF assms _ this vs] have "list_all P vs" "length vs \<le> unat len"
      "\<exists>used. bs' = used @ rest"
    using rest by simp_all
  moreover have "unat len < 2 ^ 32" using unsigned_less [of len] by simp
  ultimately show "(length vs < 2 ^ 32 \<and> list_all P vs) \<and> (\<exists>used. bs = used @ rest)"
    using bs by (metis append.assoc le_less_trans)
qed

lemma u8_reads: "reads de_u8 (\<lambda>_. True)"
  and u32_reads: "reads de_u32 (\<lambda>_. True)"
  and u64_reads: "reads de_u64 (\<lambda>_. True)"
  by (auto simp: reads_def de_u8_def de_u32_def de_u64_def deserialize_u8_def deserialize_u32_def
      deserialize_u64_def try_get_defs try_get_be_def result_inversions
      split: if_splits)

section \<open>The codec interface\<close>

text \<open>
  The interface between a message and the transport: what \<^verbatim>\<open>ser::to_bytes\<close> and
  \<^verbatim>\<open>de::from_bytes\<close> promise for a type. \<open>wire\<close> is the layout a value has, \<open>fits\<close> the
  values whose lengths the 32-bit prefixes can hold, and \<open>norm\<close> the value a reader gets back
  (the value itself, but for attributes that are completed or dropped on the way). Whatever is
  read fits and is normal, so it can be sent on.
  A \<^verbatim>\<open>message_codec\<close> is read alone from a buffer; a \<^verbatim>\<open>wire_codec\<close> is self-delimiting, so it can
  be followed by other fields.
\<close>

locale message_codec =
  fixes ser :: "'a serialize"
    and de :: "'a deserialize"
    and wire :: "'a \<Rightarrow> bytes"
    and fits :: "'a \<Rightarrow> bool"
    and norm :: "'a \<Rightarrow> 'a"
  assumes ser_law: "ser v out = Ok (out @ wire v)"
    and de_law: "fits v \<Longrightarrow> de (wire v) = Ok (norm v, [])"
    and reads_law: "reads de (\<lambda>v. fits v \<and> norm v = v)"
begin

lemma to_bytes_law: "to_bytes ser v = Ok (wire v)"
  by (simp add: to_bytes_def ser_law)

lemma ser_total: "is_ok (ser v out)"
  by (simp add: ser_law)

lemma round_trip:
  assumes "fits v" and "to_bytes ser v = Ok bs"
  shows "from_bytes de bs = Ok (norm v, [])"
  using assms by (auto simp: to_bytes_law from_bytes_def de_law)

lemma same_bytes:
  assumes "fits v" and "fits w" and "to_bytes ser v = to_bytes ser w"
  shows "norm v = norm w"
  using assms de_law by (metis Pair_inject result.inject(1) to_bytes_law)

lemma relay:
  assumes "short bs" and "de bs = Ok (v, rest)"
  shows "de (wire v) = Ok (v, [])"
  using readsD(1) [OF reads_law assms] de_law by metis

end

locale wire_codec =
  fixes ser :: "'a serialize"
    and de :: "'a deserialize"
    and wire :: "'a \<Rightarrow> bytes"
    and fits :: "'a \<Rightarrow> bool"
    and norm :: "'a \<Rightarrow> 'a"
  assumes ser_wire: "ser v out = Ok (out @ wire v)"
    and de_wire: "fits v \<Longrightarrow> de (wire v @ rest) = Ok (norm v, rest)"
    and reads_wire: "reads de (\<lambda>v. fits v \<and> norm v = v)"
begin

lemma prefix_free:
  assumes "fits v" and "fits w" and "wire v @ r = wire w @ r'"
  shows "norm v = norm w \<and> r = r'"
  using assms de_wire by (metis Pair_inject result.inject(1))

lemma vec_ser: "ser_vec ser vs out = Ok (out @ wire_vec wire vs)"
  by (rule ser_vec_wire) (rule ser_wire)

lemma vec_de:
  "length vs < 2 ^ 32 \<Longrightarrow> list_all fits vs \<Longrightarrow>
     de_vec de (wire_vec wire vs @ rest) = Ok (map norm vs, rest)"
  by (rule de_vec_wire) (auto simp: list_all_iff de_wire)

lemma vec_reads_law:
  "reads (de_vec de) (\<lambda>vs. (length vs < 2 ^ 32 \<and> list_all fits vs) \<and> map norm vs = vs)"
  by (rule reads_mono [OF vec_reads [OF reads_wire]]) (auto simp: list_all_iff intro: map_idI)

lemma vec_codec:
  "wire_codec (ser_vec ser) (de_vec de) (wire_vec wire)
     (\<lambda>vs. length vs < 2 ^ 32 \<and> list_all fits vs) (map norm)"
  by unfold_locales (rule vec_ser, simp add: vec_de, rule vec_reads_law)

end

sublocale wire_codec \<subseteq> message: message_codec
  by unfold_locales (use ser_wire de_wire [of _ "[]"] reads_wire in auto)

section \<open>The codecs of the standard types\<close>

definition string_fits :: "bytes \<Rightarrow> bool" where
  "string_fits s \<longleftrightarrow> length s < 2 ^ 32 \<and> valid_utf8 s"

definition bytes_fit :: "bytes \<Rightarrow> bool" where
  "bytes_fit b \<longleftrightarrow> length b < 2 ^ 32"

interpretation u8_codec: wire_codec ser_u8 de_u8 "\<lambda>v. [v]" "\<lambda>_. True" id
  by unfold_locales (simp_all add: ser_u8_wire de_u8_wire u8_reads)

interpretation u32_codec: wire_codec ser_u32 de_u32 "to_be 4" "\<lambda>_. True" id
  by unfold_locales (simp_all add: ser_u32_wire de_u32_wire u32_reads)

interpretation u64_codec: wire_codec ser_u64 de_u64 "to_be 8" "\<lambda>_. True" id
  by unfold_locales (simp_all add: ser_u64_wire de_u64_wire u64_reads)

lemma try_get_bytes_bound:
  assumes "try_get_bytes bs = Ok (b, rest)"
  shows "length b \<le> length bs"
  using leaves_suffixD [OF try_get_bytes_suffix assms] assms
  by (auto simp: try_get_bytes_def result_inversions Let_def dest!: try_get_u32_length
      split: if_splits)

lemma string_reads: "reads de_string string_fits"
proof (rule readsI)
  fix bs s rest
  assume "short bs" and "de_string bs = Ok (s, rest)"
  then have s: "try_get_string bs = Ok (s, rest)"
    by (auto simp: de_string_def deserialize_string_def deserialize_str_def result_inversions)
  then obtain b where b: "try_get_bytes bs = Ok (b, rest)" "s = from_utf8_lossy b"
    by (auto simp: try_get_string_def result_inversions)
  have "length s \<le> 3 * length bs"
    using from_utf8_lossy_length [of b] try_get_bytes_bound [OF b(1)] b(2) by simp
  then have "string_fits s"
    using \<open>short bs\<close> try_get_string_valid [OF s] by (simp add: string_fits_def short_def)
  then show "string_fits s \<and> (\<exists>used. bs = used @ rest)"
    using leaves_suffixD [OF try_get_string_suffix s] by simp
qed

interpretation string_codec: wire_codec ser_string de_string wire_string string_fits id
  by unfold_locales
    (rule ser_string_wire, simp add: de_string_wire string_fits_def valid_utf8_def,
      simp add: string_reads)

text \<open>A \<^verbatim>\<open>Vec<u8>\<close> is a sequence of single bytes, so its layout is that of a string.\<close>

definition wire_bytes :: "bytes \<Rightarrow> bytes" where
  "wire_bytes b = to_be 4 (of_nat (length b) :: u32) @ b"

lemma wire_vec_bytes: "wire_vec (\<lambda>v. [v]) b = wire_bytes b"
  by (simp add: wire_vec_def wire_bytes_def)

lemma bytes_reads: "reads (de_vec de_u8) bytes_fit"
  by (rule reads_mono [OF vec_reads [OF u8_reads]]) (simp add: bytes_fit_def)

interpretation bytes_codec: wire_codec "ser_vec ser_u8" "de_vec de_u8" wire_bytes bytes_fit id
  using u8_codec.vec_ser u8_codec.vec_de
  by unfold_locales
    (simp add: wire_vec_bytes, simp add: wire_vec_bytes bytes_fit_def list_all_iff,
      simp add: bytes_reads)

interpretation data_codec: message_codec data_serialize data_deserialize id "\<lambda>_. True" id
  by unfold_locales (auto simp: data_serialize_wire data_deserialize_all reads_def)

text \<open>Extension maps: distinct keys, as in a \<^verbatim>\<open>HashMap\<close>; they are read to the end of the packet.\<close>

definition string_map_fits :: "string_map \<Rightarrow> bool" where
  "string_map_fits m \<longleftrightarrow>
     distinct (map fst m) \<and> list_all (\<lambda>(k, v). string_fits k \<and> string_fits v) m"

lemma set_update_entries: "set (AList.update k v m) \<subseteq> insert (k, v) (set m)"
  by (induction m) auto

lemma update_new_key: "k \<notin> fst ` set m \<Longrightarrow> AList.update k v m = m @ [(k, v)]"
  by (induction m) auto

lemma foldl_update_distinct:
  assumes "distinct (map fst m)" and "\<forall>(k, v) \<in> set m. valid_utf8 k \<and> valid_utf8 v"
    and "fst ` set acc \<inter> fst ` set m = {}"
  shows "foldl (\<lambda>a (k, v). AList.update (from_utf8_lossy k) (from_utf8_lossy v) a) acc m = acc @ m"
  using assms
proof (induction m arbitrary: acc)
  case Nil
  show ?case by simp
next
  case (Cons kv m)
  obtain k v where kv: "kv = (k, v)" by fastforce
  have "AList.update k v acc = acc @ [(k, v)]"
    using Cons.prems(3) kv by (intro update_new_key) auto
  moreover have "from_utf8_lossy k = k" "from_utf8_lossy v = v"
    using Cons.prems(2) kv by (auto simp: valid_utf8_def)
  moreover have "foldl (\<lambda>a (k, v). AList.update (from_utf8_lossy k) (from_utf8_lossy v) a)
      (acc @ [(k, v)]) m = (acc @ [(k, v)]) @ m"
    using Cons.prems kv by (intro Cons.IH) auto
  ultimately show ?case by (simp add: kv)
qed

lemma string_map_loop_reads:
  assumes "string_map_fits acc" and "short bs" and "string_map_loop acc bs = Ok (m, rest)"
  shows "string_map_fits m \<and> (\<exists>used. bs = used @ rest)"
  using assms
proof (induction acc bs rule: string_map_loop.induct)
  case (1 acc bs)
  show ?case
  proof (cases "bs = []")
    case True
    with "1.prems" show ?thesis by (simp add: string_map_loop.simps [of acc] next_key_def)
  next
    case False
    then obtain k r1 v r2 where k: "de_string bs = Ok (k, r1)" and v: "de_string r1 = Ok (v, r2)"
        and m: "string_map_loop (AList.update k v acc) r2 = Ok (m, rest)"
      using "1.prems"(3)
      by (auto simp: string_map_loop.simps [of acc] next_key_def next_value_def
          split: result.splits prod.splits option.splits elim!: map_ok.elims)
    note rk = readsD [OF string_reads "1.prems"(2) k]
    note rv = readsD [OF string_reads rk(3) v]
    have "string_map_fits (AList.update k v acc)"
      using "1.prems"(1) rk(1) rv(1) set_update_entries [of k v acc]
      by (auto simp: string_map_fits_def distinct_update list_all_iff)
    then have "string_map_fits m \<and> (\<exists>used. r2 = used @ rest)"
      using False k v m rv(3)
      by (intro "1.IH") (simp_all add: next_key_def next_value_def)
    then show ?thesis using rk(2) rv(2) by (metis append.assoc)
  qed
qed

interpretation string_map_codec:
  message_codec ser_string_map de_string_map wire_entries string_map_fits id
proof
  fix m :: string_map
  assume "string_map_fits m"
  then show "de_string_map (wire_entries m) = Ok (id m, [])"
    using foldl_update_distinct [of m "[]"]
    by (auto simp: de_string_map_def deserialize_map_def string_map_fits_def string_fits_def
        list_all_iff case_prod_unfold string_map_loop_wire)
next
  show "reads de_string_map (\<lambda>m. string_map_fits m \<and> id m = m)"
    using string_map_loop_reads [of "[]"]
    by (auto simp: reads_def de_string_map_def deserialize_map_def string_map_fits_def)
qed (rule ser_string_map_wire)

section \<open>Properties of sequences and maps\<close>

lemma foldl_update_map_of:
  assumes "\<forall>(k, v) \<in> set m. valid_utf8 k \<and> valid_utf8 v"
  shows "map_of (foldl (\<lambda>a (k, v). AList.update (from_utf8_lossy k) (from_utf8_lossy v) a) acc m)
    = map_of acc ++ map_of (rev m)"
  using assms
  by (induction m arbitrary: acc) (auto simp: update_conv' valid_utf8_def)

lemma foldl_update_distinct_keys:
  "distinct (map fst acc) \<Longrightarrow>
     distinct (map fst (foldl (\<lambda>a (k, v). AList.update (from_utf8_lossy k) (from_utf8_lossy v) a) acc m))"
  by (induction m arbitrary: acc) (auto simp: distinct_update)

text \<open>C28: Reading an extension map keeps, for each name, the last value sent for it: a later entry
  replaces an earlier one, and nothing else is lost.\<close>

theorem extension_map_last_wins:
  assumes "\<forall>(k, v) \<in> set m. string_fits k \<and> string_fits v"
  shows "\<exists>m'. de_string_map (wire_entries m) = Ok (m', []) \<and> distinct (map fst m')
    \<and> map_of m' = map_of (rev m)"
  using assms foldl_update_map_of [of m "[]"] foldl_update_distinct_keys [of "[]" m]
  by (auto simp: de_string_map_def deserialize_map_def string_fits_def case_prod_unfold
      string_map_loop_wire)

theorem extension_map_last_wins_witness:
  "\<exists>m'. de_string_map (wire_entries [([97], [49]), ([98], [50]), ([97], [51])]) = Ok (m', [])
    \<and> distinct (map fst m') \<and> map_of m' = map_of (rev [([97], [49]), ([98], [50]), ([97], [51])])"
  by (rule extension_map_last_wins) (simp add: string_fits_def valid_utf8_ascii)

end
