(* ===== verification/Attrs.thy ===== *)
theory Attrs
  imports Codec
begin

text \<open>
  \<^verbatim>\<open>src/protocol/file_attrs.rs\<close>: attribute flags, file modes and types, permissions, and
  \<^verbatim>\<open>FileAttributes\<close> with its hand-written serialization. A \<^verbatim>\<open>bitflags!\<close> type is its word:
  \<open>flag_contains\<close> and \<open>from_bits_truncate\<close> are its tests, with the union of the declared
  flags as the mask.
\<close>

definition flag_contains :: "u32 \<Rightarrow> u32 \<Rightarrow> bool" where
  "flag_contains flags f \<longleftrightarrow> flags AND f = f"

definition from_bits_truncate :: "u32 \<Rightarrow> u32 \<Rightarrow> u32" where
  "from_bits_truncate all_flags bits = bits AND all_flags"

section \<open>Flags\<close>

definition ATTR_SIZE :: u32 where "ATTR_SIZE = 0x00000001"

definition ATTR_UIDGID :: u32 where "ATTR_UIDGID = 0x00000002"

definition ATTR_PERMISSIONS :: u32 where "ATTR_PERMISSIONS = 0x00000004"

definition ATTR_ACMODTIME :: u32 where "ATTR_ACMODTIME = 0x00000008"

definition ATTR_EXTENDED :: u32 where "ATTR_EXTENDED = 0x80000000"

definition ATTR_ALL :: u32 where
  "ATTR_ALL = ATTR_SIZE OR ATTR_UIDGID OR ATTR_PERMISSIONS OR ATTR_ACMODTIME OR ATTR_EXTENDED"

lemmas attr_flag_defs = ATTR_SIZE_def ATTR_UIDGID_def ATTR_PERMISSIONS_def ATTR_ACMODTIME_def
  ATTR_EXTENDED_def ATTR_ALL_def

definition MODE_FIFO :: u32 where "MODE_FIFO = 0x1000"

definition MODE_CHR :: u32 where "MODE_CHR = 0x2000"

definition MODE_DIR :: u32 where "MODE_DIR = 0x4000"

definition MODE_NAM :: u32 where "MODE_NAM = 0x5000"

definition MODE_BLK :: u32 where "MODE_BLK = 0x6000"

definition MODE_REG :: u32 where "MODE_REG = 0x8000"

definition MODE_LNK :: u32 where "MODE_LNK = 0xA000"

definition MODE_SOCK :: u32 where "MODE_SOCK = 0xC000"

definition MODE_ALL :: u32 where
  "MODE_ALL = MODE_FIFO OR MODE_CHR OR MODE_DIR OR MODE_NAM OR MODE_BLK OR MODE_REG OR MODE_LNK
     OR MODE_SOCK"

lemmas mode_flag_defs = MODE_FIFO_def MODE_CHR_def MODE_DIR_def MODE_NAM_def MODE_BLK_def
  MODE_REG_def MODE_LNK_def MODE_SOCK_def MODE_ALL_def

definition PERM_OTHER_READ :: u32 where "PERM_OTHER_READ = 4"

definition PERM_OTHER_WRITE :: u32 where "PERM_OTHER_WRITE = 2"

definition PERM_OTHER_EXEC :: u32 where "PERM_OTHER_EXEC = 1"

definition PERM_GROUP_READ :: u32 where "PERM_GROUP_READ = 32"

definition PERM_GROUP_WRITE :: u32 where "PERM_GROUP_WRITE = 16"

definition PERM_GROUP_EXEC :: u32 where "PERM_GROUP_EXEC = 8"

definition PERM_OWNER_READ :: u32 where "PERM_OWNER_READ = 256"

definition PERM_OWNER_WRITE :: u32 where "PERM_OWNER_WRITE = 128"

definition PERM_OWNER_EXEC :: u32 where "PERM_OWNER_EXEC = 64"

definition PERM_ALL :: u32 where
  "PERM_ALL = PERM_OTHER_READ OR PERM_OTHER_WRITE OR PERM_OTHER_EXEC OR PERM_GROUP_READ
     OR PERM_GROUP_WRITE OR PERM_GROUP_EXEC OR PERM_OWNER_READ OR PERM_OWNER_WRITE
     OR PERM_OWNER_EXEC"

lemmas perm_flag_defs = PERM_OTHER_READ_def PERM_OTHER_WRITE_def PERM_OTHER_EXEC_def
  PERM_GROUP_READ_def PERM_GROUP_WRITE_def PERM_GROUP_EXEC_def PERM_OWNER_READ_def
  PERM_OWNER_WRITE_def PERM_OWNER_EXEC_def PERM_ALL_def

section \<open>File types\<close>

datatype file_type = Dir | File | SymlinkType | Other

fun type_is_dir :: "file_type \<Rightarrow> bool" where
  "type_is_dir Dir = True"
| "type_is_dir _ = False"

fun type_is_file :: "file_type \<Rightarrow> bool" where
  "type_is_file File = True"
| "type_is_file _ = False"

fun type_is_symlink :: "file_type \<Rightarrow> bool" where
  "type_is_symlink SymlinkType = True"
| "type_is_symlink _ = False"

fun type_is_other :: "file_type \<Rightarrow> bool" where
  "type_is_other Other = True"
| "type_is_other _ = False"

definition file_type_of_mode :: "u32 \<Rightarrow> file_type" where
  "file_type_of_mode mode =
     (if mode = MODE_DIR then Dir
      else if mode = MODE_LNK then SymlinkType
      else if mode = MODE_REG then File
      else Other)"

definition file_type_of_u32 :: "u32 \<Rightarrow> file_type" where
  "file_type_of_u32 mode = file_type_of_mode (from_bits_truncate MODE_ALL mode)"

section \<open>Permissions\<close>

record file_permissions =
  other_exec :: bool
  other_read :: bool
  other_write :: bool
  group_exec :: bool
  group_read :: bool
  group_write :: bool
  owner_exec :: bool
  owner_read :: bool
  owner_write :: bool

definition is_readonly :: "file_permissions \<Rightarrow> bool" where
  "is_readonly p \<longleftrightarrow> \<not> other_write p \<and> \<not> group_write p \<and> \<not> owner_write p"

definition set_readonly :: "file_permissions \<Rightarrow> bool \<Rightarrow> file_permissions" where
  "set_readonly p readonly =
     (let p = p\<lparr>other_exec := \<not> readonly, other_write := \<not> readonly,
                group_exec := \<not> readonly, group_write := \<not> readonly,
                owner_exec := \<not> readonly, owner_write := \<not> readonly\<rparr>
      in if readonly then p\<lparr>other_read := True, group_read := True, owner_read := True\<rparr> else p)"

definition display_permissions :: "file_permissions \<Rightarrow> bytes" where
  "display_permissions p =
     lit (if owner_read p then ''r'' else ''-'') @ lit (if owner_write p then ''w'' else ''-'') @
     lit (if owner_exec p then ''x'' else ''-'') @ lit (if group_read p then ''r'' else ''-'') @
     lit (if group_write p then ''w'' else ''-'') @ lit (if group_exec p then ''x'' else ''-'') @
     lit (if other_read p then ''r'' else ''-'') @ lit (if other_write p then ''w'' else ''-'') @
     lit (if other_exec p then ''x'' else ''-'')"

definition permissions_of_flags :: "u32 \<Rightarrow> file_permissions" where
  "permissions_of_flags flags =
     \<lparr>other_exec = flag_contains flags PERM_OTHER_EXEC,
      other_read = flag_contains flags PERM_OTHER_READ,
      other_write = flag_contains flags PERM_OTHER_WRITE,
      group_exec = flag_contains flags PERM_GROUP_EXEC,
      group_read = flag_contains flags PERM_GROUP_READ,
      group_write = flag_contains flags PERM_GROUP_WRITE,
      owner_exec = flag_contains flags PERM_OWNER_EXEC,
      owner_read = flag_contains flags PERM_OWNER_READ,
      owner_write = flag_contains flags PERM_OWNER_WRITE\<rparr>"

definition permissions_of_u32 :: "u32 \<Rightarrow> file_permissions" where
  "permissions_of_u32 mode = permissions_of_flags (from_bits_truncate PERM_ALL mode)"

section \<open>File attributes\<close>

record file_attributes =
  attr_size :: "u64 option"
  attr_uid :: "u32 option"
  attr_user :: "bytes option"
  attr_gid :: "u32 option"
  attr_group :: "bytes option"
  attr_permissions :: "u32 option"
  attr_atime :: "u32 option"
  attr_mtime :: "u32 option"

text \<open>The methods that the macro \<^verbatim>\<open>impl_fn_type!\<close> writes for each mode flag.\<close>

definition is_type :: "u32 \<Rightarrow> file_attributes \<Rightarrow> bool" where
  "is_type flag a =
     (case attr_permissions a of
        None \<Rightarrow> False
      | Some b \<Rightarrow> flag_contains (from_bits_truncate MODE_ALL b) flag)"

definition set_type :: "u32 \<Rightarrow> file_attributes \<Rightarrow> file_attributes" where
  "set_type mode a = a\<lparr>attr_permissions := Some (unwrap_or (attr_permissions a) 0 OR mode)\<rparr>"

definition remove_type :: "u32 \<Rightarrow> file_attributes \<Rightarrow> file_attributes" where
  "remove_type mode a =
     a\<lparr>attr_permissions := Some (unwrap_or (attr_permissions a) 0 AND NOT mode)\<rparr>"

definition set_or_remove_type :: "u32 \<Rightarrow> file_attributes \<Rightarrow> bool \<Rightarrow> file_attributes" where
  "set_or_remove_type flag a b = (case b of True \<Rightarrow> set_type flag a | False \<Rightarrow> remove_type flag a)"

definition is_dir :: "file_attributes \<Rightarrow> bool" where "is_dir = is_type MODE_DIR"

definition set_dir :: "file_attributes \<Rightarrow> bool \<Rightarrow> file_attributes" where
  "set_dir = set_or_remove_type MODE_DIR"

definition is_regular :: "file_attributes \<Rightarrow> bool" where "is_regular = is_type MODE_REG"

definition set_regular :: "file_attributes \<Rightarrow> bool \<Rightarrow> file_attributes" where
  "set_regular = set_or_remove_type MODE_REG"

definition is_symlink :: "file_attributes \<Rightarrow> bool" where "is_symlink = is_type MODE_LNK"

definition set_symlink :: "file_attributes \<Rightarrow> bool \<Rightarrow> file_attributes" where
  "set_symlink = set_or_remove_type MODE_LNK"

definition is_character :: "file_attributes \<Rightarrow> bool" where "is_character = is_type MODE_CHR"

definition set_character :: "file_attributes \<Rightarrow> bool \<Rightarrow> file_attributes" where
  "set_character = set_or_remove_type MODE_CHR"

definition is_block :: "file_attributes \<Rightarrow> bool" where "is_block = is_type MODE_BLK"

definition set_block :: "file_attributes \<Rightarrow> bool \<Rightarrow> file_attributes" where
  "set_block = set_or_remove_type MODE_BLK"

definition is_fifo :: "file_attributes \<Rightarrow> bool" where "is_fifo = is_type MODE_FIFO"

definition set_fifo :: "file_attributes \<Rightarrow> bool \<Rightarrow> file_attributes" where
  "set_fifo = set_or_remove_type MODE_FIFO"

definition attrs_file_type :: "file_attributes \<Rightarrow> file_type" where
  "attrs_file_type a =
     file_type_of_mode (from_bits_truncate MODE_ALL (unwrap_or (attr_permissions a) 0))"

definition attrs_len :: "file_attributes \<Rightarrow> u64" where
  "attrs_len a = unwrap_or (attr_size a) 0"

definition attrs_is_empty :: "file_attributes \<Rightarrow> bool" where
  "attrs_is_empty a \<longleftrightarrow> attrs_len a = 0"

definition attrs_permissions :: "file_attributes \<Rightarrow> file_permissions" where
  "attrs_permissions a =
     permissions_of_flags (from_bits_truncate PERM_ALL (unwrap_or (attr_permissions a) 0))"

text \<open>A time is its whole number of seconds since the Unix epoch.\<close>

definition attrs_accessed :: "file_attributes \<Rightarrow> (int, io_error) result" where
  "attrs_accessed a =
     (case attr_atime a of
        Some time \<Rightarrow> Ok (uint time)
      | None \<Rightarrow> Err \<lparr>io_kind_of = KInvalidData, io_inner = None\<rparr>)"

definition attrs_modified :: "file_attributes \<Rightarrow> (int, io_error) result" where
  "attrs_modified a =
     (case attr_mtime a of
        Some time \<Rightarrow> Ok (uint time)
      | None \<Rightarrow> Err \<lparr>io_kind_of = KInvalidData, io_inner = None\<rparr>)"

definition attrs_empty :: file_attributes where
  "attrs_empty = \<lparr>attr_size = None, attr_uid = None, attr_user = None, attr_gid = None,
     attr_group = None, attr_permissions = None, attr_atime = None, attr_mtime = None\<rparr>"

definition attrs_default :: file_attributes where
  "attrs_default = \<lparr>attr_size = Some 0, attr_uid = Some 0, attr_user = None, attr_gid = Some 0,
     attr_group = None, attr_permissions = Some (511 OR MODE_DIR), attr_atime = Some 0,
     attr_mtime = Some 0\<rparr>"

text \<open>
  \<^verbatim>\<open>std::fs::Metadata\<close> on Unix, with the accessors the conversion calls; its \<^verbatim>\<open>is_dir\<close> compares
  the type bits of the mode with the directory's. \<^verbatim>\<open>utils::unix\<close> truncates to 32 bits.
\<close>

record metadata =
  md_len :: u64
  md_uid :: u32
  md_gid :: u32
  md_mode :: u32
  md_accessed :: "int option"
  md_modified :: "int option"

definition md_is_dir :: "metadata \<Rightarrow> bool" where
  "md_is_dir m \<longleftrightarrow> md_mode m AND 0xF000 = 0x4000"

definition unix :: "int \<Rightarrow> u32" where
  "unix time = word_of_int time"

definition attrs_of_metadata :: "metadata \<Rightarrow> file_attributes" where
  "attrs_of_metadata m =
     (let attrs = attrs_default\<lparr>attr_size := Some (md_len m), attr_uid := Some (md_uid m),
            attr_gid := Some (md_gid m), attr_permissions := Some (md_mode m),
            attr_atime := Some (unix (unwrap_or (md_accessed m) 0)),
            attr_mtime := Some (unix (unwrap_or (md_modified m) 0))\<rparr>;
          attrs = set_dir attrs (md_is_dir m);
          attrs = set_regular attrs (\<not> md_is_dir m)
      in attrs)"

section \<open>Serialization\<close>

definition attrs_header :: "file_attributes \<Rightarrow> u32 \<times> nat" where
  "attrs_header a =
     (let (attrs, field_count) = (0, 1);
          (attrs, field_count) =
            (if attr_size a \<noteq> None then (attrs OR ATTR_SIZE, field_count + 1)
             else (attrs, field_count));
          (attrs, field_count) =
            (if attr_uid a \<noteq> None \<or> attr_gid a \<noteq> None
             then (attrs OR ATTR_UIDGID, field_count + 2) else (attrs, field_count));
          (attrs, field_count) =
            (if attr_permissions a \<noteq> None then (attrs OR ATTR_PERMISSIONS, field_count + 1)
             else (attrs, field_count))
      in if attr_atime a \<noteq> None \<or> attr_mtime a \<noteq> None
         then (attrs OR ATTR_ACMODTIME, field_count + 2) else (attrs, field_count))"

definition ser_file_attr :: "u32 serialize" where
  "ser_file_attr v out = serialize_newtype_struct ser_u32 out v"

definition ser_file_attributes :: "file_attributes serialize" where
  "ser_file_attributes a out =
     (let (attrs, field_count) = attrs_header a in
      result_bind (serialize_struct out field_count) (\<lambda>s.
      result_bind (serialize_field ser_file_attr s attrs) (\<lambda>s.
      result_bind
        (case attr_size a of Some sz \<Rightarrow> serialize_field ser_u64 s sz | None \<Rightarrow> Ok s) (\<lambda>s.
      result_bind
        (if attr_uid a \<noteq> None \<or> attr_gid a \<noteq> None then
           result_bind (serialize_field ser_u32 s (unwrap_or (attr_uid a) 0)) (\<lambda>s.
           serialize_field ser_u32 s (unwrap_or (attr_gid a) 0))
         else Ok s) (\<lambda>s.
      result_bind
        (case attr_permissions a of
           Some permissions \<Rightarrow> serialize_field ser_u32 s permissions | None \<Rightarrow> Ok s) (\<lambda>s.
      result_bind
        (if attr_atime a \<noteq> None \<or> attr_mtime a \<noteq> None then
           result_bind (serialize_field ser_u32 s (unwrap_or (attr_atime a) 0)) (\<lambda>s.
           serialize_field ser_u32 s (unwrap_or (attr_mtime a) 0))
         else Ok s) (\<lambda>s.
      ser_end s)))))))"

section \<open>Deserialization\<close>

definition element_if :: "bool \<Rightarrow> 'a deserialize \<Rightarrow> 'a option visit_seq" where
  "element_if present seed s = (if present then next_element seed s else Ok (None, s))"

definition visit_file_attributes :: "file_attributes visit_seq" where
  "visit_file_attributes s =
     result_bind (next_element de_u32 s) (\<lambda>(flags, s).
     let attrs = from_bits_truncate ATTR_ALL (unwrap_or flags 0) in
     result_bind (element_if (flag_contains attrs ATTR_SIZE) de_u64 s) (\<lambda>(sz, s).
     result_bind (element_if (flag_contains attrs ATTR_UIDGID) de_u32 s) (\<lambda>(uid, s).
     result_bind (element_if (flag_contains attrs ATTR_UIDGID) de_u32 s) (\<lambda>(gid, s).
     result_bind (element_if (flag_contains attrs ATTR_PERMISSIONS) de_u32 s) (\<lambda>(permissions, s).
     result_bind (element_if (flag_contains attrs ATTR_ACMODTIME) de_u32 s) (\<lambda>(atime, s).
     result_bind (element_if (flag_contains attrs ATTR_ACMODTIME) de_u32 s) (\<lambda>(mtime, s).
     Ok (\<lparr>attr_size = sz, attr_uid = uid, attr_user = None, attr_gid = gid, attr_group = None,
          attr_permissions = permissions, attr_atime = atime, attr_mtime = mtime\<rparr>, s))))))))"

definition de_file_attributes :: "file_attributes deserialize" where
  "de_file_attributes = deserialize_any visit_file_attributes"

section \<open>The layout of attributes\<close>

definition has_ids :: "file_attributes \<Rightarrow> bool" where
  "has_ids a \<longleftrightarrow> attr_uid a \<noteq> None \<or> attr_gid a \<noteq> None"

definition has_times :: "file_attributes \<Rightarrow> bool" where
  "has_times a \<longleftrightarrow> attr_atime a \<noteq> None \<or> attr_mtime a \<noteq> None"

definition attr_flags :: "file_attributes \<Rightarrow> u32" where
  "attr_flags a =
     (if attr_size a = None then 0 else 1) + (if has_ids a then 2 else 0)
     + (if attr_permissions a = None then 0 else 4) + (if has_times a then 8 else 0)"

definition wire_attrs :: "file_attributes \<Rightarrow> bytes" where
  "wire_attrs a =
     to_be 4 (attr_flags a)
     @ (case attr_size a of Some v \<Rightarrow> to_be 8 v | None \<Rightarrow> [])
     @ (if has_ids a then to_be 4 (unwrap_or (attr_uid a) 0) @ to_be 4 (unwrap_or (attr_gid a) 0)
        else [])
     @ (case attr_permissions a of Some v \<Rightarrow> to_be 4 v | None \<Rightarrow> [])
     @ (if has_times a
        then to_be 4 (unwrap_or (attr_atime a) 0) @ to_be 4 (unwrap_or (attr_mtime a) 0) else [])"

text \<open>What a reader of the attributes gets: no names, and both members of a pair or neither.\<close>

definition norm_attrs :: "file_attributes \<Rightarrow> file_attributes" where
  "norm_attrs a = a\<lparr>attr_user := None, attr_group := None,
     attr_uid := (if has_ids a then Some (unwrap_or (attr_uid a) 0) else None),
     attr_gid := (if has_ids a then Some (unwrap_or (attr_gid a) 0) else None),
     attr_atime := (if has_times a then Some (unwrap_or (attr_atime a) 0) else None),
     attr_mtime := (if has_times a then Some (unwrap_or (attr_mtime a) 0) else None)\<rparr>"

lemma attrs_header_flags: "fst (attrs_header a) = attr_flags a"
  by (simp add: attrs_header_def attr_flags_def has_ids_def has_times_def attr_flag_defs)

lemma ser_file_attributes_wire [wire_simps]:
  "ser_file_attributes a out = Ok (out @ wire_attrs a)"
  using attrs_header_flags [of a]
  by (cases "attrs_header a")
    (auto simp: ser_file_attributes_def wire_attrs_def ser_struct_defs ser_file_attr_def
      serialize_newtype_struct_def wire_simps has_ids_def has_times_def split: option.splits)

lemma attr_flags_contains:
  "flag_contains (from_bits_truncate ATTR_ALL (attr_flags a)) ATTR_SIZE \<longleftrightarrow> attr_size a \<noteq> None"
  "flag_contains (from_bits_truncate ATTR_ALL (attr_flags a)) ATTR_UIDGID \<longleftrightarrow> has_ids a"
  "flag_contains (from_bits_truncate ATTR_ALL (attr_flags a)) ATTR_PERMISSIONS
     \<longleftrightarrow> attr_permissions a \<noteq> None"
  "flag_contains (from_bits_truncate ATTR_ALL (attr_flags a)) ATTR_ACMODTIME \<longleftrightarrow> has_times a"
  by (simp_all add: flag_contains_def from_bits_truncate_def attr_flags_def attr_flag_defs)

lemma element_if_step [parse_simps]:
  "0 < n \<Longrightarrow> element_if True seed \<lparr>sd_input = bs, sd_len = Some n\<rparr> =
     map_ok (\<lambda>(x, rest). (Some x, \<lparr>sd_input = rest, sd_len = Some (n - 1)\<rparr>)) (seed bs)"
  "element_if False seed s = Ok (None, s)"
  by (simp_all add: element_if_def next_element_step)

lemma visit_file_attributes_wire:
  assumes "length (wire_attrs a) \<le> n"
  shows "\<exists>m. visit_file_attributes \<lparr>sd_input = wire_attrs a @ rest, sd_len = Some n\<rparr>
    = Ok (norm_attrs a, \<lparr>sd_input = rest, sd_len = Some m\<rparr>)"
  using assms
  by (cases "attr_size a"; cases "has_ids a"; cases "attr_permissions a"; cases "has_times a")
    (simp_all add: visit_file_attributes_def wire_attrs_def parse_simps attr_flags_contains
      norm_attrs_def)

lemma de_file_attributes_wire [parse_simps]:
  "de_file_attributes (wire_attrs a @ rest) = Ok (norm_attrs a, rest)"
  using visit_file_attributes_wire [of a "length (wire_attrs a @ rest)" rest]
  by (auto simp: de_file_attributes_def deserialize_any_def over_input_def)

lemma norm_attrs_idem [simp]: "norm_attrs (norm_attrs a) = norm_attrs a"
  by (simp add: norm_attrs_def has_ids_def has_times_def)

text \<open>Attributes that travel unchanged: what every reader of the wire format holds.\<close>

definition complete_attrs :: "file_attributes \<Rightarrow> bool" where
  "complete_attrs a \<longleftrightarrow> attr_user a = None \<and> attr_group a = None
     \<and> (attr_uid a = None \<longleftrightarrow> attr_gid a = None) \<and> (attr_atime a = None \<longleftrightarrow> attr_mtime a = None)"

lemma norm_attrs_complete: "complete_attrs a \<Longrightarrow> norm_attrs a = a"
  by (cases "attr_uid a"; cases "attr_gid a"; cases "attr_atime a"; cases "attr_mtime a")
    (auto simp: norm_attrs_def complete_attrs_def has_ids_def has_times_def)

lemma complete_norm_attrs: "complete_attrs (norm_attrs a)"
  by (simp add: norm_attrs_def complete_attrs_def)

text \<open>
  A reader never gets one member of a pair: the number of elements the visitor was promised is at
  least the number of bytes left, so it runs out only where the bytes do.
\<close>

definition consumes4 :: "'a deserialize \<Rightarrow> bool" where
  "consumes4 de \<longleftrightarrow> (\<forall>bs v rest. de bs = Ok (v, rest) \<longrightarrow>
     length rest + 4 \<le> length bs \<and> (\<exists>used. bs = used @ rest))"

lemma consumes4_u32: "consumes4 de_u32"
  and consumes4_u64: "consumes4 de_u64"
  by (auto simp: consumes4_def de_u32_def de_u64_def deserialize_u32_def deserialize_u64_def
      try_get_u32_def try_get_u64_def try_get_be_def result_inversions split: if_splits)

lemma element_if_fewer:
  assumes "element_if present de \<lparr>sd_input = bs, sd_len = Some n\<rparr> = Ok (x, s)"
    and "length bs \<le> n" and "consumes4 de"
  obtains rest m used where "s = \<lparr>sd_input = rest, sd_len = Some m\<rparr>" "length rest \<le> m"
    "bs = used @ rest" "x = None \<longleftrightarrow> \<not> present \<or> n = 0" "m = 0 \<longleftrightarrow> n = 0"
proof (cases "present \<and> 0 < n")
  case True
  with assms(1) obtain v rest where v: "de bs = Ok (v, rest)" "x = Some v"
      "s = \<lparr>sd_input = rest, sd_len = Some (n - 1)\<rparr>"
    by (auto simp: element_if_def next_element_step result_inversions)
  then obtain used where "length rest + 4 \<le> length bs" "bs = used @ rest"
    using assms(3) unfolding consumes4_def by blast
  with v True assms(2) show ?thesis by (intro that [of rest "n - 1" used]) auto
next
  case False
  with assms(1,2) show ?thesis
    by (intro that [of bs n "[]"]) (auto simp: element_if_def next_element_end split: if_splits)
qed

lemma visit_file_attributes_reads:
  assumes "visit_file_attributes \<lparr>sd_input = bs, sd_len = Some n\<rparr> = Ok (a, s)" and "length bs \<le> n"
  shows "norm_attrs a = a \<and> (\<exists>used. bs = used @ sd_input s)"
proof -
  define fl where "fl f = from_bits_truncate ATTR_ALL (unwrap_or f 0)" for f
  from assms(1) obtain f s1 sz s2 uid s3 gid s4 perm s5 atime s6 mtime s7 where
    e: "element_if True de_u32 \<lparr>sd_input = bs, sd_len = Some n\<rparr> = Ok (f, s1)"
      "element_if (flag_contains (fl f) ATTR_SIZE) de_u64 s1 = Ok (sz, s2)"
      "element_if (flag_contains (fl f) ATTR_UIDGID) de_u32 s2 = Ok (uid, s3)"
      "element_if (flag_contains (fl f) ATTR_UIDGID) de_u32 s3 = Ok (gid, s4)"
      "element_if (flag_contains (fl f) ATTR_PERMISSIONS) de_u32 s4 = Ok (perm, s5)"
      "element_if (flag_contains (fl f) ATTR_ACMODTIME) de_u32 s5 = Ok (atime, s6)"
      "element_if (flag_contains (fl f) ATTR_ACMODTIME) de_u32 s6 = Ok (mtime, s7)"
    and a: "a = \<lparr>attr_size = sz, attr_uid = uid, attr_user = None, attr_gid = gid,
      attr_group = None, attr_permissions = perm, attr_atime = atime, attr_mtime = mtime\<rparr>"
    and s: "s = s7"
    by (auto simp: visit_file_attributes_def result_inversions element_if_def [of True] fl_def Let_def)
  obtain r1 m1 u1 where 1: "s1 = \<lparr>sd_input = r1, sd_len = Some m1\<rparr>" "length r1 \<le> m1" "bs = u1 @ r1"
    using e(1) assms(2) consumes4_u32 by (rule element_if_fewer)
  obtain r2 m2 u2 where 2: "s2 = \<lparr>sd_input = r2, sd_len = Some m2\<rparr>" "length r2 \<le> m2" "r1 = u2 @ r2"
    using e(2) [unfolded 1(1)] 1(2) consumes4_u64 by (rule element_if_fewer)
  obtain r3 m3 u3 where 3: "s3 = \<lparr>sd_input = r3, sd_len = Some m3\<rparr>" "length r3 \<le> m3" "r2 = u3 @ r3"
    and uid: "uid = None \<longleftrightarrow> \<not> flag_contains (fl f) ATTR_UIDGID \<or> m2 = 0" "m3 = 0 \<longleftrightarrow> m2 = 0"
    using e(3) [unfolded 2(1)] 2(2) consumes4_u32 by (rule element_if_fewer)
  obtain r4 m4 u4 where 4: "s4 = \<lparr>sd_input = r4, sd_len = Some m4\<rparr>" "length r4 \<le> m4" "r3 = u4 @ r4"
    and gid: "gid = None \<longleftrightarrow> \<not> flag_contains (fl f) ATTR_UIDGID \<or> m3 = 0"
    using e(4) [unfolded 3(1)] 3(2) consumes4_u32 by (rule element_if_fewer)
  obtain r5 m5 u5 where 5: "s5 = \<lparr>sd_input = r5, sd_len = Some m5\<rparr>" "length r5 \<le> m5" "r4 = u5 @ r5"
    using e(5) [unfolded 4(1)] 4(2) consumes4_u32 by (rule element_if_fewer)
  obtain r6 m6 u6 where 6: "s6 = \<lparr>sd_input = r6, sd_len = Some m6\<rparr>" "length r6 \<le> m6" "r5 = u6 @ r6"
    and atime: "atime = None \<longleftrightarrow> \<not> flag_contains (fl f) ATTR_ACMODTIME \<or> m5 = 0" "m6 = 0 \<longleftrightarrow> m5 = 0"
    using e(6) [unfolded 5(1)] 5(2) consumes4_u32 by (rule element_if_fewer)
  obtain r7 m7 u7 where 7: "s7 = \<lparr>sd_input = r7, sd_len = Some m7\<rparr>" "r6 = u7 @ r7"
    and mtime: "mtime = None \<longleftrightarrow> \<not> flag_contains (fl f) ATTR_ACMODTIME \<or> m6 = 0"
    using e(7) [unfolded 6(1)] 6(2) consumes4_u32 by (rule element_if_fewer)
  have "complete_attrs a"
    unfolding a complete_attrs_def using uid gid atime mtime by auto
  moreover have "bs = (u1 @ u2 @ u3 @ u4 @ u5 @ u6 @ u7) @ sd_input s"
    unfolding s 7 1 2 3 4 5 6 by simp
  ultimately show ?thesis using norm_attrs_complete by blast
qed

lemma attrs_reads: "reads de_file_attributes (\<lambda>a. norm_attrs a = a)"
  by (auto simp: reads_def de_file_attributes_def deserialize_any_def over_input_def
      result_inversions dest!: visit_file_attributes_reads)

interpretation attrs_codec:
  wire_codec ser_file_attributes de_file_attributes wire_attrs "\<lambda>_. True" norm_attrs
  by unfold_locales (simp_all add: ser_file_attributes_wire de_file_attributes_wire attrs_reads)

section \<open>Facts on modes and permissions\<close>

lemma mode_all: "MODE_ALL = 0xF000"
  by (simp add: mode_flag_defs)

lemma perm_all: "PERM_ALL = 511"
  by (simp add: perm_flag_defs)

lemma is_type_mode:
  "attr_permissions a = Some m \<Longrightarrow> m AND 0xF000 = t \<Longrightarrow> is_type flag a \<longleftrightarrow> t AND flag = flag"
  by (auto simp: is_type_def flag_contains_def from_bits_truncate_def mode_all)

lemma file_type_mode:
  "attr_permissions a = Some m \<Longrightarrow> m AND 0xF000 = t \<Longrightarrow> attrs_file_type a = file_type_of_mode t"
  by (auto simp: attrs_file_type_def from_bits_truncate_def mode_all)

lemma and_single_bit: "(w :: u32) AND 2 ^ n = (if bit w n then 2 ^ n else 0)"
  by (rule bit_word_eqI) (auto simp: bit_simps)

lemma flag_contains_bit:
  assumes "n < 9"
  shows "flag_contains (from_bits_truncate PERM_ALL m) (2 ^ n) \<longleftrightarrow> bit m n"
proof -
  have "bit ((2 :: u32) ^ n) n" using assms by (simp add: bit_exp_iff)
  then have "(2 :: u32) ^ n \<noteq> 0" by (metis bit_0_eq bot_apply bot_bool_def)
  moreover have "bit (511 :: u32) n"
    using assms bit_mask_iff [of 9 n, where 'a = "32 word"] by (simp add: mask_eq_exp_minus_1)
  ultimately show ?thesis
    by (simp add: flag_contains_def from_bits_truncate_def perm_all and_single_bit bit_and_iff)
qed

lemma and_or_eq: "(m :: u32) AND (x OR y) = x OR y \<longleftrightarrow> m AND x = x \<and> m AND y = y"
  by (auto simp: bit_eq_iff bit_simps)

lemma and_power_eq:
  assumes "n < 32"
  shows "(m :: u32) AND 2 ^ n = 2 ^ n \<longleftrightarrow> bit m n"
proof -
  have "(2 :: u32) ^ n \<noteq> 0" using assms by (simp add: exp_eq_zero_iff)
  then show ?thesis by (simp add: and_single_bit)
qed

lemma is_type_flag:
  assumes "flag AND 0xF000 = flag"
  shows "is_type flag (a\<lparr>attr_permissions := Some m\<rparr>) \<longleftrightarrow> m AND flag = flag"
proof -
  have "(m AND 0xF000) AND flag = m AND (flag AND 0xF000)" by (simp add: ac_simps)
  then show ?thesis
    by (simp add: assms is_type_def flag_contains_def from_bits_truncate_def mode_all)
qed

lemma is_type_bits:
  "is_type MODE_DIR (a\<lparr>attr_permissions := Some m\<rparr>) \<longleftrightarrow> bit m 14"
  "is_type MODE_REG (a\<lparr>attr_permissions := Some m\<rparr>) \<longleftrightarrow> bit m 15"
  "is_type MODE_CHR (a\<lparr>attr_permissions := Some m\<rparr>) \<longleftrightarrow> bit m 13"
  "is_type MODE_FIFO (a\<lparr>attr_permissions := Some m\<rparr>) \<longleftrightarrow> bit m 12"
  "is_type MODE_LNK (a\<lparr>attr_permissions := Some m\<rparr>) \<longleftrightarrow> bit m 15 \<and> bit m 13"
  "is_type MODE_BLK (a\<lparr>attr_permissions := Some m\<rparr>) \<longleftrightarrow> bit m 14 \<and> bit m 13"
  using and_power_eq [of 12 m] and_power_eq [of 13 m] and_power_eq [of 14 m] and_power_eq [of 15 m]
    and_or_eq [of m "2 ^ 15" "2 ^ 13"] and_or_eq [of m "2 ^ 14" "2 ^ 13"]
  by (simp_all add: is_type_flag mode_flag_defs)

text \<open>The mode after a conversion: the type bits are forced to directory or regular file.\<close>

definition metadata_mode :: "u32 \<Rightarrow> u32" where
  "metadata_mode m =
     (if m AND 0xF000 = 0x4000 then (m OR 0x4000) AND NOT 0x8000 else m AND NOT 0x4000 OR 0x8000)"

lemma attrs_of_metadata_simps:
  "attr_size (attrs_of_metadata md) = Some (md_len md)"
  "attr_uid (attrs_of_metadata md) = Some (md_uid md)"
  "attr_gid (attrs_of_metadata md) = Some (md_gid md)"
  "attr_permissions (attrs_of_metadata md) = Some (metadata_mode (md_mode md))"
  by (cases "md_mode md AND 0xF000 = 0x4000";
      simp add: attrs_of_metadata_def attrs_default_def set_dir_def set_regular_def
      set_or_remove_type_def set_type_def remove_type_def md_is_dir_def metadata_mode_def
      mode_flag_defs Let_def)+

lemma metadata_mode_permissions:
  "attrs_permissions (attrs_of_metadata md) = permissions_of_u32 (md_mode md)"
proof -
  have "metadata_mode (md_mode md) AND 511 = md_mode md AND 511"
    by (simp add: metadata_mode_def and.assoc bit.conj_disj_distrib2)
  then show ?thesis
    by (simp add: attrs_permissions_def permissions_of_u32_def from_bits_truncate_def perm_all
        attrs_of_metadata_simps)
qed

lemma metadata_mode_type_bits:
  "metadata_mode m AND 0xF000 =
     (if m AND 0xF000 = 0x4000 then 0x4000 else (m AND 0x3000) OR 0x8000)"
proof -
  have "m AND 0x7000 = 0x4000" if "m AND 0xF000 = 0x4000"
  proof -
    have "m AND 0x7000 = (m AND 0xF000) AND 0x7000" by (simp add: and.assoc)
    then show ?thesis by (simp add: that)
  qed
  moreover have "(m AND 0xB000) OR 0x8000 = (m AND 0x3000) OR 0x8000"
  proof -
    have "m AND 0xB000 = (m AND 0x3000) OR (m AND 0x8000)"
      using bit.conj_disj_distrib [of m "0x3000" "0x8000"] by simp
    moreover have "(m AND 0x8000) OR 0x8000 = 0x8000"
      by (rule bit_word_eqI) (auto simp: bit_or_iff bit_and_iff)
    ultimately show ?thesis by (simp add: or.assoc)
  qed
  ultimately show ?thesis
    by (auto simp add: metadata_mode_def and.assoc bit.conj_disj_distrib2)
qed

lemma and_0x3000_cases:
  obtains "(m :: u32) AND 0x3000 = 0" | "m AND 0x3000 = 0x1000" | "m AND 0x3000 = 0x2000"
    | "m AND 0x3000 = 0x3000"
proof -
  have "m AND 0x3000 = (if bit m 13 then 0x2000 else 0) OR (if bit m 12 then 0x1000 else 0)"
    using bit.conj_disj_distrib [of m "2 ^ 13" "2 ^ 12"] and_single_bit [of m 13] and_single_bit [of m 12]
    by simp
  then show thesis using that by (auto split: if_splits)
qed

lemma metadata_mode_type:
  "attrs_file_type (attrs_of_metadata md) =
       (if md_mode md AND 0xF000 = 0x4000 then Dir
        else if md_mode md AND 0x3000 = 0 then File
        else if md_mode md AND 0x3000 = 0x2000 then SymlinkType
        else Other)"
  by (rule and_0x3000_cases [of "md_mode md"])
    (simp_all add: file_type_mode [OF attrs_of_metadata_simps(4) metadata_mode_type_bits]
      file_type_of_mode_def mode_flag_defs)

section \<open>Properties of file attributes\<close>

text \<open>C12: Attributes survive serialization: what the serializer writes for any attributes, followed by
  any other field, is read back as the same size, owner, permissions and times, where a user or
  group name is dropped and a half-given pair of ids or of times is completed with 0.\<close>

theorem attributes_round_trip:
  "result_bind (ser_file_attributes a []) (\<lambda>bs. de_file_attributes (bs @ rest))
     = Ok (norm_attrs a, rest)"
  by (simp add: attrs_codec.ser_wire attrs_codec.de_wire)

text \<open> The permission string is the usual nine characters: position by position the bits 8 down to 0
  of the mode, with \<open>rwx\<close> for owner, group and others and a dash for a clear bit.\<close>

theorem permission_string_bits:
  "display_permissions (permissions_of_u32 m) =
     concat (map (\<lambda>(c, n). lit (if bit m n then [c] else ''-''))
       (zip ''rwxrwxrwx'' [8, 7, 6, 5, 4, 3, 2, 1, 0]))"
  using flag_contains_bit [of 0 m] flag_contains_bit [of 1 m] flag_contains_bit [of 2 m]
    flag_contains_bit [of 3 m] flag_contains_bit [of 4 m] flag_contains_bit [of 5 m]
    flag_contains_bit [of 6 m] flag_contains_bit [of 7 m] flag_contains_bit [of 8 m]
  by (simp add: display_permissions_def permissions_of_u32_def permissions_of_flags_def
      perm_flag_defs lit_def)

text \<open> Marking permissions read-only and asking whether they are is consistent, and a read-only
  marking makes the entry readable by everybody.\<close>

theorem set_readonly_reported:
  "is_readonly (set_readonly p b) = b
   \<and> display_permissions (set_readonly p True) = lit ''r--r--r--''"
  by (simp add: is_readonly_def set_readonly_def display_permissions_def lit_def Let_def)

text \<open> The file type of attributes is decided by the four type bits of the mode alone: directory,
  regular file and symbolic link each for exactly its own code.\<close>

theorem file_type_by_type_bits:
  "attrs_file_type (a\<lparr>attr_permissions := Some m\<rparr>) =
     (if m AND 0xF000 = 0x4000 then Dir
      else if m AND 0xF000 = 0xA000 then SymlinkType
      else if m AND 0xF000 = 0x8000 then File
      else Other)"
  by (simp add: file_type_mode file_type_of_mode_def mode_flag_defs)

text \<open> The type predicates only test that a flag's bits are set: \<open>is_dir\<close> is bit 14 of the mode
  and \<open>is_regular\<close> bit 15, so they also answer yes for types that share the bit.\<close>

theorem type_predicates_test_bits:
  "is_dir (a\<lparr>attr_permissions := Some m\<rparr>) = bit m 14
   \<and> is_regular (a\<lparr>attr_permissions := Some m\<rparr>) = bit m 15
   \<and> is_symlink (a\<lparr>attr_permissions := Some m\<rparr>) = (bit m 15 \<and> bit m 13)
   \<and> is_block (a\<lparr>attr_permissions := Some m\<rparr>) = (bit m 14 \<and> bit m 13)
   \<and> is_character (a\<lparr>attr_permissions := Some m\<rparr>) = bit m 13
   \<and> is_fifo (a\<lparr>attr_permissions := Some m\<rparr>) = bit m 12"
  by (simp add: is_dir_def is_regular_def is_symlink_def is_block_def is_character_def is_fifo_def
      is_type_bits)

text \<open>C40: A block device and a socket are both reported as directories, and a socket and a symbolic
  link as regular files, although the file type of none of them is that.\<close>

theorem devices_reported_as_directories:
  assumes "m AND 0xF000 = MODE_BLK \<or> m AND 0xF000 = MODE_SOCK"
  shows "is_dir (a\<lparr>attr_permissions := Some m\<rparr>)
   \<and> attrs_file_type (a\<lparr>attr_permissions := Some m\<rparr>) = Other"
  using assms
  by (auto simp: is_dir_def is_type_mode file_type_mode file_type_of_mode_def mode_flag_defs)

theorem devices_reported_as_directories_witness:
  "is_dir (attrs_empty\<lparr>attr_permissions := Some 0x61A4\<rparr>)
   \<and> attrs_file_type (attrs_empty\<lparr>attr_permissions := Some 0x61A4\<rparr>) = Other"
  by (rule devices_reported_as_directories) (simp add: mode_flag_defs)

text \<open>C39: Converting the metadata of a local file keeps its size, owner and permission bits, and it
  keeps the type of directories, regular files and symbolic links; but any type with the bits 12
  and 13 as in a symbolic link (block and character devices) becomes one, and a socket becomes a
  regular file.\<close>

theorem metadata_conversion:
  "attr_size (attrs_of_metadata md) = Some (md_len md)
   \<and> attr_uid (attrs_of_metadata md) = Some (md_uid md)
   \<and> attr_gid (attrs_of_metadata md) = Some (md_gid md)
   \<and> attrs_permissions (attrs_of_metadata md) = permissions_of_u32 (md_mode md)
   \<and> attrs_file_type (attrs_of_metadata md) =
       (if md_mode md AND 0xF000 = 0x4000 then Dir
        else if md_mode md AND 0x3000 = 0 then File
        else if md_mode md AND 0x3000 = 0x2000 then SymlinkType
        else Other)"
  by (simp add: attrs_of_metadata_simps metadata_mode_permissions metadata_mode_type)

end
