(* ===== verification/Messages.thy ===== *)
theory Messages
  imports Attrs
begin

text \<open>
  The packet structs of \<^verbatim>\<open>src/protocol/\<close> and the extension payloads of
  \<^verbatim>\<open>src/extensions.rs\<close>, each a record with the code's fields. For each struct there are the two
  functions that \<^verbatim>\<open>#[derive(Serialize, Deserialize)]\<close> gives it (the fields in the order of
  declaration, with the \<^verbatim>\<open>serialize_with\<close> functions it names), its layout, the values that fit
  the length prefixes, and an interpretation of the codec interface on them.
\<close>

section \<open>Status codes and open flags\<close>

datatype status_code = SC_Ok | SC_Eof | SC_NoSuchFile | SC_PermissionDenied | SC_Failure
  | SC_BadMessage | SC_NoConnection | SC_ConnectionLost | SC_OpUnsupported

instantiation status_code :: enum
begin

definition enum_status_code :: "status_code list" where
  "enum_status_code = [SC_Ok, SC_Eof, SC_NoSuchFile, SC_PermissionDenied, SC_Failure,
     SC_BadMessage, SC_NoConnection, SC_ConnectionLost, SC_OpUnsupported]"

definition enum_all_status_code :: "(status_code \<Rightarrow> bool) \<Rightarrow> bool" where
  "enum_all_status_code P = list_all P enum_class.enum"

definition enum_ex_status_code :: "(status_code \<Rightarrow> bool) \<Rightarrow> bool" where
  "enum_ex_status_code P = list_ex P enum_class.enum"

instance
proof
  have all: "(c :: status_code) \<in> set enum_class.enum" for c
    by (cases c) (simp_all add: enum_status_code_def)
  show "(UNIV :: status_code set) = set enum_class.enum" using all by auto
  show "distinct (enum_class.enum :: status_code list)" by (simp add: enum_status_code_def)
  show "enum_class.enum_all P \<longleftrightarrow> Ball UNIV (P :: status_code \<Rightarrow> bool)" for P
    using all by (auto simp: enum_all_status_code_def list_all_iff)
  show "enum_class.enum_ex P \<longleftrightarrow> Bex UNIV (P :: status_code \<Rightarrow> bool)" for P
    using all by (auto simp: enum_ex_status_code_def list_ex_iff)
qed

end

fun status_code_index :: "status_code \<Rightarrow> u32" where
  "status_code_index SC_Ok = 0"
| "status_code_index SC_Eof = 1"
| "status_code_index SC_NoSuchFile = 2"
| "status_code_index SC_PermissionDenied = 3"
| "status_code_index SC_Failure = 4"
| "status_code_index SC_BadMessage = 5"
| "status_code_index SC_NoConnection = 6"
| "status_code_index SC_ConnectionLost = 7"
| "status_code_index SC_OpUnsupported = 8"

fun display_status_code :: "status_code \<Rightarrow> bytes" where
  "display_status_code SC_Ok = lit ''Ok''"
| "display_status_code SC_Eof = lit ''Eof''"
| "display_status_code SC_NoSuchFile = lit ''No such file''"
| "display_status_code SC_PermissionDenied = lit ''Permission denied''"
| "display_status_code SC_Failure = lit ''Failure''"
| "display_status_code SC_BadMessage = lit ''Bad message''"
| "display_status_code SC_NoConnection = lit ''No connection''"
| "display_status_code SC_ConnectionLost = lit ''Connection lost''"
| "display_status_code SC_OpUnsupported = lit ''Operation unsupported''"

definition ser_status_code :: "status_code serialize" where
  "ser_status_code c out = serialize_unit_variant out (status_code_index c)"

text \<open>The derived visitor of an enum knows the indices of its variants and refuses others.\<close>

definition status_code_of_index :: "u32 \<Rightarrow> (status_code, error) result" where
  "status_code_of_index i =
     (case List.find (\<lambda>c. status_code_index c = i) enum_class.enum of
        Some c \<Rightarrow> Ok c
      | None \<Rightarrow> Err (custom [SerdeInvalidVariant i]))"

definition de_status_code :: "status_code deserialize" where
  "de_status_code = deserialize_enum (\<lambda>bs.
     result_bind (variant_seed status_code_of_index bs) (\<lambda>(c, rest).
     result_bind (unit_variant rest) (\<lambda>(_, rest). Ok (c, rest))))"

lemma status_code_of_index_index: "status_code_of_index (status_code_index c) = Ok c"
  by (cases c) (simp_all add: status_code_of_index_def enum_status_code_def)

lemma status_code_of_large_index:
  "8 < unat i \<Longrightarrow> status_code_of_index i = Err (custom [SerdeInvalidVariant i])"
  by (auto simp: status_code_of_index_def enum_status_code_def)

lemma status_code_reads: "reads de_status_code (\<lambda>_. True)"
  by (auto simp: reads_def de_status_code_def deserialize_enum_def variant_seed_def unit_variant_def
      try_get_u32_def try_get_be_def result_inversions split: if_splits)

interpretation status_code_codec:
  wire_codec ser_status_code de_status_code "\<lambda>c. to_be 4 (status_code_index c)" "\<lambda>_. True" id
  by unfold_locales
    (simp add: ser_status_code_def serialize_unit_variant_def serialize_u32_def put_u32_def,
      simp add: de_status_code_def deserialize_enum_def variant_seed_def unit_variant_def
        try_get_u32_to_be status_code_of_index_index,
      simp add: status_code_reads)

definition OPEN_READ :: u32 where "OPEN_READ = 0x00000001"

definition OPEN_WRITE :: u32 where "OPEN_WRITE = 0x00000002"

definition OPEN_APPEND :: u32 where "OPEN_APPEND = 0x00000004"

definition OPEN_CREATE :: u32 where "OPEN_CREATE = 0x00000008"

definition OPEN_TRUNCATE :: u32 where "OPEN_TRUNCATE = 0x00000010"

definition OPEN_EXCLUDE :: u32 where "OPEN_EXCLUDE = 0x00000020"

lemmas open_flag_defs = OPEN_READ_def OPEN_WRITE_def OPEN_APPEND_def OPEN_CREATE_def
  OPEN_TRUNCATE_def OPEN_EXCLUDE_def

text \<open>\<^verbatim>\<open>std::fs::OpenOptions\<close>: six switches, all off at first.\<close>

record open_options =
  oo_read :: bool
  oo_write :: bool
  oo_append :: bool
  oo_truncate :: bool
  oo_create :: bool
  oo_create_new :: bool

definition open_options_new :: open_options where
  "open_options_new = \<lparr>oo_read = False, oo_write = False, oo_append = False, oo_truncate = False,
     oo_create = False, oo_create_new = False\<rparr>"

definition open_options_of_flags :: "u32 \<Rightarrow> open_options" where
  "open_options_of_flags flags =
     (let o1 = open_options_new;
          o1 = (if flag_contains flags OPEN_READ then o1\<lparr>oo_read := True\<rparr> else o1);
          o1 = (if flag_contains flags OPEN_WRITE then o1\<lparr>oo_write := True\<rparr> else o1);
          o1 = (if flag_contains flags OPEN_APPEND then o1\<lparr>oo_append := True\<rparr> else o1);
          o1 = (if flag_contains flags OPEN_CREATE
                then if flag_contains flags OPEN_EXCLUDE then o1\<lparr>oo_create_new := True\<rparr>
                     else o1\<lparr>oo_create := True\<rparr>
                else o1)
      in if flag_contains flags OPEN_TRUNCATE then o1\<lparr>oo_truncate := True\<rparr> else o1)"

definition ser_open_flags :: "u32 serialize" where
  "ser_open_flags v out = serialize_newtype_struct ser_u32 out v"

definition de_open_flags :: "u32 deserialize" where
  "de_open_flags = deserialize_newtype_struct de_u32"

lemma open_flags_reads: "reads de_open_flags (\<lambda>_. True)"
  using u32_reads by (simp add: de_open_flags_def deserialize_newtype_struct_def reads_def)

interpretation open_flags_codec: wire_codec ser_open_flags de_open_flags "to_be 4" "\<lambda>_. True" id
  by unfold_locales
    (simp add: ser_open_flags_def serialize_newtype_struct_def ser_u32_wire,
      simp add: de_open_flags_def deserialize_newtype_struct_def de_u32_wire,
      simp add: open_flags_reads)

text \<open>What the derived functions reduce to, field by field.\<close>

lemmas message_simps =
  serialize_struct_def serialize_field_def ser_end_def
  deserialize_struct_def deserialize_tuple_def over_input_def next_field_step
  ser_u32_wire ser_u64_wire ser_string_wire ser_string_map_wire ser_file_attributes_wire
  data_serialize_wire bytes_codec.ser_wire status_code_codec.ser_wire open_flags_codec.ser_wire
  de_u32_wire de_u64_wire de_file_attributes_wire data_deserialize_all
  string_codec.de_wire [unfolded id_apply] bytes_codec.de_wire [unfolded id_apply]
  string_map_codec.de_law [unfolded id_apply]
  status_code_codec.de_wire [OF TrueI, unfolded id_apply]
  open_flags_codec.de_wire [OF TrueI, unfolded id_apply]

lemma string_map_reads: "reads de_string_map string_map_fits"
  using string_map_codec.reads_law by simp

lemma rest_data_reads: "reads data_deserialize (\<lambda>_. True)"
  using data_codec.reads_law by simp

lemmas field_reads = u32_reads u64_reads string_reads bytes_reads attrs_reads string_map_reads
  rest_data_reads status_code_reads open_flags_reads

lemmas struct_reads = reads_struct visits_field visits_done

section \<open>Packets\<close>

subsection \<open>Init\<close>

record init_msg =
  init_version :: u32
  init_extensions :: string_map

definition ser_init :: "init_msg serialize" where
  "ser_init m out =
     result_bind (serialize_struct out 2) (\<lambda>s.
     result_bind (serialize_field ser_u32 s (init_version m)) (\<lambda>s.
     result_bind (serialize_field ser_string_map s (init_extensions m)) (\<lambda>s.
     ser_end s)))"

definition de_init :: "init_msg deserialize" where
  "de_init = deserialize_struct 2 (\<lambda>s.
     result_bind (next_field 0 de_u32 s) (\<lambda>(version, s).
     result_bind (next_field 1 de_string_map s) (\<lambda>(extensions, s).
     Ok (\<lparr>init_version = version, init_extensions = extensions\<rparr>, s))))"

definition wire_init :: "init_msg \<Rightarrow> bytes" where
  "wire_init m = to_be 4 (init_version m) @ wire_entries (init_extensions m)"

definition fits_init :: "init_msg \<Rightarrow> bool" where
  "fits_init m \<longleftrightarrow> string_map_fits (init_extensions m)"

lemma init_reads: "reads de_init (\<lambda>m. fits_init m \<and> id m = m)"
  unfolding de_init_def
  by (rule reads_struct, (rule visits_field, rule field_reads, simp)+, rule visits_done)
    (simp add: fits_init_def)

interpretation init_codec: message_codec ser_init de_init wire_init fits_init id
  by unfold_locales
    (simp add: ser_init_def wire_init_def message_simps,
      simp add: de_init_def wire_init_def fits_init_def message_simps,
      rule init_reads)

subsection \<open>Version\<close>

record version_msg =
  version_version :: u32
  version_extensions :: string_map

definition ser_version :: "version_msg serialize" where
  "ser_version m out =
     result_bind (serialize_struct out 2) (\<lambda>s.
     result_bind (serialize_field ser_u32 s (version_version m)) (\<lambda>s.
     result_bind (serialize_field ser_string_map s (version_extensions m)) (\<lambda>s.
     ser_end s)))"

definition de_version :: "version_msg deserialize" where
  "de_version = deserialize_struct 2 (\<lambda>s.
     result_bind (next_field 0 de_u32 s) (\<lambda>(version, s).
     result_bind (next_field 1 de_string_map s) (\<lambda>(extensions, s).
     Ok (\<lparr>version_version = version, version_extensions = extensions\<rparr>, s))))"

definition wire_version :: "version_msg \<Rightarrow> bytes" where
  "wire_version m = to_be 4 (version_version m) @ wire_entries (version_extensions m)"

definition fits_version :: "version_msg \<Rightarrow> bool" where
  "fits_version m \<longleftrightarrow> string_map_fits (version_extensions m)"

lemma version_reads: "reads de_version (\<lambda>m. fits_version m \<and> id m = m)"
  unfolding de_version_def
  by (rule reads_struct, (rule visits_field, rule field_reads, simp)+, rule visits_done)
    (simp add: fits_version_def)

interpretation version_codec: message_codec ser_version de_version wire_version fits_version id
  by unfold_locales
    (simp add: ser_version_def wire_version_def message_simps,
      simp add: de_version_def wire_version_def fits_version_def message_simps,
      rule version_reads)

subsection \<open>Open\<close>

record open_msg =
  open_id :: u32
  open_filename :: bytes
  open_pflags :: u32
  open_attrs :: file_attributes

definition ser_open :: "open_msg serialize" where
  "ser_open m out =
     result_bind (serialize_struct out 4) (\<lambda>s.
     result_bind (serialize_field ser_u32 s (open_id m)) (\<lambda>s.
     result_bind (serialize_field ser_string s (open_filename m)) (\<lambda>s.
     result_bind (serialize_field ser_open_flags s (open_pflags m)) (\<lambda>s.
     result_bind (serialize_field ser_file_attributes s (open_attrs m)) (\<lambda>s.
     ser_end s)))))"

definition de_open :: "open_msg deserialize" where
  "de_open = deserialize_struct 4 (\<lambda>s.
     result_bind (next_field 0 de_u32 s) (\<lambda>(id, s).
     result_bind (next_field 1 de_string s) (\<lambda>(filename, s).
     result_bind (next_field 2 de_open_flags s) (\<lambda>(pflags, s).
     result_bind (next_field 3 de_file_attributes s) (\<lambda>(attrs, s).
     Ok (\<lparr>open_id = id, open_filename = filename, open_pflags = pflags, open_attrs = attrs\<rparr>, s))))))"

definition wire_open :: "open_msg \<Rightarrow> bytes" where
  "wire_open m = to_be 4 (open_id m) @ wire_string (open_filename m) @ to_be 4 (open_pflags m) @ wire_attrs (open_attrs m)"

definition fits_open :: "open_msg \<Rightarrow> bool" where
  "fits_open m \<longleftrightarrow> string_fits (open_filename m)"

definition norm_open :: "open_msg \<Rightarrow> open_msg" where
  "norm_open m = m\<lparr>open_attrs := norm_attrs (open_attrs m)\<rparr>"

lemma open_reads: "reads de_open (\<lambda>m. fits_open m \<and> norm_open m = m)"
  unfolding de_open_def
  by (rule reads_struct, (rule visits_field, rule field_reads, simp)+, rule visits_done)
    (simp add: fits_open_def norm_open_def)

interpretation open_codec: wire_codec ser_open de_open wire_open fits_open norm_open
  by unfold_locales
    (simp add: ser_open_def wire_open_def message_simps,
      simp add: de_open_def wire_open_def fits_open_def norm_open_def message_simps,
      rule open_reads)

subsection \<open>Close\<close>

record close_msg =
  close_id :: u32
  close_handle :: bytes

definition ser_close :: "close_msg serialize" where
  "ser_close m out =
     result_bind (serialize_struct out 2) (\<lambda>s.
     result_bind (serialize_field ser_u32 s (close_id m)) (\<lambda>s.
     result_bind (serialize_field ser_string s (close_handle m)) (\<lambda>s.
     ser_end s)))"

definition de_close :: "close_msg deserialize" where
  "de_close = deserialize_struct 2 (\<lambda>s.
     result_bind (next_field 0 de_u32 s) (\<lambda>(id, s).
     result_bind (next_field 1 de_string s) (\<lambda>(handle, s).
     Ok (\<lparr>close_id = id, close_handle = handle\<rparr>, s))))"

definition wire_close :: "close_msg \<Rightarrow> bytes" where
  "wire_close m = to_be 4 (close_id m) @ wire_string (close_handle m)"

definition fits_close :: "close_msg \<Rightarrow> bool" where
  "fits_close m \<longleftrightarrow> string_fits (close_handle m)"

lemma close_reads: "reads de_close (\<lambda>m. fits_close m \<and> id m = m)"
  unfolding de_close_def
  by (rule reads_struct, (rule visits_field, rule field_reads, simp)+, rule visits_done)
    (simp add: fits_close_def)

interpretation close_codec: wire_codec ser_close de_close wire_close fits_close id
  by unfold_locales
    (simp add: ser_close_def wire_close_def message_simps,
      simp add: de_close_def wire_close_def fits_close_def message_simps,
      rule close_reads)

subsection \<open>Read\<close>

record read_msg =
  read_id :: u32
  read_handle :: bytes
  read_offset :: u64
  read_len :: u32

definition ser_read :: "read_msg serialize" where
  "ser_read m out =
     result_bind (serialize_struct out 4) (\<lambda>s.
     result_bind (serialize_field ser_u32 s (read_id m)) (\<lambda>s.
     result_bind (serialize_field ser_string s (read_handle m)) (\<lambda>s.
     result_bind (serialize_field ser_u64 s (read_offset m)) (\<lambda>s.
     result_bind (serialize_field ser_u32 s (read_len m)) (\<lambda>s.
     ser_end s)))))"

definition de_read :: "read_msg deserialize" where
  "de_read = deserialize_struct 4 (\<lambda>s.
     result_bind (next_field 0 de_u32 s) (\<lambda>(id, s).
     result_bind (next_field 1 de_string s) (\<lambda>(handle, s).
     result_bind (next_field 2 de_u64 s) (\<lambda>(offset, s).
     result_bind (next_field 3 de_u32 s) (\<lambda>(n, s).
     Ok (\<lparr>read_id = id, read_handle = handle, read_offset = offset, read_len = n\<rparr>, s))))))"

definition wire_read :: "read_msg \<Rightarrow> bytes" where
  "wire_read m = to_be 4 (read_id m) @ wire_string (read_handle m) @ to_be 8 (read_offset m) @ to_be 4 (read_len m)"

definition fits_read :: "read_msg \<Rightarrow> bool" where
  "fits_read m \<longleftrightarrow> string_fits (read_handle m)"

lemma read_reads: "reads de_read (\<lambda>m. fits_read m \<and> id m = m)"
  unfolding de_read_def
  by (rule reads_struct, (rule visits_field, rule field_reads, simp)+, rule visits_done)
    (simp add: fits_read_def)

interpretation read_codec: wire_codec ser_read de_read wire_read fits_read id
  by unfold_locales
    (simp add: ser_read_def wire_read_def message_simps,
      simp add: de_read_def wire_read_def fits_read_def message_simps,
      rule read_reads)

subsection \<open>Write\<close>

record write_msg =
  write_id :: u32
  write_handle :: bytes
  write_offset :: u64
  write_data :: bytes

definition ser_write :: "write_msg serialize" where
  "ser_write m out =
     result_bind (serialize_struct out 4) (\<lambda>s.
     result_bind (serialize_field ser_u32 s (write_id m)) (\<lambda>s.
     result_bind (serialize_field ser_string s (write_handle m)) (\<lambda>s.
     result_bind (serialize_field ser_u64 s (write_offset m)) (\<lambda>s.
     result_bind (serialize_field (ser_vec ser_u8) s (write_data m)) (\<lambda>s.
     ser_end s)))))"

definition de_write :: "write_msg deserialize" where
  "de_write = deserialize_struct 4 (\<lambda>s.
     result_bind (next_field 0 de_u32 s) (\<lambda>(id, s).
     result_bind (next_field 1 de_string s) (\<lambda>(handle, s).
     result_bind (next_field 2 de_u64 s) (\<lambda>(offset, s).
     result_bind (next_field 3 (de_vec de_u8) s) (\<lambda>(d, s).
     Ok (\<lparr>write_id = id, write_handle = handle, write_offset = offset, write_data = d\<rparr>, s))))))"

definition wire_write :: "write_msg \<Rightarrow> bytes" where
  "wire_write m = to_be 4 (write_id m) @ wire_string (write_handle m) @ to_be 8 (write_offset m) @ wire_bytes (write_data m)"

definition fits_write :: "write_msg \<Rightarrow> bool" where
  "fits_write m \<longleftrightarrow> string_fits (write_handle m) \<and> bytes_fit (write_data m)"

lemma write_reads: "reads de_write (\<lambda>m. fits_write m \<and> id m = m)"
  unfolding de_write_def
  by (rule reads_struct, (rule visits_field, rule field_reads, simp)+, rule visits_done)
    (simp add: fits_write_def)

interpretation write_codec: wire_codec ser_write de_write wire_write fits_write id
  by unfold_locales
    (simp add: ser_write_def wire_write_def message_simps,
      simp add: de_write_def wire_write_def fits_write_def message_simps,
      rule write_reads)

subsection \<open>Lstat\<close>

record lstat_msg =
  lstat_id :: u32
  lstat_path :: bytes

definition ser_lstat :: "lstat_msg serialize" where
  "ser_lstat m out =
     result_bind (serialize_struct out 2) (\<lambda>s.
     result_bind (serialize_field ser_u32 s (lstat_id m)) (\<lambda>s.
     result_bind (serialize_field ser_string s (lstat_path m)) (\<lambda>s.
     ser_end s)))"

definition de_lstat :: "lstat_msg deserialize" where
  "de_lstat = deserialize_struct 2 (\<lambda>s.
     result_bind (next_field 0 de_u32 s) (\<lambda>(id, s).
     result_bind (next_field 1 de_string s) (\<lambda>(path, s).
     Ok (\<lparr>lstat_id = id, lstat_path = path\<rparr>, s))))"

definition wire_lstat :: "lstat_msg \<Rightarrow> bytes" where
  "wire_lstat m = to_be 4 (lstat_id m) @ wire_string (lstat_path m)"

definition fits_lstat :: "lstat_msg \<Rightarrow> bool" where
  "fits_lstat m \<longleftrightarrow> string_fits (lstat_path m)"

lemma lstat_reads: "reads de_lstat (\<lambda>m. fits_lstat m \<and> id m = m)"
  unfolding de_lstat_def
  by (rule reads_struct, (rule visits_field, rule field_reads, simp)+, rule visits_done)
    (simp add: fits_lstat_def)

interpretation lstat_codec: wire_codec ser_lstat de_lstat wire_lstat fits_lstat id
  by unfold_locales
    (simp add: ser_lstat_def wire_lstat_def message_simps,
      simp add: de_lstat_def wire_lstat_def fits_lstat_def message_simps,
      rule lstat_reads)

subsection \<open>Fstat\<close>

record fstat_msg =
  fstat_id :: u32
  fstat_handle :: bytes

definition ser_fstat :: "fstat_msg serialize" where
  "ser_fstat m out =
     result_bind (serialize_struct out 2) (\<lambda>s.
     result_bind (serialize_field ser_u32 s (fstat_id m)) (\<lambda>s.
     result_bind (serialize_field ser_string s (fstat_handle m)) (\<lambda>s.
     ser_end s)))"

definition de_fstat :: "fstat_msg deserialize" where
  "de_fstat = deserialize_struct 2 (\<lambda>s.
     result_bind (next_field 0 de_u32 s) (\<lambda>(id, s).
     result_bind (next_field 1 de_string s) (\<lambda>(handle, s).
     Ok (\<lparr>fstat_id = id, fstat_handle = handle\<rparr>, s))))"

definition wire_fstat :: "fstat_msg \<Rightarrow> bytes" where
  "wire_fstat m = to_be 4 (fstat_id m) @ wire_string (fstat_handle m)"

definition fits_fstat :: "fstat_msg \<Rightarrow> bool" where
  "fits_fstat m \<longleftrightarrow> string_fits (fstat_handle m)"

lemma fstat_reads: "reads de_fstat (\<lambda>m. fits_fstat m \<and> id m = m)"
  unfolding de_fstat_def
  by (rule reads_struct, (rule visits_field, rule field_reads, simp)+, rule visits_done)
    (simp add: fits_fstat_def)

interpretation fstat_codec: wire_codec ser_fstat de_fstat wire_fstat fits_fstat id
  by unfold_locales
    (simp add: ser_fstat_def wire_fstat_def message_simps,
      simp add: de_fstat_def wire_fstat_def fits_fstat_def message_simps,
      rule fstat_reads)

subsection \<open>SetStat\<close>

record setstat_msg =
  setstat_id :: u32
  setstat_path :: bytes
  setstat_attrs :: file_attributes

definition ser_setstat :: "setstat_msg serialize" where
  "ser_setstat m out =
     result_bind (serialize_struct out 3) (\<lambda>s.
     result_bind (serialize_field ser_u32 s (setstat_id m)) (\<lambda>s.
     result_bind (serialize_field ser_string s (setstat_path m)) (\<lambda>s.
     result_bind (serialize_field ser_file_attributes s (setstat_attrs m)) (\<lambda>s.
     ser_end s))))"

definition de_setstat :: "setstat_msg deserialize" where
  "de_setstat = deserialize_struct 3 (\<lambda>s.
     result_bind (next_field 0 de_u32 s) (\<lambda>(id, s).
     result_bind (next_field 1 de_string s) (\<lambda>(path, s).
     result_bind (next_field 2 de_file_attributes s) (\<lambda>(attrs, s).
     Ok (\<lparr>setstat_id = id, setstat_path = path, setstat_attrs = attrs\<rparr>, s)))))"

definition wire_setstat :: "setstat_msg \<Rightarrow> bytes" where
  "wire_setstat m = to_be 4 (setstat_id m) @ wire_string (setstat_path m) @ wire_attrs (setstat_attrs m)"

definition fits_setstat :: "setstat_msg \<Rightarrow> bool" where
  "fits_setstat m \<longleftrightarrow> string_fits (setstat_path m)"

definition norm_setstat :: "setstat_msg \<Rightarrow> setstat_msg" where
  "norm_setstat m = m\<lparr>setstat_attrs := norm_attrs (setstat_attrs m)\<rparr>"

lemma setstat_reads: "reads de_setstat (\<lambda>m. fits_setstat m \<and> norm_setstat m = m)"
  unfolding de_setstat_def
  by (rule reads_struct, (rule visits_field, rule field_reads, simp)+, rule visits_done)
    (simp add: fits_setstat_def norm_setstat_def)

interpretation setstat_codec: wire_codec ser_setstat de_setstat wire_setstat fits_setstat norm_setstat
  by unfold_locales
    (simp add: ser_setstat_def wire_setstat_def message_simps,
      simp add: de_setstat_def wire_setstat_def fits_setstat_def norm_setstat_def message_simps,
      rule setstat_reads)

subsection \<open>FSetStat\<close>

record fsetstat_msg =
  fsetstat_id :: u32
  fsetstat_handle :: bytes
  fsetstat_attrs :: file_attributes

definition ser_fsetstat :: "fsetstat_msg serialize" where
  "ser_fsetstat m out =
     result_bind (serialize_struct out 3) (\<lambda>s.
     result_bind (serialize_field ser_u32 s (fsetstat_id m)) (\<lambda>s.
     result_bind (serialize_field ser_string s (fsetstat_handle m)) (\<lambda>s.
     result_bind (serialize_field ser_file_attributes s (fsetstat_attrs m)) (\<lambda>s.
     ser_end s))))"

definition de_fsetstat :: "fsetstat_msg deserialize" where
  "de_fsetstat = deserialize_struct 3 (\<lambda>s.
     result_bind (next_field 0 de_u32 s) (\<lambda>(id, s).
     result_bind (next_field 1 de_string s) (\<lambda>(handle, s).
     result_bind (next_field 2 de_file_attributes s) (\<lambda>(attrs, s).
     Ok (\<lparr>fsetstat_id = id, fsetstat_handle = handle, fsetstat_attrs = attrs\<rparr>, s)))))"

definition wire_fsetstat :: "fsetstat_msg \<Rightarrow> bytes" where
  "wire_fsetstat m = to_be 4 (fsetstat_id m) @ wire_string (fsetstat_handle m) @ wire_attrs (fsetstat_attrs m)"

definition fits_fsetstat :: "fsetstat_msg \<Rightarrow> bool" where
  "fits_fsetstat m \<longleftrightarrow> string_fits (fsetstat_handle m)"

definition norm_fsetstat :: "fsetstat_msg \<Rightarrow> fsetstat_msg" where
  "norm_fsetstat m = m\<lparr>fsetstat_attrs := norm_attrs (fsetstat_attrs m)\<rparr>"

lemma fsetstat_reads: "reads de_fsetstat (\<lambda>m. fits_fsetstat m \<and> norm_fsetstat m = m)"
  unfolding de_fsetstat_def
  by (rule reads_struct, (rule visits_field, rule field_reads, simp)+, rule visits_done)
    (simp add: fits_fsetstat_def norm_fsetstat_def)

interpretation fsetstat_codec: wire_codec ser_fsetstat de_fsetstat wire_fsetstat fits_fsetstat norm_fsetstat
  by unfold_locales
    (simp add: ser_fsetstat_def wire_fsetstat_def message_simps,
      simp add: de_fsetstat_def wire_fsetstat_def fits_fsetstat_def norm_fsetstat_def message_simps,
      rule fsetstat_reads)

subsection \<open>OpenDir\<close>

record opendir_msg =
  opendir_id :: u32
  opendir_path :: bytes

definition ser_opendir :: "opendir_msg serialize" where
  "ser_opendir m out =
     result_bind (serialize_struct out 2) (\<lambda>s.
     result_bind (serialize_field ser_u32 s (opendir_id m)) (\<lambda>s.
     result_bind (serialize_field ser_string s (opendir_path m)) (\<lambda>s.
     ser_end s)))"

definition de_opendir :: "opendir_msg deserialize" where
  "de_opendir = deserialize_struct 2 (\<lambda>s.
     result_bind (next_field 0 de_u32 s) (\<lambda>(id, s).
     result_bind (next_field 1 de_string s) (\<lambda>(path, s).
     Ok (\<lparr>opendir_id = id, opendir_path = path\<rparr>, s))))"

definition wire_opendir :: "opendir_msg \<Rightarrow> bytes" where
  "wire_opendir m = to_be 4 (opendir_id m) @ wire_string (opendir_path m)"

definition fits_opendir :: "opendir_msg \<Rightarrow> bool" where
  "fits_opendir m \<longleftrightarrow> string_fits (opendir_path m)"

lemma opendir_reads: "reads de_opendir (\<lambda>m. fits_opendir m \<and> id m = m)"
  unfolding de_opendir_def
  by (rule reads_struct, (rule visits_field, rule field_reads, simp)+, rule visits_done)
    (simp add: fits_opendir_def)

interpretation opendir_codec: wire_codec ser_opendir de_opendir wire_opendir fits_opendir id
  by unfold_locales
    (simp add: ser_opendir_def wire_opendir_def message_simps,
      simp add: de_opendir_def wire_opendir_def fits_opendir_def message_simps,
      rule opendir_reads)

subsection \<open>ReadDir\<close>

record readdir_msg =
  readdir_id :: u32
  readdir_handle :: bytes

definition ser_readdir :: "readdir_msg serialize" where
  "ser_readdir m out =
     result_bind (serialize_struct out 2) (\<lambda>s.
     result_bind (serialize_field ser_u32 s (readdir_id m)) (\<lambda>s.
     result_bind (serialize_field ser_string s (readdir_handle m)) (\<lambda>s.
     ser_end s)))"

definition de_readdir :: "readdir_msg deserialize" where
  "de_readdir = deserialize_struct 2 (\<lambda>s.
     result_bind (next_field 0 de_u32 s) (\<lambda>(id, s).
     result_bind (next_field 1 de_string s) (\<lambda>(handle, s).
     Ok (\<lparr>readdir_id = id, readdir_handle = handle\<rparr>, s))))"

definition wire_readdir :: "readdir_msg \<Rightarrow> bytes" where
  "wire_readdir m = to_be 4 (readdir_id m) @ wire_string (readdir_handle m)"

definition fits_readdir :: "readdir_msg \<Rightarrow> bool" where
  "fits_readdir m \<longleftrightarrow> string_fits (readdir_handle m)"

lemma readdir_reads: "reads de_readdir (\<lambda>m. fits_readdir m \<and> id m = m)"
  unfolding de_readdir_def
  by (rule reads_struct, (rule visits_field, rule field_reads, simp)+, rule visits_done)
    (simp add: fits_readdir_def)

interpretation readdir_codec: wire_codec ser_readdir de_readdir wire_readdir fits_readdir id
  by unfold_locales
    (simp add: ser_readdir_def wire_readdir_def message_simps,
      simp add: de_readdir_def wire_readdir_def fits_readdir_def message_simps,
      rule readdir_reads)

subsection \<open>Remove\<close>

record remove_msg =
  remove_id :: u32
  remove_filename :: bytes

definition ser_remove :: "remove_msg serialize" where
  "ser_remove m out =
     result_bind (serialize_struct out 2) (\<lambda>s.
     result_bind (serialize_field ser_u32 s (remove_id m)) (\<lambda>s.
     result_bind (serialize_field ser_string s (remove_filename m)) (\<lambda>s.
     ser_end s)))"

definition de_remove :: "remove_msg deserialize" where
  "de_remove = deserialize_struct 2 (\<lambda>s.
     result_bind (next_field 0 de_u32 s) (\<lambda>(id, s).
     result_bind (next_field 1 de_string s) (\<lambda>(filename, s).
     Ok (\<lparr>remove_id = id, remove_filename = filename\<rparr>, s))))"

definition wire_remove :: "remove_msg \<Rightarrow> bytes" where
  "wire_remove m = to_be 4 (remove_id m) @ wire_string (remove_filename m)"

definition fits_remove :: "remove_msg \<Rightarrow> bool" where
  "fits_remove m \<longleftrightarrow> string_fits (remove_filename m)"

lemma remove_reads: "reads de_remove (\<lambda>m. fits_remove m \<and> id m = m)"
  unfolding de_remove_def
  by (rule reads_struct, (rule visits_field, rule field_reads, simp)+, rule visits_done)
    (simp add: fits_remove_def)

interpretation remove_codec: wire_codec ser_remove de_remove wire_remove fits_remove id
  by unfold_locales
    (simp add: ser_remove_def wire_remove_def message_simps,
      simp add: de_remove_def wire_remove_def fits_remove_def message_simps,
      rule remove_reads)

subsection \<open>MkDir\<close>

record mkdir_msg =
  mkdir_id :: u32
  mkdir_path :: bytes
  mkdir_attrs :: file_attributes

definition ser_mkdir :: "mkdir_msg serialize" where
  "ser_mkdir m out =
     result_bind (serialize_struct out 3) (\<lambda>s.
     result_bind (serialize_field ser_u32 s (mkdir_id m)) (\<lambda>s.
     result_bind (serialize_field ser_string s (mkdir_path m)) (\<lambda>s.
     result_bind (serialize_field ser_file_attributes s (mkdir_attrs m)) (\<lambda>s.
     ser_end s))))"

definition de_mkdir :: "mkdir_msg deserialize" where
  "de_mkdir = deserialize_struct 3 (\<lambda>s.
     result_bind (next_field 0 de_u32 s) (\<lambda>(id, s).
     result_bind (next_field 1 de_string s) (\<lambda>(path, s).
     result_bind (next_field 2 de_file_attributes s) (\<lambda>(attrs, s).
     Ok (\<lparr>mkdir_id = id, mkdir_path = path, mkdir_attrs = attrs\<rparr>, s)))))"

definition wire_mkdir :: "mkdir_msg \<Rightarrow> bytes" where
  "wire_mkdir m = to_be 4 (mkdir_id m) @ wire_string (mkdir_path m) @ wire_attrs (mkdir_attrs m)"

definition fits_mkdir :: "mkdir_msg \<Rightarrow> bool" where
  "fits_mkdir m \<longleftrightarrow> string_fits (mkdir_path m)"

definition norm_mkdir :: "mkdir_msg \<Rightarrow> mkdir_msg" where
  "norm_mkdir m = m\<lparr>mkdir_attrs := norm_attrs (mkdir_attrs m)\<rparr>"

lemma mkdir_reads: "reads de_mkdir (\<lambda>m. fits_mkdir m \<and> norm_mkdir m = m)"
  unfolding de_mkdir_def
  by (rule reads_struct, (rule visits_field, rule field_reads, simp)+, rule visits_done)
    (simp add: fits_mkdir_def norm_mkdir_def)

interpretation mkdir_codec: wire_codec ser_mkdir de_mkdir wire_mkdir fits_mkdir norm_mkdir
  by unfold_locales
    (simp add: ser_mkdir_def wire_mkdir_def message_simps,
      simp add: de_mkdir_def wire_mkdir_def fits_mkdir_def norm_mkdir_def message_simps,
      rule mkdir_reads)

subsection \<open>RmDir\<close>

record rmdir_msg =
  rmdir_id :: u32
  rmdir_path :: bytes

definition ser_rmdir :: "rmdir_msg serialize" where
  "ser_rmdir m out =
     result_bind (serialize_struct out 2) (\<lambda>s.
     result_bind (serialize_field ser_u32 s (rmdir_id m)) (\<lambda>s.
     result_bind (serialize_field ser_string s (rmdir_path m)) (\<lambda>s.
     ser_end s)))"

definition de_rmdir :: "rmdir_msg deserialize" where
  "de_rmdir = deserialize_struct 2 (\<lambda>s.
     result_bind (next_field 0 de_u32 s) (\<lambda>(id, s).
     result_bind (next_field 1 de_string s) (\<lambda>(path, s).
     Ok (\<lparr>rmdir_id = id, rmdir_path = path\<rparr>, s))))"

definition wire_rmdir :: "rmdir_msg \<Rightarrow> bytes" where
  "wire_rmdir m = to_be 4 (rmdir_id m) @ wire_string (rmdir_path m)"

definition fits_rmdir :: "rmdir_msg \<Rightarrow> bool" where
  "fits_rmdir m \<longleftrightarrow> string_fits (rmdir_path m)"

lemma rmdir_reads: "reads de_rmdir (\<lambda>m. fits_rmdir m \<and> id m = m)"
  unfolding de_rmdir_def
  by (rule reads_struct, (rule visits_field, rule field_reads, simp)+, rule visits_done)
    (simp add: fits_rmdir_def)

interpretation rmdir_codec: wire_codec ser_rmdir de_rmdir wire_rmdir fits_rmdir id
  by unfold_locales
    (simp add: ser_rmdir_def wire_rmdir_def message_simps,
      simp add: de_rmdir_def wire_rmdir_def fits_rmdir_def message_simps,
      rule rmdir_reads)

subsection \<open>RealPath\<close>

record realpath_msg =
  realpath_id :: u32
  realpath_path :: bytes

definition ser_realpath :: "realpath_msg serialize" where
  "ser_realpath m out =
     result_bind (serialize_struct out 2) (\<lambda>s.
     result_bind (serialize_field ser_u32 s (realpath_id m)) (\<lambda>s.
     result_bind (serialize_field ser_string s (realpath_path m)) (\<lambda>s.
     ser_end s)))"

definition de_realpath :: "realpath_msg deserialize" where
  "de_realpath = deserialize_struct 2 (\<lambda>s.
     result_bind (next_field 0 de_u32 s) (\<lambda>(id, s).
     result_bind (next_field 1 de_string s) (\<lambda>(path, s).
     Ok (\<lparr>realpath_id = id, realpath_path = path\<rparr>, s))))"

definition wire_realpath :: "realpath_msg \<Rightarrow> bytes" where
  "wire_realpath m = to_be 4 (realpath_id m) @ wire_string (realpath_path m)"

definition fits_realpath :: "realpath_msg \<Rightarrow> bool" where
  "fits_realpath m \<longleftrightarrow> string_fits (realpath_path m)"

lemma realpath_reads: "reads de_realpath (\<lambda>m. fits_realpath m \<and> id m = m)"
  unfolding de_realpath_def
  by (rule reads_struct, (rule visits_field, rule field_reads, simp)+, rule visits_done)
    (simp add: fits_realpath_def)

interpretation realpath_codec: wire_codec ser_realpath de_realpath wire_realpath fits_realpath id
  by unfold_locales
    (simp add: ser_realpath_def wire_realpath_def message_simps,
      simp add: de_realpath_def wire_realpath_def fits_realpath_def message_simps,
      rule realpath_reads)

subsection \<open>Stat\<close>

record stat_msg =
  stat_id :: u32
  stat_path :: bytes

definition ser_stat :: "stat_msg serialize" where
  "ser_stat m out =
     result_bind (serialize_struct out 2) (\<lambda>s.
     result_bind (serialize_field ser_u32 s (stat_id m)) (\<lambda>s.
     result_bind (serialize_field ser_string s (stat_path m)) (\<lambda>s.
     ser_end s)))"

definition de_stat :: "stat_msg deserialize" where
  "de_stat = deserialize_struct 2 (\<lambda>s.
     result_bind (next_field 0 de_u32 s) (\<lambda>(id, s).
     result_bind (next_field 1 de_string s) (\<lambda>(path, s).
     Ok (\<lparr>stat_id = id, stat_path = path\<rparr>, s))))"

definition wire_stat :: "stat_msg \<Rightarrow> bytes" where
  "wire_stat m = to_be 4 (stat_id m) @ wire_string (stat_path m)"

definition fits_stat :: "stat_msg \<Rightarrow> bool" where
  "fits_stat m \<longleftrightarrow> string_fits (stat_path m)"

lemma stat_reads: "reads de_stat (\<lambda>m. fits_stat m \<and> id m = m)"
  unfolding de_stat_def
  by (rule reads_struct, (rule visits_field, rule field_reads, simp)+, rule visits_done)
    (simp add: fits_stat_def)

interpretation stat_codec: wire_codec ser_stat de_stat wire_stat fits_stat id
  by unfold_locales
    (simp add: ser_stat_def wire_stat_def message_simps,
      simp add: de_stat_def wire_stat_def fits_stat_def message_simps,
      rule stat_reads)

subsection \<open>Rename\<close>

record rename_msg =
  rename_id :: u32
  rename_oldpath :: bytes
  rename_newpath :: bytes

definition ser_rename :: "rename_msg serialize" where
  "ser_rename m out =
     result_bind (serialize_struct out 3) (\<lambda>s.
     result_bind (serialize_field ser_u32 s (rename_id m)) (\<lambda>s.
     result_bind (serialize_field ser_string s (rename_oldpath m)) (\<lambda>s.
     result_bind (serialize_field ser_string s (rename_newpath m)) (\<lambda>s.
     ser_end s))))"

definition de_rename :: "rename_msg deserialize" where
  "de_rename = deserialize_struct 3 (\<lambda>s.
     result_bind (next_field 0 de_u32 s) (\<lambda>(id, s).
     result_bind (next_field 1 de_string s) (\<lambda>(oldpath, s).
     result_bind (next_field 2 de_string s) (\<lambda>(newpath, s).
     Ok (\<lparr>rename_id = id, rename_oldpath = oldpath, rename_newpath = newpath\<rparr>, s)))))"

definition wire_rename :: "rename_msg \<Rightarrow> bytes" where
  "wire_rename m = to_be 4 (rename_id m) @ wire_string (rename_oldpath m) @ wire_string (rename_newpath m)"

definition fits_rename :: "rename_msg \<Rightarrow> bool" where
  "fits_rename m \<longleftrightarrow> string_fits (rename_oldpath m) \<and> string_fits (rename_newpath m)"

lemma rename_reads: "reads de_rename (\<lambda>m. fits_rename m \<and> id m = m)"
  unfolding de_rename_def
  by (rule reads_struct, (rule visits_field, rule field_reads, simp)+, rule visits_done)
    (simp add: fits_rename_def)

interpretation rename_codec: wire_codec ser_rename de_rename wire_rename fits_rename id
  by unfold_locales
    (simp add: ser_rename_def wire_rename_def message_simps,
      simp add: de_rename_def wire_rename_def fits_rename_def message_simps,
      rule rename_reads)

subsection \<open>ReadLink\<close>

record readlink_msg =
  readlink_id :: u32
  readlink_path :: bytes

definition ser_readlink :: "readlink_msg serialize" where
  "ser_readlink m out =
     result_bind (serialize_struct out 2) (\<lambda>s.
     result_bind (serialize_field ser_u32 s (readlink_id m)) (\<lambda>s.
     result_bind (serialize_field ser_string s (readlink_path m)) (\<lambda>s.
     ser_end s)))"

definition de_readlink :: "readlink_msg deserialize" where
  "de_readlink = deserialize_struct 2 (\<lambda>s.
     result_bind (next_field 0 de_u32 s) (\<lambda>(id, s).
     result_bind (next_field 1 de_string s) (\<lambda>(path, s).
     Ok (\<lparr>readlink_id = id, readlink_path = path\<rparr>, s))))"

definition wire_readlink :: "readlink_msg \<Rightarrow> bytes" where
  "wire_readlink m = to_be 4 (readlink_id m) @ wire_string (readlink_path m)"

definition fits_readlink :: "readlink_msg \<Rightarrow> bool" where
  "fits_readlink m \<longleftrightarrow> string_fits (readlink_path m)"

lemma readlink_reads: "reads de_readlink (\<lambda>m. fits_readlink m \<and> id m = m)"
  unfolding de_readlink_def
  by (rule reads_struct, (rule visits_field, rule field_reads, simp)+, rule visits_done)
    (simp add: fits_readlink_def)

interpretation readlink_codec: wire_codec ser_readlink de_readlink wire_readlink fits_readlink id
  by unfold_locales
    (simp add: ser_readlink_def wire_readlink_def message_simps,
      simp add: de_readlink_def wire_readlink_def fits_readlink_def message_simps,
      rule readlink_reads)

subsection \<open>Symlink\<close>

record symlink_msg =
  symlink_id :: u32
  symlink_linkpath :: bytes
  symlink_targetpath :: bytes

definition ser_symlink :: "symlink_msg serialize" where
  "ser_symlink m out =
     result_bind (serialize_struct out 3) (\<lambda>s.
     result_bind (serialize_field ser_u32 s (symlink_id m)) (\<lambda>s.
     result_bind (serialize_field ser_string s (symlink_linkpath m)) (\<lambda>s.
     result_bind (serialize_field ser_string s (symlink_targetpath m)) (\<lambda>s.
     ser_end s))))"

definition de_symlink :: "symlink_msg deserialize" where
  "de_symlink = deserialize_struct 3 (\<lambda>s.
     result_bind (next_field 0 de_u32 s) (\<lambda>(id, s).
     result_bind (next_field 1 de_string s) (\<lambda>(linkpath, s).
     result_bind (next_field 2 de_string s) (\<lambda>(targetpath, s).
     Ok (\<lparr>symlink_id = id, symlink_linkpath = linkpath, symlink_targetpath = targetpath\<rparr>, s)))))"

definition wire_symlink :: "symlink_msg \<Rightarrow> bytes" where
  "wire_symlink m = to_be 4 (symlink_id m) @ wire_string (symlink_linkpath m) @ wire_string (symlink_targetpath m)"

definition fits_symlink :: "symlink_msg \<Rightarrow> bool" where
  "fits_symlink m \<longleftrightarrow> string_fits (symlink_linkpath m) \<and> string_fits (symlink_targetpath m)"

lemma symlink_reads: "reads de_symlink (\<lambda>m. fits_symlink m \<and> id m = m)"
  unfolding de_symlink_def
  by (rule reads_struct, (rule visits_field, rule field_reads, simp)+, rule visits_done)
    (simp add: fits_symlink_def)

interpretation symlink_codec: wire_codec ser_symlink de_symlink wire_symlink fits_symlink id
  by unfold_locales
    (simp add: ser_symlink_def wire_symlink_def message_simps,
      simp add: de_symlink_def wire_symlink_def fits_symlink_def message_simps,
      rule symlink_reads)

subsection \<open>Status\<close>

record status_msg =
  status_id :: u32
  status_status_code :: status_code
  status_error_message :: bytes
  status_language_tag :: bytes

definition ser_status :: "status_msg serialize" where
  "ser_status m out =
     result_bind (serialize_struct out 4) (\<lambda>s.
     result_bind (serialize_field ser_u32 s (status_id m)) (\<lambda>s.
     result_bind (serialize_field ser_status_code s (status_status_code m)) (\<lambda>s.
     result_bind (serialize_field ser_string s (status_error_message m)) (\<lambda>s.
     result_bind (serialize_field ser_string s (status_language_tag m)) (\<lambda>s.
     ser_end s)))))"

definition de_status :: "status_msg deserialize" where
  "de_status = deserialize_struct 4 (\<lambda>s.
     result_bind (next_field 0 de_u32 s) (\<lambda>(id, s).
     result_bind (next_field 1 de_status_code s) (\<lambda>(status_code, s).
     result_bind (next_field 2 de_string s) (\<lambda>(error_message, s).
     result_bind (next_field 3 de_string s) (\<lambda>(language_tag, s).
     Ok (\<lparr>status_id = id, status_status_code = status_code, status_error_message = error_message, status_language_tag = language_tag\<rparr>, s))))))"

definition wire_status :: "status_msg \<Rightarrow> bytes" where
  "wire_status m = to_be 4 (status_id m) @ to_be 4 (status_code_index (status_status_code m)) @ wire_string (status_error_message m) @ wire_string (status_language_tag m)"

definition fits_status :: "status_msg \<Rightarrow> bool" where
  "fits_status m \<longleftrightarrow> string_fits (status_error_message m) \<and> string_fits (status_language_tag m)"

lemma status_reads: "reads de_status (\<lambda>m. fits_status m \<and> id m = m)"
  unfolding de_status_def
  by (rule reads_struct, (rule visits_field, rule field_reads, simp)+, rule visits_done)
    (simp add: fits_status_def)

interpretation status_codec: wire_codec ser_status de_status wire_status fits_status id
  by unfold_locales
    (simp add: ser_status_def wire_status_def message_simps,
      simp add: de_status_def wire_status_def fits_status_def message_simps,
      rule status_reads)

subsection \<open>Handle\<close>

record handle_msg =
  handle_id :: u32
  handle_handle :: bytes

definition ser_handle :: "handle_msg serialize" where
  "ser_handle m out =
     result_bind (serialize_struct out 2) (\<lambda>s.
     result_bind (serialize_field ser_u32 s (handle_id m)) (\<lambda>s.
     result_bind (serialize_field ser_string s (handle_handle m)) (\<lambda>s.
     ser_end s)))"

definition de_handle :: "handle_msg deserialize" where
  "de_handle = deserialize_struct 2 (\<lambda>s.
     result_bind (next_field 0 de_u32 s) (\<lambda>(id, s).
     result_bind (next_field 1 de_string s) (\<lambda>(handle, s).
     Ok (\<lparr>handle_id = id, handle_handle = handle\<rparr>, s))))"

definition wire_handle :: "handle_msg \<Rightarrow> bytes" where
  "wire_handle m = to_be 4 (handle_id m) @ wire_string (handle_handle m)"

definition fits_handle :: "handle_msg \<Rightarrow> bool" where
  "fits_handle m \<longleftrightarrow> string_fits (handle_handle m)"

lemma handle_reads: "reads de_handle (\<lambda>m. fits_handle m \<and> id m = m)"
  unfolding de_handle_def
  by (rule reads_struct, (rule visits_field, rule field_reads, simp)+, rule visits_done)
    (simp add: fits_handle_def)

interpretation handle_codec: wire_codec ser_handle de_handle wire_handle fits_handle id
  by unfold_locales
    (simp add: ser_handle_def wire_handle_def message_simps,
      simp add: de_handle_def wire_handle_def fits_handle_def message_simps,
      rule handle_reads)

subsection \<open>Data\<close>

record data_msg =
  data_id :: u32
  data_data :: bytes

definition ser_data :: "data_msg serialize" where
  "ser_data m out =
     result_bind (serialize_struct out 2) (\<lambda>s.
     result_bind (serialize_field ser_u32 s (data_id m)) (\<lambda>s.
     result_bind (serialize_field (ser_vec ser_u8) s (data_data m)) (\<lambda>s.
     ser_end s)))"

definition de_data :: "data_msg deserialize" where
  "de_data = deserialize_struct 2 (\<lambda>s.
     result_bind (next_field 0 de_u32 s) (\<lambda>(id, s).
     result_bind (next_field 1 (de_vec de_u8) s) (\<lambda>(d, s).
     Ok (\<lparr>data_id = id, data_data = d\<rparr>, s))))"

definition wire_data :: "data_msg \<Rightarrow> bytes" where
  "wire_data m = to_be 4 (data_id m) @ wire_bytes (data_data m)"

definition fits_data :: "data_msg \<Rightarrow> bool" where
  "fits_data m \<longleftrightarrow> bytes_fit (data_data m)"

lemma data_reads: "reads de_data (\<lambda>m. fits_data m \<and> id m = m)"
  unfolding de_data_def
  by (rule reads_struct, (rule visits_field, rule field_reads, simp)+, rule visits_done)
    (simp add: fits_data_def)

interpretation data_codec: wire_codec ser_data de_data wire_data fits_data id
  by unfold_locales
    (simp add: ser_data_def wire_data_def message_simps,
      simp add: de_data_def wire_data_def fits_data_def message_simps,
      rule data_reads)

subsection \<open>File\<close>

record file_msg =
  file_filename :: bytes
  file_longname :: bytes
  file_attrs :: file_attributes

definition ser_file :: "file_msg serialize" where
  "ser_file m out =
     result_bind (serialize_struct out 3) (\<lambda>s.
     result_bind (serialize_field ser_string s (file_filename m)) (\<lambda>s.
     result_bind (serialize_field ser_string s (file_longname m)) (\<lambda>s.
     result_bind (serialize_field ser_file_attributes s (file_attrs m)) (\<lambda>s.
     ser_end s))))"

definition de_file :: "file_msg deserialize" where
  "de_file = deserialize_struct 3 (\<lambda>s.
     result_bind (next_field 0 de_string s) (\<lambda>(filename, s).
     result_bind (next_field 1 de_string s) (\<lambda>(longname, s).
     result_bind (next_field 2 de_file_attributes s) (\<lambda>(attrs, s).
     Ok (\<lparr>file_filename = filename, file_longname = longname, file_attrs = attrs\<rparr>, s)))))"

definition wire_file :: "file_msg \<Rightarrow> bytes" where
  "wire_file m = wire_string (file_filename m) @ wire_string (file_longname m) @ wire_attrs (file_attrs m)"

definition fits_file :: "file_msg \<Rightarrow> bool" where
  "fits_file m \<longleftrightarrow> string_fits (file_filename m) \<and> string_fits (file_longname m)"

definition norm_file :: "file_msg \<Rightarrow> file_msg" where
  "norm_file m = m\<lparr>file_attrs := norm_attrs (file_attrs m)\<rparr>"

lemma file_reads: "reads de_file (\<lambda>m. fits_file m \<and> norm_file m = m)"
  unfolding de_file_def
  by (rule reads_struct, (rule visits_field, rule field_reads, simp)+, rule visits_done)
    (simp add: fits_file_def norm_file_def)

interpretation file_codec: wire_codec ser_file de_file wire_file fits_file norm_file
  by unfold_locales
    (simp add: ser_file_def wire_file_def message_simps,
      simp add: de_file_def wire_file_def fits_file_def norm_file_def message_simps,
      rule file_reads)

definition files_fit :: "file_msg list \<Rightarrow> bool" where
  "files_fit fs \<longleftrightarrow> length fs < 2 ^ 32 \<and> list_all fits_file fs"

lemma files_reads: "reads (de_vec de_file) (\<lambda>fs. files_fit fs \<and> map norm_file fs = fs)"
  using file_codec.vec_reads_law by (simp add: files_fit_def)

lemmas files_simps = file_codec.vec_ser file_codec.vec_de

subsection \<open>Name\<close>

record name_msg =
  name_id :: u32
  name_files :: "file_msg list"

definition ser_name :: "name_msg serialize" where
  "ser_name m out =
     result_bind (serialize_struct out 2) (\<lambda>s.
     result_bind (serialize_field ser_u32 s (name_id m)) (\<lambda>s.
     result_bind (serialize_field (ser_vec ser_file) s (name_files m)) (\<lambda>s.
     ser_end s)))"

definition de_name :: "name_msg deserialize" where
  "de_name = deserialize_struct 2 (\<lambda>s.
     result_bind (next_field 0 de_u32 s) (\<lambda>(id, s).
     result_bind (next_field 1 (de_vec de_file) s) (\<lambda>(fs, s).
     Ok (\<lparr>name_id = id, name_files = fs\<rparr>, s))))"

definition wire_name :: "name_msg \<Rightarrow> bytes" where
  "wire_name m = to_be 4 (name_id m) @ wire_vec wire_file (name_files m)"

definition fits_name :: "name_msg \<Rightarrow> bool" where
  "fits_name m \<longleftrightarrow> files_fit (name_files m)"

definition norm_name :: "name_msg \<Rightarrow> name_msg" where
  "norm_name m = m\<lparr>name_files := map norm_file (name_files m)\<rparr>"

lemma name_reads: "reads de_name (\<lambda>m. fits_name m \<and> norm_name m = m)"
  unfolding de_name_def
  by (rule reads_struct, (rule visits_field, rule field_reads files_reads, simp)+, rule visits_done)
    (simp add: fits_name_def norm_name_def)

interpretation name_codec: wire_codec ser_name de_name wire_name fits_name norm_name
  by unfold_locales
    (simp add: ser_name_def wire_name_def message_simps files_simps,
      simp add: de_name_def wire_name_def fits_name_def norm_name_def files_simps files_fit_def message_simps,
      rule name_reads)

subsection \<open>Attrs\<close>

record attrs_reply_msg =
  attrs_reply_id :: u32
  attrs_reply_attrs :: file_attributes

definition ser_attrs_reply :: "attrs_reply_msg serialize" where
  "ser_attrs_reply m out =
     result_bind (serialize_struct out 2) (\<lambda>s.
     result_bind (serialize_field ser_u32 s (attrs_reply_id m)) (\<lambda>s.
     result_bind (serialize_field ser_file_attributes s (attrs_reply_attrs m)) (\<lambda>s.
     ser_end s)))"

definition de_attrs_reply :: "attrs_reply_msg deserialize" where
  "de_attrs_reply = deserialize_struct 2 (\<lambda>s.
     result_bind (next_field 0 de_u32 s) (\<lambda>(id, s).
     result_bind (next_field 1 de_file_attributes s) (\<lambda>(attrs, s).
     Ok (\<lparr>attrs_reply_id = id, attrs_reply_attrs = attrs\<rparr>, s))))"

definition wire_attrs_reply :: "attrs_reply_msg \<Rightarrow> bytes" where
  "wire_attrs_reply m = to_be 4 (attrs_reply_id m) @ wire_attrs (attrs_reply_attrs m)"

definition fits_attrs_reply :: "attrs_reply_msg \<Rightarrow> bool" where
  "fits_attrs_reply m \<longleftrightarrow> True"

definition norm_attrs_reply :: "attrs_reply_msg \<Rightarrow> attrs_reply_msg" where
  "norm_attrs_reply m = m\<lparr>attrs_reply_attrs := norm_attrs (attrs_reply_attrs m)\<rparr>"

lemma attrs_reply_reads: "reads de_attrs_reply (\<lambda>m. fits_attrs_reply m \<and> norm_attrs_reply m = m)"
  unfolding de_attrs_reply_def
  by (rule reads_struct, (rule visits_field, rule field_reads, simp)+, rule visits_done)
    (simp add: fits_attrs_reply_def norm_attrs_reply_def)

interpretation attrs_reply_codec: wire_codec ser_attrs_reply de_attrs_reply wire_attrs_reply fits_attrs_reply norm_attrs_reply
  by unfold_locales
    (simp add: ser_attrs_reply_def wire_attrs_reply_def message_simps,
      simp add: de_attrs_reply_def wire_attrs_reply_def fits_attrs_reply_def norm_attrs_reply_def message_simps,
      rule attrs_reply_reads)

subsection \<open>Extended\<close>

record extended_msg =
  extended_id :: u32
  extended_request :: bytes
  extended_data :: bytes

definition ser_extended :: "extended_msg serialize" where
  "ser_extended m out =
     result_bind (serialize_struct out 3) (\<lambda>s.
     result_bind (serialize_field ser_u32 s (extended_id m)) (\<lambda>s.
     result_bind (serialize_field ser_string s (extended_request m)) (\<lambda>s.
     result_bind (serialize_field data_serialize s (extended_data m)) (\<lambda>s.
     ser_end s))))"

definition de_extended :: "extended_msg deserialize" where
  "de_extended = deserialize_struct 3 (\<lambda>s.
     result_bind (next_field 0 de_u32 s) (\<lambda>(id, s).
     result_bind (next_field 1 de_string s) (\<lambda>(request, s).
     result_bind (next_field 2 data_deserialize s) (\<lambda>(d, s).
     Ok (\<lparr>extended_id = id, extended_request = request, extended_data = d\<rparr>, s)))))"

definition wire_extended :: "extended_msg \<Rightarrow> bytes" where
  "wire_extended m = to_be 4 (extended_id m) @ wire_string (extended_request m) @ extended_data m"

definition fits_extended :: "extended_msg \<Rightarrow> bool" where
  "fits_extended m \<longleftrightarrow> string_fits (extended_request m)"

lemma extended_reads: "reads de_extended (\<lambda>m. fits_extended m \<and> id m = m)"
  unfolding de_extended_def
  by (rule reads_struct, (rule visits_field, rule field_reads, simp)+, rule visits_done)
    (simp add: fits_extended_def)

interpretation extended_codec: message_codec ser_extended de_extended wire_extended fits_extended id
  by unfold_locales
    (simp add: ser_extended_def wire_extended_def message_simps,
      simp add: de_extended_def wire_extended_def fits_extended_def message_simps,
      rule extended_reads)

subsection \<open>ExtendedReply\<close>

record extended_reply_msg =
  extended_reply_id :: u32
  extended_reply_data :: bytes

definition ser_extended_reply :: "extended_reply_msg serialize" where
  "ser_extended_reply m out =
     result_bind (serialize_struct out 2) (\<lambda>s.
     result_bind (serialize_field ser_u32 s (extended_reply_id m)) (\<lambda>s.
     result_bind (serialize_field data_serialize s (extended_reply_data m)) (\<lambda>s.
     ser_end s)))"

definition de_extended_reply :: "extended_reply_msg deserialize" where
  "de_extended_reply = deserialize_struct 2 (\<lambda>s.
     result_bind (next_field 0 de_u32 s) (\<lambda>(id, s).
     result_bind (next_field 1 data_deserialize s) (\<lambda>(d, s).
     Ok (\<lparr>extended_reply_id = id, extended_reply_data = d\<rparr>, s))))"

definition wire_extended_reply :: "extended_reply_msg \<Rightarrow> bytes" where
  "wire_extended_reply m = to_be 4 (extended_reply_id m) @ extended_reply_data m"

definition fits_extended_reply :: "extended_reply_msg \<Rightarrow> bool" where
  "fits_extended_reply m \<longleftrightarrow> True"

lemma extended_reply_reads: "reads de_extended_reply (\<lambda>m. fits_extended_reply m \<and> id m = m)"
  unfolding de_extended_reply_def
  by (rule reads_struct, (rule visits_field, rule field_reads, simp)+, rule visits_done)
    (simp add: fits_extended_reply_def)

interpretation extended_reply_codec: message_codec ser_extended_reply de_extended_reply wire_extended_reply fits_extended_reply id
  by unfold_locales
    (simp add: ser_extended_reply_def wire_extended_reply_def message_simps,
      simp add: de_extended_reply_def wire_extended_reply_def fits_extended_reply_def message_simps,
      rule extended_reply_reads)

section \<open>Extension payloads (\<^verbatim>\<open>src/extensions.rs\<close>)\<close>

subsection \<open>LimitsExtension\<close>

record limits_msg =
  limits_max_packet_len :: u64
  limits_max_read_len :: u64
  limits_max_write_len :: u64
  limits_max_open_handles :: u64

definition ser_limits :: "limits_msg serialize" where
  "ser_limits m out =
     result_bind (serialize_struct out 4) (\<lambda>s.
     result_bind (serialize_field ser_u64 s (limits_max_packet_len m)) (\<lambda>s.
     result_bind (serialize_field ser_u64 s (limits_max_read_len m)) (\<lambda>s.
     result_bind (serialize_field ser_u64 s (limits_max_write_len m)) (\<lambda>s.
     result_bind (serialize_field ser_u64 s (limits_max_open_handles m)) (\<lambda>s.
     ser_end s)))))"

definition de_limits :: "limits_msg deserialize" where
  "de_limits = deserialize_struct 4 (\<lambda>s.
     result_bind (next_field 0 de_u64 s) (\<lambda>(max_packet_len, s).
     result_bind (next_field 1 de_u64 s) (\<lambda>(max_read_len, s).
     result_bind (next_field 2 de_u64 s) (\<lambda>(max_write_len, s).
     result_bind (next_field 3 de_u64 s) (\<lambda>(max_open_handles, s).
     Ok (\<lparr>limits_max_packet_len = max_packet_len, limits_max_read_len = max_read_len, limits_max_write_len = max_write_len, limits_max_open_handles = max_open_handles\<rparr>, s))))))"

definition wire_limits :: "limits_msg \<Rightarrow> bytes" where
  "wire_limits m = to_be 8 (limits_max_packet_len m) @ to_be 8 (limits_max_read_len m) @ to_be 8 (limits_max_write_len m) @ to_be 8 (limits_max_open_handles m)"

definition fits_limits :: "limits_msg \<Rightarrow> bool" where
  "fits_limits m \<longleftrightarrow> True"

lemma limits_reads: "reads de_limits (\<lambda>m. fits_limits m \<and> id m = m)"
  unfolding de_limits_def
  by (rule reads_struct, (rule visits_field, rule field_reads, simp)+, rule visits_done)
    (simp add: fits_limits_def)

interpretation limits_codec: wire_codec ser_limits de_limits wire_limits fits_limits id
  by unfold_locales
    (simp add: ser_limits_def wire_limits_def message_simps,
      simp add: de_limits_def wire_limits_def fits_limits_def message_simps,
      rule limits_reads)

subsection \<open>HardlinkExtension\<close>

record hardlink_msg =
  hardlink_oldpath :: bytes
  hardlink_newpath :: bytes

definition ser_hardlink :: "hardlink_msg serialize" where
  "ser_hardlink m out =
     result_bind (serialize_struct out 2) (\<lambda>s.
     result_bind (serialize_field ser_string s (hardlink_oldpath m)) (\<lambda>s.
     result_bind (serialize_field ser_string s (hardlink_newpath m)) (\<lambda>s.
     ser_end s)))"

definition de_hardlink :: "hardlink_msg deserialize" where
  "de_hardlink = deserialize_struct 2 (\<lambda>s.
     result_bind (next_field 0 de_string s) (\<lambda>(oldpath, s).
     result_bind (next_field 1 de_string s) (\<lambda>(newpath, s).
     Ok (\<lparr>hardlink_oldpath = oldpath, hardlink_newpath = newpath\<rparr>, s))))"

definition wire_hardlink :: "hardlink_msg \<Rightarrow> bytes" where
  "wire_hardlink m = wire_string (hardlink_oldpath m) @ wire_string (hardlink_newpath m)"

definition fits_hardlink :: "hardlink_msg \<Rightarrow> bool" where
  "fits_hardlink m \<longleftrightarrow> string_fits (hardlink_oldpath m) \<and> string_fits (hardlink_newpath m)"

lemma hardlink_reads: "reads de_hardlink (\<lambda>m. fits_hardlink m \<and> id m = m)"
  unfolding de_hardlink_def
  by (rule reads_struct, (rule visits_field, rule field_reads, simp)+, rule visits_done)
    (simp add: fits_hardlink_def)

interpretation hardlink_codec: wire_codec ser_hardlink de_hardlink wire_hardlink fits_hardlink id
  by unfold_locales
    (simp add: ser_hardlink_def wire_hardlink_def message_simps,
      simp add: de_hardlink_def wire_hardlink_def fits_hardlink_def message_simps,
      rule hardlink_reads)

subsection \<open>FsyncExtension\<close>

record fsync_msg =
  fsync_handle :: bytes

definition ser_fsync :: "fsync_msg serialize" where
  "ser_fsync m out =
     result_bind (serialize_struct out 1) (\<lambda>s.
     result_bind (serialize_field ser_string s (fsync_handle m)) (\<lambda>s.
     ser_end s))"

definition de_fsync :: "fsync_msg deserialize" where
  "de_fsync = deserialize_struct 1 (\<lambda>s.
     result_bind (next_field 0 de_string s) (\<lambda>(handle, s).
     Ok (\<lparr>fsync_handle = handle\<rparr>, s)))"

definition wire_fsync :: "fsync_msg \<Rightarrow> bytes" where
  "wire_fsync m = wire_string (fsync_handle m)"

definition fits_fsync :: "fsync_msg \<Rightarrow> bool" where
  "fits_fsync m \<longleftrightarrow> string_fits (fsync_handle m)"

lemma fsync_reads: "reads de_fsync (\<lambda>m. fits_fsync m \<and> id m = m)"
  unfolding de_fsync_def
  by (rule reads_struct, (rule visits_field, rule field_reads, simp)+, rule visits_done)
    (simp add: fits_fsync_def)

interpretation fsync_codec: wire_codec ser_fsync de_fsync wire_fsync fits_fsync id
  by unfold_locales
    (simp add: ser_fsync_def wire_fsync_def message_simps,
      simp add: de_fsync_def wire_fsync_def fits_fsync_def message_simps,
      rule fsync_reads)

subsection \<open>StatvfsExtension\<close>

record statvfs_request_msg =
  statvfs_request_path :: bytes

definition ser_statvfs_request :: "statvfs_request_msg serialize" where
  "ser_statvfs_request m out =
     result_bind (serialize_struct out 1) (\<lambda>s.
     result_bind (serialize_field ser_string s (statvfs_request_path m)) (\<lambda>s.
     ser_end s))"

definition de_statvfs_request :: "statvfs_request_msg deserialize" where
  "de_statvfs_request = deserialize_struct 1 (\<lambda>s.
     result_bind (next_field 0 de_string s) (\<lambda>(path, s).
     Ok (\<lparr>statvfs_request_path = path\<rparr>, s)))"

definition wire_statvfs_request :: "statvfs_request_msg \<Rightarrow> bytes" where
  "wire_statvfs_request m = wire_string (statvfs_request_path m)"

definition fits_statvfs_request :: "statvfs_request_msg \<Rightarrow> bool" where
  "fits_statvfs_request m \<longleftrightarrow> string_fits (statvfs_request_path m)"

lemma statvfs_request_reads: "reads de_statvfs_request (\<lambda>m. fits_statvfs_request m \<and> id m = m)"
  unfolding de_statvfs_request_def
  by (rule reads_struct, (rule visits_field, rule field_reads, simp)+, rule visits_done)
    (simp add: fits_statvfs_request_def)

interpretation statvfs_request_codec: wire_codec ser_statvfs_request de_statvfs_request wire_statvfs_request fits_statvfs_request id
  by unfold_locales
    (simp add: ser_statvfs_request_def wire_statvfs_request_def message_simps,
      simp add: de_statvfs_request_def wire_statvfs_request_def fits_statvfs_request_def message_simps,
      rule statvfs_request_reads)

subsection \<open>Statvfs\<close>

record statvfs_msg =
  statvfs_block_size :: u64
  statvfs_fragment_size :: u64
  statvfs_blocks :: u64
  statvfs_blocks_free :: u64
  statvfs_blocks_avail :: u64
  statvfs_inodes :: u64
  statvfs_inodes_free :: u64
  statvfs_inodes_avail :: u64
  statvfs_fs_id :: u64
  statvfs_flags :: u64
  statvfs_name_max :: u64

definition ser_statvfs :: "statvfs_msg serialize" where
  "ser_statvfs m out =
     result_bind (serialize_struct out 11) (\<lambda>s.
     result_bind (serialize_field ser_u64 s (statvfs_block_size m)) (\<lambda>s.
     result_bind (serialize_field ser_u64 s (statvfs_fragment_size m)) (\<lambda>s.
     result_bind (serialize_field ser_u64 s (statvfs_blocks m)) (\<lambda>s.
     result_bind (serialize_field ser_u64 s (statvfs_blocks_free m)) (\<lambda>s.
     result_bind (serialize_field ser_u64 s (statvfs_blocks_avail m)) (\<lambda>s.
     result_bind (serialize_field ser_u64 s (statvfs_inodes m)) (\<lambda>s.
     result_bind (serialize_field ser_u64 s (statvfs_inodes_free m)) (\<lambda>s.
     result_bind (serialize_field ser_u64 s (statvfs_inodes_avail m)) (\<lambda>s.
     result_bind (serialize_field ser_u64 s (statvfs_fs_id m)) (\<lambda>s.
     result_bind (serialize_field ser_u64 s (statvfs_flags m)) (\<lambda>s.
     result_bind (serialize_field ser_u64 s (statvfs_name_max m)) (\<lambda>s.
     ser_end s))))))))))))"

definition de_statvfs :: "statvfs_msg deserialize" where
  "de_statvfs = deserialize_struct 11 (\<lambda>s.
     result_bind (next_field 0 de_u64 s) (\<lambda>(block_size, s).
     result_bind (next_field 1 de_u64 s) (\<lambda>(fragment_size, s).
     result_bind (next_field 2 de_u64 s) (\<lambda>(blocks, s).
     result_bind (next_field 3 de_u64 s) (\<lambda>(blocks_free, s).
     result_bind (next_field 4 de_u64 s) (\<lambda>(blocks_avail, s).
     result_bind (next_field 5 de_u64 s) (\<lambda>(inodes, s).
     result_bind (next_field 6 de_u64 s) (\<lambda>(inodes_free, s).
     result_bind (next_field 7 de_u64 s) (\<lambda>(inodes_avail, s).
     result_bind (next_field 8 de_u64 s) (\<lambda>(fs_id, s).
     result_bind (next_field 9 de_u64 s) (\<lambda>(fl, s).
     result_bind (next_field 10 de_u64 s) (\<lambda>(name_max, s).
     Ok (\<lparr>statvfs_block_size = block_size, statvfs_fragment_size = fragment_size, statvfs_blocks = blocks, statvfs_blocks_free = blocks_free, statvfs_blocks_avail = blocks_avail, statvfs_inodes = inodes, statvfs_inodes_free = inodes_free, statvfs_inodes_avail = inodes_avail, statvfs_fs_id = fs_id, statvfs_flags = fl, statvfs_name_max = name_max\<rparr>, s)))))))))))))"

definition wire_statvfs :: "statvfs_msg \<Rightarrow> bytes" where
  "wire_statvfs m = to_be 8 (statvfs_block_size m) @ to_be 8 (statvfs_fragment_size m) @ to_be 8 (statvfs_blocks m) @ to_be 8 (statvfs_blocks_free m) @ to_be 8 (statvfs_blocks_avail m) @ to_be 8 (statvfs_inodes m) @ to_be 8 (statvfs_inodes_free m) @ to_be 8 (statvfs_inodes_avail m) @ to_be 8 (statvfs_fs_id m) @ to_be 8 (statvfs_flags m) @ to_be 8 (statvfs_name_max m)"

definition fits_statvfs :: "statvfs_msg \<Rightarrow> bool" where
  "fits_statvfs m \<longleftrightarrow> True"

lemma statvfs_reads: "reads de_statvfs (\<lambda>m. fits_statvfs m \<and> id m = m)"
  unfolding de_statvfs_def
  by (rule reads_struct, (rule visits_field, rule field_reads, simp)+, rule visits_done)
    (simp add: fits_statvfs_def)

interpretation statvfs_codec: wire_codec ser_statvfs de_statvfs wire_statvfs fits_statvfs id
  by unfold_locales
    (simp add: ser_statvfs_def wire_statvfs_def message_simps,
      simp add: de_statvfs_def wire_statvfs_def fits_statvfs_def message_simps,
      rule statvfs_reads)

section \<open>Properties of status codes and open flags\<close>

text \<open> A status code is read for exactly the numbers 0 to 8, as the code that is written as that
  number; every other number is an error.\<close>

theorem status_code_exact:
  "if unat n \<le> 8 then \<exists>c. status_code_index c = n \<and> de_status_code (to_be 4 n @ rest) = Ok (c, rest)
   else de_status_code (to_be 4 n @ rest) = Err (custom [SerdeInvalidVariant n])"
proof (cases "unat n \<le> 8")
  case True
  have "\<forall>k \<in> set [0..<9]. status_code_index (enum_class.enum ! k) = word_of_nat k"
    by (simp add: enum_status_code_def upt_rec)
  with True have "status_code_index (enum_class.enum ! unat n) = n" by simp
  with True show ?thesis using status_code_codec.de_wire [of "enum_class.enum ! unat n" rest] by auto
next
  case False
  then show ?thesis
    by (simp add: de_status_code_def deserialize_enum_def variant_seed_def try_get_u32_to_be
        status_code_of_large_index)
qed

text \<open> The flags of an open request become the options of a local open switch by switch; the
  exclusive flag only counts together with the create flag, and then excludes plain creation.\<close>

theorem open_options_by_flag_bits:
  "open_options_of_flags flags =
     \<lparr>oo_read = bit flags 0, oo_write = bit flags 1, oo_append = bit flags 2,
      oo_truncate = bit flags 4, oo_create = (bit flags 3 \<and> \<not> bit flags 5),
      oo_create_new = (bit flags 3 \<and> bit flags 5)\<rparr>"
  using and_power_eq [of 0 flags] and_power_eq [of 1 flags] and_power_eq [of 2 flags]
    and_power_eq [of 3 flags] and_power_eq [of 4 flags] and_power_eq [of 5 flags]
  by (simp add: open_options_of_flags_def open_options_new_def flag_contains_def open_flag_defs
      Let_def)

end
