(* ===== verification/Packet.thy ===== *)
theory Packet
  imports Messages
begin

text \<open>
  \<^verbatim>\<open>src/protocol/mod.rs\<close>: the packet type with one constructor for each message, the packet
  type bytes, request identifiers, and the two conversions: \<open>packet_try_from\<close> reads a packet from
  the body of a frame, \<open>bytes_of_packet\<close> writes a frame (length, type byte, payload).
\<close>

section \<open>The packet type\<close>

definition VERSION :: u32 where "VERSION = 3"

definition SSH_FXP_INIT :: u8 where "SSH_FXP_INIT = 1"

definition SSH_FXP_VERSION :: u8 where "SSH_FXP_VERSION = 2"

definition SSH_FXP_OPEN :: u8 where "SSH_FXP_OPEN = 3"

definition SSH_FXP_CLOSE :: u8 where "SSH_FXP_CLOSE = 4"

definition SSH_FXP_READ :: u8 where "SSH_FXP_READ = 5"

definition SSH_FXP_WRITE :: u8 where "SSH_FXP_WRITE = 6"

definition SSH_FXP_LSTAT :: u8 where "SSH_FXP_LSTAT = 7"

definition SSH_FXP_FSTAT :: u8 where "SSH_FXP_FSTAT = 8"

definition SSH_FXP_SETSTAT :: u8 where "SSH_FXP_SETSTAT = 9"

definition SSH_FXP_FSETSTAT :: u8 where "SSH_FXP_FSETSTAT = 10"

definition SSH_FXP_OPENDIR :: u8 where "SSH_FXP_OPENDIR = 11"

definition SSH_FXP_READDIR :: u8 where "SSH_FXP_READDIR = 12"

definition SSH_FXP_REMOVE :: u8 where "SSH_FXP_REMOVE = 13"

definition SSH_FXP_MKDIR :: u8 where "SSH_FXP_MKDIR = 14"

definition SSH_FXP_RMDIR :: u8 where "SSH_FXP_RMDIR = 15"

definition SSH_FXP_REALPATH :: u8 where "SSH_FXP_REALPATH = 16"

definition SSH_FXP_STAT :: u8 where "SSH_FXP_STAT = 17"

definition SSH_FXP_RENAME :: u8 where "SSH_FXP_RENAME = 18"

definition SSH_FXP_READLINK :: u8 where "SSH_FXP_READLINK = 19"

definition SSH_FXP_SYMLINK :: u8 where "SSH_FXP_SYMLINK = 20"

definition SSH_FXP_STATUS :: u8 where "SSH_FXP_STATUS = 101"

definition SSH_FXP_HANDLE :: u8 where "SSH_FXP_HANDLE = 102"

definition SSH_FXP_DATA :: u8 where "SSH_FXP_DATA = 103"

definition SSH_FXP_NAME :: u8 where "SSH_FXP_NAME = 104"

definition SSH_FXP_ATTRS :: u8 where "SSH_FXP_ATTRS = 105"

definition SSH_FXP_EXTENDED :: u8 where "SSH_FXP_EXTENDED = 200"

definition SSH_FXP_EXTENDED_REPLY :: u8 where "SSH_FXP_EXTENDED_REPLY = 201"

lemmas packet_type_defs = SSH_FXP_INIT_def
  SSH_FXP_VERSION_def
  SSH_FXP_OPEN_def
  SSH_FXP_CLOSE_def
  SSH_FXP_READ_def
  SSH_FXP_WRITE_def
  SSH_FXP_LSTAT_def
  SSH_FXP_FSTAT_def
  SSH_FXP_SETSTAT_def
  SSH_FXP_FSETSTAT_def
  SSH_FXP_OPENDIR_def
  SSH_FXP_READDIR_def
  SSH_FXP_REMOVE_def
  SSH_FXP_MKDIR_def
  SSH_FXP_RMDIR_def
  SSH_FXP_REALPATH_def
  SSH_FXP_STAT_def
  SSH_FXP_RENAME_def
  SSH_FXP_READLINK_def
  SSH_FXP_SYMLINK_def
  SSH_FXP_STATUS_def
  SSH_FXP_HANDLE_def
  SSH_FXP_DATA_def
  SSH_FXP_NAME_def
  SSH_FXP_ATTRS_def
  SSH_FXP_EXTENDED_def
  SSH_FXP_EXTENDED_REPLY_def

datatype packet =
    Init init_msg
  | Version version_msg
  | Open open_msg
  | Close close_msg
  | Read read_msg
  | Write write_msg
  | Lstat lstat_msg
  | Fstat fstat_msg
  | SetStat setstat_msg
  | FSetStat fsetstat_msg
  | OpenDir opendir_msg
  | ReadDir readdir_msg
  | Remove remove_msg
  | MkDir mkdir_msg
  | RmDir rmdir_msg
  | RealPath realpath_msg
  | Stat stat_msg
  | Rename rename_msg
  | ReadLink readlink_msg
  | Symlink symlink_msg
  | Status status_msg
  | Handle handle_msg
  | Data data_msg
  | Name name_msg
  | Attrs attrs_reply_msg
  | Extended extended_msg
  | ExtendedReply extended_reply_msg

definition packet_request_id :: "packet \<Rightarrow> u32" where
  "packet_request_id p =
     (case p of
        Open m \<Rightarrow> open_id m
      | Close m \<Rightarrow> close_id m
      | Read m \<Rightarrow> read_id m
      | Write m \<Rightarrow> write_id m
      | Lstat m \<Rightarrow> lstat_id m
      | Fstat m \<Rightarrow> fstat_id m
      | SetStat m \<Rightarrow> setstat_id m
      | FSetStat m \<Rightarrow> fsetstat_id m
      | OpenDir m \<Rightarrow> opendir_id m
      | ReadDir m \<Rightarrow> readdir_id m
      | Remove m \<Rightarrow> remove_id m
      | MkDir m \<Rightarrow> mkdir_id m
      | RmDir m \<Rightarrow> rmdir_id m
      | RealPath m \<Rightarrow> realpath_id m
      | Stat m \<Rightarrow> stat_id m
      | Rename m \<Rightarrow> rename_id m
      | ReadLink m \<Rightarrow> readlink_id m
      | Symlink m \<Rightarrow> symlink_id m
      | Extended m \<Rightarrow> extended_id m
      | _ \<Rightarrow> 0)"

definition packet_status :: "u32 \<Rightarrow> status_code \<Rightarrow> bytes \<Rightarrow> bytes \<Rightarrow> packet" where
  "packet_status rid code m tag =
     Status \<lparr>status_id = rid, status_status_code = code, status_error_message = m,
       status_language_tag = tag\<rparr>"

definition packet_error :: "u32 \<Rightarrow> status_code \<Rightarrow> packet" where
  "packet_error rid code = packet_status rid code (display_status_code code) (lit ''en-US'')"

section \<open>Reading a packet\<close>

definition read_as :: "('a \<Rightarrow> packet) \<Rightarrow> 'a deserialize \<Rightarrow> packet deserialize" where
  "read_as C de bs = map_ok (\<lambda>(m, rest). (C m, rest)) (from_bytes de bs)"

definition packet_try_from :: "packet deserialize" where
  "packet_try_from bytes =
     result_bind (map_err error_of_try_get (try_get_u8 bytes)) (\<lambda>(ty, bytes).
     if ty = SSH_FXP_INIT then read_as Init de_init bytes
     else if ty = SSH_FXP_VERSION then read_as Version de_version bytes
     else if ty = SSH_FXP_OPEN then read_as Open de_open bytes
     else if ty = SSH_FXP_CLOSE then read_as Close de_close bytes
     else if ty = SSH_FXP_READ then read_as Read de_read bytes
     else if ty = SSH_FXP_WRITE then read_as Write de_write bytes
     else if ty = SSH_FXP_LSTAT then read_as Lstat de_lstat bytes
     else if ty = SSH_FXP_FSTAT then read_as Fstat de_fstat bytes
     else if ty = SSH_FXP_SETSTAT then read_as SetStat de_setstat bytes
     else if ty = SSH_FXP_FSETSTAT then read_as FSetStat de_fsetstat bytes
     else if ty = SSH_FXP_OPENDIR then read_as OpenDir de_opendir bytes
     else if ty = SSH_FXP_READDIR then read_as ReadDir de_readdir bytes
     else if ty = SSH_FXP_REMOVE then read_as Remove de_remove bytes
     else if ty = SSH_FXP_MKDIR then read_as MkDir de_mkdir bytes
     else if ty = SSH_FXP_RMDIR then read_as RmDir de_rmdir bytes
     else if ty = SSH_FXP_REALPATH then read_as RealPath de_realpath bytes
     else if ty = SSH_FXP_STAT then read_as Stat de_stat bytes
     else if ty = SSH_FXP_RENAME then read_as Rename de_rename bytes
     else if ty = SSH_FXP_READLINK then read_as ReadLink de_readlink bytes
     else if ty = SSH_FXP_SYMLINK then read_as Symlink de_symlink bytes
     else if ty = SSH_FXP_STATUS then read_as Status de_status bytes
     else if ty = SSH_FXP_HANDLE then read_as Handle de_handle bytes
     else if ty = SSH_FXP_DATA then read_as Data de_data bytes
     else if ty = SSH_FXP_NAME then read_as Name de_name bytes
     else if ty = SSH_FXP_ATTRS then read_as Attrs de_attrs_reply bytes
     else if ty = SSH_FXP_EXTENDED then read_as Extended de_extended bytes
     else if ty = SSH_FXP_EXTENDED_REPLY then read_as ExtendedReply de_extended_reply bytes
     else Err (BadMessage [Lit ''unknown type'']))"

section \<open>Writing a packet\<close>

definition write_as :: "u8 \<Rightarrow> 'a serialize \<Rightarrow> 'a \<Rightarrow> (u8 \<times> bytes, error) result" where
  "write_as ty ser m = map_ok (\<lambda>payload. (ty, payload)) (to_bytes ser m)"

fun type_and_payload :: "packet \<Rightarrow> (u8 \<times> bytes, error) result" where
  "type_and_payload (Init m) = write_as SSH_FXP_INIT ser_init m"
| "type_and_payload (Version m) = write_as SSH_FXP_VERSION ser_version m"
| "type_and_payload (Open m) = write_as SSH_FXP_OPEN ser_open m"
| "type_and_payload (Close m) = write_as SSH_FXP_CLOSE ser_close m"
| "type_and_payload (Read m) = write_as SSH_FXP_READ ser_read m"
| "type_and_payload (Write m) = write_as SSH_FXP_WRITE ser_write m"
| "type_and_payload (Lstat m) = write_as SSH_FXP_LSTAT ser_lstat m"
| "type_and_payload (Fstat m) = write_as SSH_FXP_FSTAT ser_fstat m"
| "type_and_payload (SetStat m) = write_as SSH_FXP_SETSTAT ser_setstat m"
| "type_and_payload (FSetStat m) = write_as SSH_FXP_FSETSTAT ser_fsetstat m"
| "type_and_payload (OpenDir m) = write_as SSH_FXP_OPENDIR ser_opendir m"
| "type_and_payload (ReadDir m) = write_as SSH_FXP_READDIR ser_readdir m"
| "type_and_payload (Remove m) = write_as SSH_FXP_REMOVE ser_remove m"
| "type_and_payload (MkDir m) = write_as SSH_FXP_MKDIR ser_mkdir m"
| "type_and_payload (RmDir m) = write_as SSH_FXP_RMDIR ser_rmdir m"
| "type_and_payload (RealPath m) = write_as SSH_FXP_REALPATH ser_realpath m"
| "type_and_payload (Stat m) = write_as SSH_FXP_STAT ser_stat m"
| "type_and_payload (Rename m) = write_as SSH_FXP_RENAME ser_rename m"
| "type_and_payload (ReadLink m) = write_as SSH_FXP_READLINK ser_readlink m"
| "type_and_payload (Symlink m) = write_as SSH_FXP_SYMLINK ser_symlink m"
| "type_and_payload (Status m) = write_as SSH_FXP_STATUS ser_status m"
| "type_and_payload (Handle m) = write_as SSH_FXP_HANDLE ser_handle m"
| "type_and_payload (Data m) = write_as SSH_FXP_DATA ser_data m"
| "type_and_payload (Name m) = write_as SSH_FXP_NAME ser_name m"
| "type_and_payload (Attrs m) = write_as SSH_FXP_ATTRS ser_attrs_reply m"
| "type_and_payload (Extended m) = write_as SSH_FXP_EXTENDED ser_extended m"
| "type_and_payload (ExtendedReply m) = write_as SSH_FXP_EXTENDED_REPLY ser_extended_reply m"

text \<open>The length is computed in 32 bits, as \<^verbatim>\<open>payload.len() as u32 + 1\<close> is.\<close>

definition bytes_of_packet :: "packet \<Rightarrow> (bytes, error) result" where
  "bytes_of_packet p =
     result_bind (type_and_payload p) (\<lambda>(ty, payload).
     let n = (of_nat (length payload) :: u32) + 1;
         bytes = put_u32 [] n;
         bytes = put_u8 bytes ty;
         bytes = bytes @ payload
     in Ok bytes)"

section \<open>Layout, limits and what is read back\<close>

fun packet_type :: "packet \<Rightarrow> u8" where
  "packet_type (Init m) = SSH_FXP_INIT"
| "packet_type (Version m) = SSH_FXP_VERSION"
| "packet_type (Open m) = SSH_FXP_OPEN"
| "packet_type (Close m) = SSH_FXP_CLOSE"
| "packet_type (Read m) = SSH_FXP_READ"
| "packet_type (Write m) = SSH_FXP_WRITE"
| "packet_type (Lstat m) = SSH_FXP_LSTAT"
| "packet_type (Fstat m) = SSH_FXP_FSTAT"
| "packet_type (SetStat m) = SSH_FXP_SETSTAT"
| "packet_type (FSetStat m) = SSH_FXP_FSETSTAT"
| "packet_type (OpenDir m) = SSH_FXP_OPENDIR"
| "packet_type (ReadDir m) = SSH_FXP_READDIR"
| "packet_type (Remove m) = SSH_FXP_REMOVE"
| "packet_type (MkDir m) = SSH_FXP_MKDIR"
| "packet_type (RmDir m) = SSH_FXP_RMDIR"
| "packet_type (RealPath m) = SSH_FXP_REALPATH"
| "packet_type (Stat m) = SSH_FXP_STAT"
| "packet_type (Rename m) = SSH_FXP_RENAME"
| "packet_type (ReadLink m) = SSH_FXP_READLINK"
| "packet_type (Symlink m) = SSH_FXP_SYMLINK"
| "packet_type (Status m) = SSH_FXP_STATUS"
| "packet_type (Handle m) = SSH_FXP_HANDLE"
| "packet_type (Data m) = SSH_FXP_DATA"
| "packet_type (Name m) = SSH_FXP_NAME"
| "packet_type (Attrs m) = SSH_FXP_ATTRS"
| "packet_type (Extended m) = SSH_FXP_EXTENDED"
| "packet_type (ExtendedReply m) = SSH_FXP_EXTENDED_REPLY"

fun wire_packet :: "packet \<Rightarrow> bytes" where
  "wire_packet (Init m) = wire_init m"
| "wire_packet (Version m) = wire_version m"
| "wire_packet (Open m) = wire_open m"
| "wire_packet (Close m) = wire_close m"
| "wire_packet (Read m) = wire_read m"
| "wire_packet (Write m) = wire_write m"
| "wire_packet (Lstat m) = wire_lstat m"
| "wire_packet (Fstat m) = wire_fstat m"
| "wire_packet (SetStat m) = wire_setstat m"
| "wire_packet (FSetStat m) = wire_fsetstat m"
| "wire_packet (OpenDir m) = wire_opendir m"
| "wire_packet (ReadDir m) = wire_readdir m"
| "wire_packet (Remove m) = wire_remove m"
| "wire_packet (MkDir m) = wire_mkdir m"
| "wire_packet (RmDir m) = wire_rmdir m"
| "wire_packet (RealPath m) = wire_realpath m"
| "wire_packet (Stat m) = wire_stat m"
| "wire_packet (Rename m) = wire_rename m"
| "wire_packet (ReadLink m) = wire_readlink m"
| "wire_packet (Symlink m) = wire_symlink m"
| "wire_packet (Status m) = wire_status m"
| "wire_packet (Handle m) = wire_handle m"
| "wire_packet (Data m) = wire_data m"
| "wire_packet (Name m) = wire_name m"
| "wire_packet (Attrs m) = wire_attrs_reply m"
| "wire_packet (Extended m) = wire_extended m"
| "wire_packet (ExtendedReply m) = wire_extended_reply m"

fun packet_fits :: "packet \<Rightarrow> bool" where
  "packet_fits (Init m) \<longleftrightarrow> fits_init m"
| "packet_fits (Version m) \<longleftrightarrow> fits_version m"
| "packet_fits (Open m) \<longleftrightarrow> fits_open m"
| "packet_fits (Close m) \<longleftrightarrow> fits_close m"
| "packet_fits (Read m) \<longleftrightarrow> fits_read m"
| "packet_fits (Write m) \<longleftrightarrow> fits_write m"
| "packet_fits (Lstat m) \<longleftrightarrow> fits_lstat m"
| "packet_fits (Fstat m) \<longleftrightarrow> fits_fstat m"
| "packet_fits (SetStat m) \<longleftrightarrow> fits_setstat m"
| "packet_fits (FSetStat m) \<longleftrightarrow> fits_fsetstat m"
| "packet_fits (OpenDir m) \<longleftrightarrow> fits_opendir m"
| "packet_fits (ReadDir m) \<longleftrightarrow> fits_readdir m"
| "packet_fits (Remove m) \<longleftrightarrow> fits_remove m"
| "packet_fits (MkDir m) \<longleftrightarrow> fits_mkdir m"
| "packet_fits (RmDir m) \<longleftrightarrow> fits_rmdir m"
| "packet_fits (RealPath m) \<longleftrightarrow> fits_realpath m"
| "packet_fits (Stat m) \<longleftrightarrow> fits_stat m"
| "packet_fits (Rename m) \<longleftrightarrow> fits_rename m"
| "packet_fits (ReadLink m) \<longleftrightarrow> fits_readlink m"
| "packet_fits (Symlink m) \<longleftrightarrow> fits_symlink m"
| "packet_fits (Status m) \<longleftrightarrow> fits_status m"
| "packet_fits (Handle m) \<longleftrightarrow> fits_handle m"
| "packet_fits (Data m) \<longleftrightarrow> fits_data m"
| "packet_fits (Name m) \<longleftrightarrow> fits_name m"
| "packet_fits (Attrs m) \<longleftrightarrow> fits_attrs_reply m"
| "packet_fits (Extended m) \<longleftrightarrow> fits_extended m"
| "packet_fits (ExtendedReply m) \<longleftrightarrow> fits_extended_reply m"

fun norm_packet :: "packet \<Rightarrow> packet" where
  "norm_packet (Open m) = Open (norm_open m)"
| "norm_packet (SetStat m) = SetStat (norm_setstat m)"
| "norm_packet (FSetStat m) = FSetStat (norm_fsetstat m)"
| "norm_packet (MkDir m) = MkDir (norm_mkdir m)"
| "norm_packet (Name m) = Name (norm_name m)"
| "norm_packet (Attrs m) = Attrs (norm_attrs_reply m)"
| "norm_packet p = p"

lemmas packet_ser_laws =
  init_codec.to_bytes_law
  version_codec.to_bytes_law
  open_codec.message.to_bytes_law
  close_codec.message.to_bytes_law
  read_codec.message.to_bytes_law
  write_codec.message.to_bytes_law
  lstat_codec.message.to_bytes_law
  fstat_codec.message.to_bytes_law
  setstat_codec.message.to_bytes_law
  fsetstat_codec.message.to_bytes_law
  opendir_codec.message.to_bytes_law
  readdir_codec.message.to_bytes_law
  remove_codec.message.to_bytes_law
  mkdir_codec.message.to_bytes_law
  rmdir_codec.message.to_bytes_law
  realpath_codec.message.to_bytes_law
  stat_codec.message.to_bytes_law
  rename_codec.message.to_bytes_law
  readlink_codec.message.to_bytes_law
  symlink_codec.message.to_bytes_law
  status_codec.message.to_bytes_law
  handle_codec.message.to_bytes_law
  data_codec.message.to_bytes_law
  name_codec.message.to_bytes_law
  attrs_reply_codec.message.to_bytes_law
  extended_codec.to_bytes_law
  extended_reply_codec.to_bytes_law

lemmas packet_de_laws =
  init_codec.de_law
  version_codec.de_law
  open_codec.message.de_law
  close_codec.message.de_law
  read_codec.message.de_law
  write_codec.message.de_law
  lstat_codec.message.de_law
  fstat_codec.message.de_law
  setstat_codec.message.de_law
  fsetstat_codec.message.de_law
  opendir_codec.message.de_law
  readdir_codec.message.de_law
  remove_codec.message.de_law
  mkdir_codec.message.de_law
  rmdir_codec.message.de_law
  realpath_codec.message.de_law
  stat_codec.message.de_law
  rename_codec.message.de_law
  readlink_codec.message.de_law
  symlink_codec.message.de_law
  status_codec.message.de_law
  handle_codec.message.de_law
  data_codec.message.de_law
  name_codec.message.de_law
  attrs_reply_codec.message.de_law
  extended_codec.de_law
  extended_reply_codec.de_law

lemma type_and_payload_wire: "type_and_payload p = Ok (packet_type p, wire_packet p)"
  by (cases p) (simp_all add: write_as_def packet_ser_laws)

definition packet_body :: "packet \<Rightarrow> bytes" where
  "packet_body p = packet_type p # wire_packet p"

definition frame :: "bytes \<Rightarrow> bytes" where
  "frame body = to_be 4 (of_nat (length body) :: u32) @ body"

lemma bytes_of_packet_frame: "bytes_of_packet p = Ok (frame (packet_body p))"
  by (simp add: bytes_of_packet_def type_and_payload_wire put_u32_def put_u8_def frame_def
      packet_body_def add.commute)

lemma packet_try_from_body:
  assumes "packet_fits p"
  shows "packet_try_from (packet_body p) = Ok (norm_packet p, [])"
  using assms
  by (cases p)
    (simp_all add: packet_try_from_def packet_body_def try_get_u8_Cons read_as_def from_bytes_def
      packet_de_laws packet_type_defs)

text \<open>Whatever is read as a packet fits the format and is normal: it can be sent on unchanged.\<close>

lemma read_as_reads:
  assumes "reads de F" and "\<And>m. F m \<Longrightarrow> packet_fits (C m) \<and> norm_packet (C m) = C m"
  shows "reads (read_as C de) (\<lambda>p. packet_fits p \<and> norm_packet p = p)"
  using assms by (auto simp: reads_def read_as_def from_bytes_def result_inversions)

lemma reads_if: "reads a P \<Longrightarrow> reads b P \<Longrightarrow> reads (\<lambda>bs. if c then a bs else b bs) P"
  by (simp add: reads_def)

lemma reads_err: "reads (\<lambda>bs. Err e) P"
  by (simp add: reads_def)

lemma reads_type_byte:
  assumes "\<And>ty. reads (k ty) P"
  shows "reads (\<lambda>bs. result_bind (map_err f (try_get_u8 bs)) (case_prod k)) P"
proof (rule readsI)
  fix bs v rest
  assume "short bs" and "result_bind (map_err f (try_get_u8 bs)) (case_prod k) = Ok (v, rest)"
  then obtain ty bs' where "bs = ty # bs'" "k ty bs' = Ok (v, rest)"
    by (cases bs) (auto simp: try_get_u8_Nil try_get_u8_Cons)
  moreover from this have "short bs'" using \<open>short bs\<close> by (simp add: short_def)
  ultimately have "P v" "\<exists>used. bs' = used @ rest" using assms by (auto simp: reads_def)
  then show "P v \<and> (\<exists>used. bs = used @ rest)" using \<open>bs = ty # bs'\<close> by (auto intro: exI [of _ "ty # _"])
qed

lemmas message_reads =
  init_reads version_reads open_reads close_reads read_reads write_reads lstat_reads
  fstat_reads setstat_reads fsetstat_reads opendir_reads readdir_reads remove_reads
  mkdir_reads rmdir_reads realpath_reads stat_reads rename_reads readlink_reads
  symlink_reads status_reads handle_reads data_reads name_reads attrs_reply_reads
  extended_reads extended_reply_reads

lemma packet_reads: "reads packet_try_from (\<lambda>p. packet_fits p \<and> norm_packet p = p)"
  unfolding packet_try_from_def
  by (intro reads_type_byte reads_if reads_err; (rule read_as_reads, rule message_reads, simp))

section \<open>Properties of the packet format\<close>

text \<open>The type bytes of the 27 packet kinds.\<close>

definition known_types :: "u8 list" where
  "known_types = [1, 2, 3, 4, 5, 6, 7, 8, 9, 10, 11, 12, 13, 14, 15, 16, 17, 18, 19, 20,
     101, 102, 103, 104, 105, 200, 201]"

lemma unknown_type:
  "ty \<notin> set known_types \<Longrightarrow>
     packet_try_from (ty # body) = Err (BadMessage [Lit ''unknown type''])"
  by (simp add: packet_try_from_def try_get_u8_Cons packet_type_defs known_types_def)

text \<open>C19: The packet encoder never fails: every packet is written as a big-endian 32-bit length that
  counts the type byte, the type byte of its kind, and the payload of its fields in the order of
  declaration.\<close>

theorem packet_encoding_layout:
  "bytes_of_packet p =
     Ok (to_be 4 (of_nat (length (wire_packet p) + 1) :: u32) @ [packet_type p] @ wire_packet p)"
  by (simp add: bytes_of_packet_frame frame_def packet_body_def)

text \<open>C18: Distinct packets have distinct encodings: two packets that fit the format and are written as
  the same bytes read back as the same packet.\<close>

theorem packet_encoding_injective:
  assumes "packet_fits p" and "packet_fits q" and "bytes_of_packet p = bytes_of_packet q"
  shows "norm_packet p = norm_packet q"
proof -
  have "drop 4 (frame (packet_body p)) = drop 4 (frame (packet_body q))"
    using assms(3) by (simp add: bytes_of_packet_frame)
  then have "packet_body p = packet_body q" by (simp add: frame_def)
  with packet_try_from_body [OF assms(1)] packet_try_from_body [OF assms(2)] show ?thesis by simp
qed

theorem packet_encoding_injective_witness:
  "norm_packet (Fstat \<lparr>fstat_id = 7, fstat_handle = [104]\<rparr>) = Fstat \<lparr>fstat_id = 7, fstat_handle = [104]\<rparr>
   \<and> norm_packet (SetStat \<lparr>setstat_id = 1, setstat_path = [47], setstat_attrs = attrs_empty\<lparr>attr_uid := Some 5\<rparr>\<rparr>)
     = norm_packet (SetStat \<lparr>setstat_id = 1, setstat_path = [47],
         setstat_attrs = attrs_empty\<lparr>attr_uid := Some 5, attr_gid := Some 0\<rparr>\<rparr>)"
  by (rule conjI [OF _ packet_encoding_injective])
    (simp_all add: fits_setstat_def string_fits_def valid_utf8_ascii bytes_of_packet_frame
      packet_body_def wire_setstat_def wire_attrs_def attr_flags_def has_ids_def has_times_def
      attrs_empty_def)

text \<open>C11: Whatever is read as a packet can be sent on: a packet read from a body of less than 1 GiB is
  written as one frame whose body reads back as the very same packet, with nothing left over.\<close>

theorem packet_relay:
  assumes "short body" and "packet_try_from body = Ok (p, rest)"
  shows "bytes_of_packet p = Ok (frame (packet_body p)) \<and> packet_try_from (packet_body p) = Ok (p, [])"
  using readsD(1) [OF packet_reads assms] packet_try_from_body bytes_of_packet_frame by metis

theorem packet_relay_witness:
  "bytes_of_packet (ReadDir \<lparr>readdir_id = 1, readdir_handle = [65]\<rparr>)
     = Ok (frame (packet_body (ReadDir \<lparr>readdir_id = 1, readdir_handle = [65]\<rparr>)))
   \<and> packet_try_from (packet_body (ReadDir \<lparr>readdir_id = 1, readdir_handle = [65]\<rparr>))
     = Ok (ReadDir \<lparr>readdir_id = 1, readdir_handle = [65]\<rparr>, [])"
proof (rule packet_relay)
  let ?p = "ReadDir \<lparr>readdir_id = 1, readdir_handle = [65]\<rparr>"
  show "short (packet_body ?p)"
    by (simp add: short_def packet_body_def wire_readdir_def wire_string_def)
  show "packet_try_from (packet_body ?p) = Ok (?p, [])"
    using packet_try_from_body [of ?p] by (simp add: fits_readdir_def string_fits_def valid_utf8_ascii)
qed

text \<open> A body is rejected without reading further when its type byte is none of the 27 packet
  types, and an empty body is rejected too.\<close>

theorem unknown_packet_rejected:
  assumes "ty \<notin> set known_types"
  shows "packet_try_from (ty # body) = Err (BadMessage [Lit ''unknown type''])"
  using assms by (rule unknown_type)

theorem unknown_packet_rejected_witness:
  "packet_try_from [21, 0, 0, 0, 1] = Err (BadMessage [Lit ''unknown type''])"
  by (rule unknown_packet_rejected) (simp add: known_types_def)

end
