(* ===== verification/Transport.thy ===== *)
theory Transport
  imports Packet
begin

text \<open>
  The byte stream both ends run on, and \<^verbatim>\<open>src/utils.rs\<close>'s \<^verbatim>\<open>read_packet\<close>. A stream is a type
  parameter of the code (\<^verbatim>\<open>S: AsyncRead + AsyncWrite\<close>): here its operations are the record
  \<open>stream_ops\<close>, an argument of every definition that reads or writes. The locale
  \<open>byte_stream\<close> states what they promise while the peer neither fails nor stalls: reads deliver
  the incoming bytes in order and report end of file once too few are left, writes append. The
  buffered \<open>pipe\<close> is such a stream.
\<close>

record 's stream_ops =
  read_u32 :: "'s \<Rightarrow> (u32, io_error) result \<times> 's"
  read_exact :: "'s \<Rightarrow> nat \<Rightarrow> (bytes, io_error) result \<times> 's"
  write_all :: "'s \<Rightarrow> bytes \<Rightarrow> (unit, io_error) result \<times> 's"
  flush :: "'s \<Rightarrow> (unit, io_error) result \<times> 's"

definition eof_error :: io_error where
  "eof_error = \<lparr>io_kind_of = KUnexpectedEof, io_inner = None\<rparr>"

lemma error_of_eof [simp]: "error_of_io eof_error = UnexpectedEof"
  by (simp add: error_of_io_def eof_error_def)

definition read_packet :: "'s stream_ops \<Rightarrow> 's \<Rightarrow> (bytes, error) result \<times> 's" where
  "read_packet ops stream =
     (case read_u32 ops stream of
        (Err e, stream) \<Rightarrow> (Err (error_of_io e), stream)
      | (Ok len, stream) \<Rightarrow>
          (case read_exact ops stream (unat len) of
             (Err e, stream) \<Rightarrow> (Err (error_of_io e), stream)
           | (Ok buf, stream) \<Rightarrow> (Ok buf, stream)))"

section \<open>Frames of a byte sequence\<close>

text \<open>The bodies of the complete frames at the front of a byte sequence.\<close>

function frame_bodies :: "bytes \<Rightarrow> bytes list" where
  "frame_bodies bs =
     (if length bs < 4 then []
      else let n = unat (from_be (take 4 bs) :: u32); rest = drop 4 bs
           in if length rest < n then [] else take n rest # frame_bodies (drop n rest))"
  by pat_completeness auto
termination
  by (relation "measure length") auto

declare frame_bodies.simps [simp del]

definition frame_fits :: "bytes \<Rightarrow> bool" where
  "frame_fits body \<longleftrightarrow> length body < 2 ^ 32"

lemma frame_bodies_frame:
  assumes "frame_fits body"
  shows "frame_bodies (frame body @ rest) = body # frame_bodies rest"
proof -
  have "unat (from_be (to_be 4 (of_nat (length body) :: u32)) :: u32) = length body"
    using assms by (simp add: from_be_to_be unat_of_nat_u32 frame_fits_def)
  then show ?thesis
    by (subst frame_bodies.simps) (simp add: frame_def)
qed

lemma frame_bodies_frames:
  "list_all frame_fits bodies \<Longrightarrow> frame_bodies (concat (map frame bodies) @ rest) = bodies @ frame_bodies rest"
  by (induction bodies) (simp_all add: frame_bodies_frame)

lemma frame_bodies_short: "length bs < 4 \<Longrightarrow> frame_bodies bs = []"
  by (simp add: frame_bodies.simps [of bs])

section \<open>A reliable stream\<close>

locale byte_stream =
  fixes ops :: "'s stream_ops"
    and incoming :: "'s \<Rightarrow> bytes"
    and outgoing :: "'s \<Rightarrow> bytes"
  assumes read_u32_ok: "4 \<le> length (incoming s) \<Longrightarrow>
      \<exists>s'. read_u32 ops s = (Ok (from_be (take 4 (incoming s))), s')
        \<and> incoming s' = drop 4 (incoming s) \<and> outgoing s' = outgoing s"
    and read_u32_eof: "length (incoming s) < 4 \<Longrightarrow>
      \<exists>s'. read_u32 ops s = (Err eof_error, s') \<and> outgoing s' = outgoing s"
    and read_exact_ok: "n \<le> length (incoming s) \<Longrightarrow>
      \<exists>s'. read_exact ops s n = (Ok (take n (incoming s)), s')
        \<and> incoming s' = drop n (incoming s) \<and> outgoing s' = outgoing s"
    and read_exact_eof: "length (incoming s) < n \<Longrightarrow>
      \<exists>s'. read_exact ops s n = (Err eof_error, s') \<and> outgoing s' = outgoing s"
    and write_all_ok: "\<exists>s'. write_all ops s b = (Ok (), s')
        \<and> incoming s' = incoming s \<and> outgoing s' = outgoing s @ b"
    and flush_ok: "\<exists>s'. flush ops s = (Ok (), s')
        \<and> incoming s' = incoming s \<and> outgoing s' = outgoing s"
begin

text \<open>One \<^verbatim>\<open>read_packet\<close> takes the first frame off, or reports the end.\<close>

lemma read_packet_Cons:
  assumes "frame_bodies (incoming s) = body # bodies"
  shows "\<exists>s'. read_packet ops s = (Ok body, s') \<and> frame_bodies (incoming s') = bodies
    \<and> length (incoming s') < length (incoming s) \<and> outgoing s' = outgoing s"
proof -
  let ?n = "unat (from_be (take 4 (incoming s)) :: u32)"
  have len: "4 \<le> length (incoming s)" "?n \<le> length (drop 4 (incoming s))"
    and body: "body = take ?n (drop 4 (incoming s))"
    and bodies: "bodies = frame_bodies (drop ?n (drop 4 (incoming s)))"
    using assms by (auto simp: frame_bodies.simps [of "incoming s"] Let_def split: if_splits)
  obtain s1 where s1: "read_u32 ops s = (Ok (from_be (take 4 (incoming s))), s1)"
      "incoming s1 = drop 4 (incoming s)" "outgoing s1 = outgoing s"
    using read_u32_ok [OF len(1)] by blast
  obtain s2 where s2: "read_exact ops s1 ?n = (Ok (take ?n (incoming s1)), s2)"
      "incoming s2 = drop ?n (incoming s1)" "outgoing s2 = outgoing s1"
    using read_exact_ok [of ?n s1] len(2) s1(2) by auto
  show ?thesis
    using s1 s2 body bodies len(1) by (auto simp: read_packet_def)
qed

lemma read_packet_Nil:
  assumes "frame_bodies (incoming s) = []"
  shows "\<exists>s'. read_packet ops s = (Err UnexpectedEof, s') \<and> outgoing s' = outgoing s"
proof (cases "length (incoming s) < 4")
  case True
  from read_u32_eof [OF this] show ?thesis by (auto simp: read_packet_def)
next
  case False
  let ?n = "unat (from_be (take 4 (incoming s)) :: u32)"
  have short: "length (drop 4 (incoming s)) < ?n"
    using assms False by (auto simp: frame_bodies.simps [of "incoming s"] Let_def split: if_splits)
  obtain s1 where s1: "read_u32 ops s = (Ok (from_be (take 4 (incoming s))), s1)"
      "incoming s1 = drop 4 (incoming s)" "outgoing s1 = outgoing s"
    using read_u32_ok [of s] False by auto
  obtain s2 where "read_exact ops s1 ?n = (Err eof_error, s2)" "outgoing s2 = outgoing s1"
    using read_exact_eof [of s1 ?n] short s1(2) by auto
  with s1 show ?thesis by (auto simp: read_packet_def)
qed

end

section \<open>A pipe\<close>

record pipe =
  pipe_in :: bytes
  pipe_out :: bytes

definition pipe_take :: "nat \<Rightarrow> pipe \<Rightarrow> (bytes, io_error) result \<times> pipe" where
  "pipe_take n p =
     (if length (pipe_in p) < n then (Err eof_error, p\<lparr>pipe_in := []\<rparr>)
      else (Ok (take n (pipe_in p)), p\<lparr>pipe_in := drop n (pipe_in p)\<rparr>))"

definition pipe_ops :: "pipe stream_ops" where
  "pipe_ops =
     \<lparr>read_u32 = (\<lambda>p. case pipe_take 4 p of (r, p) \<Rightarrow> (map_ok from_be r, p)),
      read_exact = (\<lambda>p n. pipe_take n p),
      write_all = (\<lambda>p b. (Ok (), p\<lparr>pipe_out := pipe_out p @ b\<rparr>)),
      flush = (\<lambda>p. (Ok (), p))\<rparr>"

interpretation pipe_stream: byte_stream pipe_ops pipe_in pipe_out
  by unfold_locales (auto simp: pipe_ops_def pipe_take_def)

end
