(* ===== verification/Server.thy ===== *)
theory Server
  imports Transport
begin

text \<open>
  The server: \<^verbatim>\<open>src/server/handler.rs\<close> and \<^verbatim>\<open>src/server/mod.rs\<close>. A handler is the user's
  implementation of the trait: the record \<open>handler\<close> of its methods on a state \<^typ>\<open>'h\<close> and an
  error type \<^typ>\<open>'e\<close> with its conversion to a status code. \<open>default_handler\<close> has the bodies the
  trait provides. \<open>process_request\<close> dispatches a packet, \<open>process_handler\<close> serves one frame of the
  stream, and \<open>server_run\<close> is the loop, which may not return (\<^const>\<open>None\<close>).
\<close>

section \<open>Handlers\<close>

record ('h, 'e) handler =
  h_into_status :: "'e \<Rightarrow> status_code"
  h_unimplemented :: "'h \<Rightarrow> 'e"
  h_init :: "u32 \<Rightarrow> string_map \<Rightarrow> 'h \<Rightarrow> (version_msg, 'e) result \<times> 'h"
  h_open :: "u32 \<Rightarrow> bytes \<Rightarrow> u32 \<Rightarrow> file_attributes \<Rightarrow> 'h \<Rightarrow> (handle_msg, 'e) result \<times> 'h"
  h_close :: "u32 \<Rightarrow> bytes \<Rightarrow> 'h \<Rightarrow> (status_msg, 'e) result \<times> 'h"
  h_read :: "u32 \<Rightarrow> bytes \<Rightarrow> u64 \<Rightarrow> u32 \<Rightarrow> 'h \<Rightarrow> (data_msg, 'e) result \<times> 'h"
  h_write :: "u32 \<Rightarrow> bytes \<Rightarrow> u64 \<Rightarrow> bytes \<Rightarrow> 'h \<Rightarrow> (status_msg, 'e) result \<times> 'h"
  h_lstat :: "u32 \<Rightarrow> bytes \<Rightarrow> 'h \<Rightarrow> (attrs_reply_msg, 'e) result \<times> 'h"
  h_fstat :: "u32 \<Rightarrow> bytes \<Rightarrow> 'h \<Rightarrow> (attrs_reply_msg, 'e) result \<times> 'h"
  h_setstat :: "u32 \<Rightarrow> bytes \<Rightarrow> file_attributes \<Rightarrow> 'h \<Rightarrow> (status_msg, 'e) result \<times> 'h"
  h_fsetstat :: "u32 \<Rightarrow> bytes \<Rightarrow> file_attributes \<Rightarrow> 'h \<Rightarrow> (status_msg, 'e) result \<times> 'h"
  h_opendir :: "u32 \<Rightarrow> bytes \<Rightarrow> 'h \<Rightarrow> (handle_msg, 'e) result \<times> 'h"
  h_readdir :: "u32 \<Rightarrow> bytes \<Rightarrow> 'h \<Rightarrow> (name_msg, 'e) result \<times> 'h"
  h_remove :: "u32 \<Rightarrow> bytes \<Rightarrow> 'h \<Rightarrow> (status_msg, 'e) result \<times> 'h"
  h_mkdir :: "u32 \<Rightarrow> bytes \<Rightarrow> file_attributes \<Rightarrow> 'h \<Rightarrow> (status_msg, 'e) result \<times> 'h"
  h_rmdir :: "u32 \<Rightarrow> bytes \<Rightarrow> 'h \<Rightarrow> (status_msg, 'e) result \<times> 'h"
  h_realpath :: "u32 \<Rightarrow> bytes \<Rightarrow> 'h \<Rightarrow> (name_msg, 'e) result \<times> 'h"
  h_stat :: "u32 \<Rightarrow> bytes \<Rightarrow> 'h \<Rightarrow> (attrs_reply_msg, 'e) result \<times> 'h"
  h_rename :: "u32 \<Rightarrow> bytes \<Rightarrow> bytes \<Rightarrow> 'h \<Rightarrow> (status_msg, 'e) result \<times> 'h"
  h_readlink :: "u32 \<Rightarrow> bytes \<Rightarrow> 'h \<Rightarrow> (name_msg, 'e) result \<times> 'h"
  h_symlink :: "u32 \<Rightarrow> bytes \<Rightarrow> bytes \<Rightarrow> 'h \<Rightarrow> (status_msg, 'e) result \<times> 'h"
  h_extended :: "u32 \<Rightarrow> bytes \<Rightarrow> bytes \<Rightarrow> 'h \<Rightarrow> (packet, 'e) result \<times> 'h"

definition version_new :: version_msg where
  "version_new = \<lparr>version_version = VERSION, version_extensions = []\<rparr>"

definition init_new :: init_msg where
  "init_new = \<lparr>init_version = VERSION, init_extensions = []\<rparr>"

text \<open>The methods the trait provides: all but \<^verbatim>\<open>init\<close> ask \<^verbatim>\<open>unimplemented\<close> for their error.\<close>

definition default_init ::
  "u32 \<Rightarrow> string_map \<Rightarrow> 'h \<Rightarrow> (version_msg, 'e) result \<times> 'h" where
  "default_init version extensions h = (Ok version_new, h)"

definition default_open ::
  "('h \<Rightarrow> 'e) \<Rightarrow> u32 \<Rightarrow> bytes \<Rightarrow> u32 \<Rightarrow> file_attributes \<Rightarrow> 'h \<Rightarrow> (handle_msg, 'e) result \<times> 'h" where
  "default_open unimplemented rid filename pflags attrs h = (let err = unimplemented h in (Err err, h))"

definition default_close ::
  "('h \<Rightarrow> 'e) \<Rightarrow> u32 \<Rightarrow> bytes \<Rightarrow> 'h \<Rightarrow> (status_msg, 'e) result \<times> 'h" where
  "default_close unimplemented rid handle h = (let err = unimplemented h in (Err err, h))"

definition default_read ::
  "('h \<Rightarrow> 'e) \<Rightarrow> u32 \<Rightarrow> bytes \<Rightarrow> u64 \<Rightarrow> u32 \<Rightarrow> 'h \<Rightarrow> (data_msg, 'e) result \<times> 'h" where
  "default_read unimplemented rid handle offset n h = (let err = unimplemented h in (Err err, h))"

definition default_write ::
  "('h \<Rightarrow> 'e) \<Rightarrow> u32 \<Rightarrow> bytes \<Rightarrow> u64 \<Rightarrow> bytes \<Rightarrow> 'h \<Rightarrow> (status_msg, 'e) result \<times> 'h" where
  "default_write unimplemented rid handle offset data h = (let err = unimplemented h in (Err err, h))"

definition default_lstat ::
  "('h \<Rightarrow> 'e) \<Rightarrow> u32 \<Rightarrow> bytes \<Rightarrow> 'h \<Rightarrow> (attrs_reply_msg, 'e) result \<times> 'h" where
  "default_lstat unimplemented rid path h = (let err = unimplemented h in (Err err, h))"

definition default_fstat ::
  "('h \<Rightarrow> 'e) \<Rightarrow> u32 \<Rightarrow> bytes \<Rightarrow> 'h \<Rightarrow> (attrs_reply_msg, 'e) result \<times> 'h" where
  "default_fstat unimplemented rid handle h = (let err = unimplemented h in (Err err, h))"

definition default_setstat ::
  "('h \<Rightarrow> 'e) \<Rightarrow> u32 \<Rightarrow> bytes \<Rightarrow> file_attributes \<Rightarrow> 'h \<Rightarrow> (status_msg, 'e) result \<times> 'h" where
  "default_setstat unimplemented rid path attrs h = (let err = unimplemented h in (Err err, h))"

definition default_fsetstat ::
  "('h \<Rightarrow> 'e) \<Rightarrow> u32 \<Rightarrow> bytes \<Rightarrow> file_attributes \<Rightarrow> 'h \<Rightarrow> (status_msg, 'e) result \<times> 'h" where
  "default_fsetstat unimplemented rid handle attrs h = (let err = unimplemented h in (Err err, h))"

definition default_opendir ::
  "('h \<Rightarrow> 'e) \<Rightarrow> u32 \<Rightarrow> bytes \<Rightarrow> 'h \<Rightarrow> (handle_msg, 'e) result \<times> 'h" where
  "default_opendir unimplemented rid path h = (let err = unimplemented h in (Err err, h))"

definition default_readdir ::
  "('h \<Rightarrow> 'e) \<Rightarrow> u32 \<Rightarrow> bytes \<Rightarrow> 'h \<Rightarrow> (name_msg, 'e) result \<times> 'h" where
  "default_readdir unimplemented rid handle h = (let err = unimplemented h in (Err err, h))"

definition default_remove ::
  "('h \<Rightarrow> 'e) \<Rightarrow> u32 \<Rightarrow> bytes \<Rightarrow> 'h \<Rightarrow> (status_msg, 'e) result \<times> 'h" where
  "default_remove unimplemented rid filename h = (let err = unimplemented h in (Err err, h))"

definition default_mkdir ::
  "('h \<Rightarrow> 'e) \<Rightarrow> u32 \<Rightarrow> bytes \<Rightarrow> file_attributes \<Rightarrow> 'h \<Rightarrow> (status_msg, 'e) result \<times> 'h" where
  "default_mkdir unimplemented rid path attrs h = (let err = unimplemented h in (Err err, h))"

definition default_rmdir ::
  "('h \<Rightarrow> 'e) \<Rightarrow> u32 \<Rightarrow> bytes \<Rightarrow> 'h \<Rightarrow> (status_msg, 'e) result \<times> 'h" where
  "default_rmdir unimplemented rid path h = (let err = unimplemented h in (Err err, h))"

definition default_realpath ::
  "('h \<Rightarrow> 'e) \<Rightarrow> u32 \<Rightarrow> bytes \<Rightarrow> 'h \<Rightarrow> (name_msg, 'e) result \<times> 'h" where
  "default_realpath unimplemented rid path h = (let err = unimplemented h in (Err err, h))"

definition default_stat ::
  "('h \<Rightarrow> 'e) \<Rightarrow> u32 \<Rightarrow> bytes \<Rightarrow> 'h \<Rightarrow> (attrs_reply_msg, 'e) result \<times> 'h" where
  "default_stat unimplemented rid path h = (let err = unimplemented h in (Err err, h))"

definition default_rename ::
  "('h \<Rightarrow> 'e) \<Rightarrow> u32 \<Rightarrow> bytes \<Rightarrow> bytes \<Rightarrow> 'h \<Rightarrow> (status_msg, 'e) result \<times> 'h" where
  "default_rename unimplemented rid oldpath newpath h = (let err = unimplemented h in (Err err, h))"

definition default_readlink ::
  "('h \<Rightarrow> 'e) \<Rightarrow> u32 \<Rightarrow> bytes \<Rightarrow> 'h \<Rightarrow> (name_msg, 'e) result \<times> 'h" where
  "default_readlink unimplemented rid path h = (let err = unimplemented h in (Err err, h))"

definition default_symlink ::
  "('h \<Rightarrow> 'e) \<Rightarrow> u32 \<Rightarrow> bytes \<Rightarrow> bytes \<Rightarrow> 'h \<Rightarrow> (status_msg, 'e) result \<times> 'h" where
  "default_symlink unimplemented rid linkpath targetpath h = (let err = unimplemented h in (Err err, h))"

definition default_extended ::
  "('h \<Rightarrow> 'e) \<Rightarrow> u32 \<Rightarrow> bytes \<Rightarrow> bytes \<Rightarrow> 'h \<Rightarrow> (packet, 'e) result \<times> 'h" where
  "default_extended unimplemented rid request data h = (let err = unimplemented h in (Err err, h))"

definition default_handler :: "('e \<Rightarrow> status_code) \<Rightarrow> ('h \<Rightarrow> 'e) \<Rightarrow> ('h, 'e) handler" where
  "default_handler into_status unimplemented =
     \<lparr>h_into_status = into_status, h_unimplemented = unimplemented, h_init = default_init,
      h_open = default_open unimplemented, h_close = default_close unimplemented,
      h_read = default_read unimplemented, h_write = default_write unimplemented,
      h_lstat = default_lstat unimplemented, h_fstat = default_fstat unimplemented,
      h_setstat = default_setstat unimplemented, h_fsetstat = default_fsetstat unimplemented,
      h_opendir = default_opendir unimplemented, h_readdir = default_readdir unimplemented,
      h_remove = default_remove unimplemented, h_mkdir = default_mkdir unimplemented,
      h_rmdir = default_rmdir unimplemented, h_realpath = default_realpath unimplemented,
      h_stat = default_stat unimplemented, h_rename = default_rename unimplemented,
      h_readlink = default_readlink unimplemented, h_symlink = default_symlink unimplemented,
      h_extended = default_extended unimplemented\<rparr>"

lemmas default_methods = default_init_def default_open_def default_close_def default_read_def
  default_write_def default_lstat_def default_fstat_def default_setstat_def default_fsetstat_def
  default_opendir_def default_readdir_def default_remove_def default_mkdir_def default_rmdir_def
  default_realpath_def default_stat_def default_rename_def default_readlink_def
  default_symlink_def default_extended_def

declare default_methods [simp]

section \<open>One request\<close>

definition into_wrap ::
  "('h, 'e) handler \<Rightarrow> u32 \<Rightarrow> ('r \<Rightarrow> packet) \<Rightarrow> ('r, 'e) result \<times> 'h \<Rightarrow> packet \<times> 'h" where
  "into_wrap H rid into r =
     (case r of
        (Err err, h) \<Rightarrow> (packet_error rid (h_into_status H err), h)
      | (Ok packet, h) \<Rightarrow> (into packet, h))"

definition process_request :: "('h, 'e) handler \<Rightarrow> packet \<Rightarrow> 'h \<Rightarrow> packet \<times> 'h" where
  "process_request H packet h =
     (let rid = packet_request_id packet in
      case packet of
        Init m \<Rightarrow> into_wrap H rid Version (h_init H (init_version m) (init_extensions m) h)
      | Open m \<Rightarrow> into_wrap H rid Handle
          (h_open H (open_id m) (open_filename m) (open_pflags m) (open_attrs m) h)
      | Close m \<Rightarrow> into_wrap H rid Status (h_close H (close_id m) (close_handle m) h)
      | Read m \<Rightarrow> into_wrap H rid Data
          (h_read H (read_id m) (read_handle m) (read_offset m) (read_len m) h)
      | Write m \<Rightarrow> into_wrap H rid Status
          (h_write H (write_id m) (write_handle m) (write_offset m) (write_data m) h)
      | Lstat m \<Rightarrow> into_wrap H rid Attrs (h_lstat H (lstat_id m) (lstat_path m) h)
      | Fstat m \<Rightarrow> into_wrap H rid Attrs (h_fstat H (fstat_id m) (fstat_handle m) h)
      | SetStat m \<Rightarrow> into_wrap H rid Status
          (h_setstat H (setstat_id m) (setstat_path m) (setstat_attrs m) h)
      | FSetStat m \<Rightarrow> into_wrap H rid Status
          (h_fsetstat H (fsetstat_id m) (fsetstat_handle m) (fsetstat_attrs m) h)
      | OpenDir m \<Rightarrow> into_wrap H rid Handle
          (h_opendir H (opendir_id m) (opendir_path m) h)
      | ReadDir m \<Rightarrow> into_wrap H rid Name
          (h_readdir H (readdir_id m) (readdir_handle m) h)
      | Remove m \<Rightarrow> into_wrap H rid Status
          (h_remove H (remove_id m) (remove_filename m) h)
      | MkDir m \<Rightarrow> into_wrap H rid Status
          (h_mkdir H (mkdir_id m) (mkdir_path m) (mkdir_attrs m) h)
      | RmDir m \<Rightarrow> into_wrap H rid Status (h_rmdir H (rmdir_id m) (rmdir_path m) h)
      | RealPath m \<Rightarrow> into_wrap H rid Name
          (h_realpath H (realpath_id m) (realpath_path m) h)
      | Stat m \<Rightarrow> into_wrap H rid Attrs (h_stat H (stat_id m) (stat_path m) h)
      | Rename m \<Rightarrow> into_wrap H rid Status
          (h_rename H (rename_id m) (rename_oldpath m) (rename_newpath m) h)
      | ReadLink m \<Rightarrow> into_wrap H rid Name
          (h_readlink H (readlink_id m) (readlink_path m) h)
      | Symlink m \<Rightarrow> into_wrap H rid Status
          (h_symlink H (symlink_id m) (symlink_linkpath m) (symlink_targetpath m) h)
      | Extended m \<Rightarrow> into_wrap H rid id
          (h_extended H (extended_id m) (extended_request m) (extended_data m) h)
      | _ \<Rightarrow> (packet_error 0 SC_BadMessage, h))"

section \<open>One frame, and the loop\<close>

definition process_handler ::
  "'s stream_ops \<Rightarrow> ('h, 'e) handler \<Rightarrow> 's \<Rightarrow> 'h \<Rightarrow> (unit, error) result \<times> 's \<times> 'h" where
  "process_handler ops H stream h =
     (case read_packet ops stream of
        (Err e, stream) \<Rightarrow> (Err e, stream, h)
      | (Ok bytes, stream) \<Rightarrow>
          let (response, h) =
                (case packet_try_from bytes of
                   Ok (request, _) \<Rightarrow> process_request H request h
                 | Err _ \<Rightarrow> (packet_error 0 SC_BadMessage, h))
          in case bytes_of_packet response of
               Err e \<Rightarrow> (Err e, stream, h)
             | Ok packet \<Rightarrow>
                 (case write_all ops stream packet of
                    (Err e, stream) \<Rightarrow> (Err (error_of_io e), stream, h)
                  | (Ok _, stream) \<Rightarrow>
                      (case flush ops stream of
                         (Err e, stream) \<Rightarrow> (Err (error_of_io e), stream, h)
                       | (Ok _, stream) \<Rightarrow> (Ok (), stream, h))))"

partial_function (option) server_run ::
  "'s stream_ops \<Rightarrow> ('h, 'e) handler \<Rightarrow> 's \<Rightarrow> 'h \<Rightarrow> ('s \<times> 'h) option" where
  "server_run ops H stream h =
     (case process_handler ops H stream h of
        (r, stream, h) \<Rightarrow>
          if r = Err UnexpectedEof then Some (stream, h) else server_run ops H stream h)"

section \<open>The promise: one response for each frame, in order\<close>

definition respond :: "('h, 'e) handler \<Rightarrow> bytes \<Rightarrow> 'h \<Rightarrow> packet \<times> 'h" where
  "respond H body h =
     (case packet_try_from body of
        Ok (request, _) \<Rightarrow> process_request H request h
      | Err _ \<Rightarrow> (packet_error 0 SC_BadMessage, h))"

fun serve :: "('h, 'e) handler \<Rightarrow> bytes list \<Rightarrow> 'h \<Rightarrow> packet list \<times> 'h" where
  "serve H [] h = ([], h)"
| "serve H (body # bodies) h =
     (let (response, h) = respond H body h; (responses, h) = serve H bodies h
      in (response # responses, h))"

definition frames_of :: "packet list \<Rightarrow> bytes" where
  "frames_of ps = concat (map (\<lambda>p. frame (packet_body p)) ps)"

lemma serve_Cons:
  "serve H (body # bodies) h =
     (fst (respond H body h) # fst (serve H bodies (snd (respond H body h))),
      snd (serve H bodies (snd (respond H body h))))"
  by (simp add: case_prod_unfold Let_def)

declare serve.simps(2) [simp del]

lemma length_serve: "length (fst (serve H bodies h)) = length bodies"
  by (induction bodies arbitrary: h) (simp_all add: serve_Cons)

lemma process_handler_read:
  assumes "read_packet ops s = (Ok body, s1)"
    and "write_all ops s1 (frame (packet_body (fst (respond H body h)))) = (Ok (), s2)"
    and "flush ops s2 = (Ok (), s3)"
  shows "process_handler ops H s h = (Ok (), s3, snd (respond H body h))"
proof -
  obtain p h' where r: "respond H body h = (p, h')" by (cases "respond H body h")
  then have "(case packet_try_from body of
      Ok (request, _) \<Rightarrow> process_request H request h
    | Err _ \<Rightarrow> (packet_error 0 SC_BadMessage, h)) = (p, h')"
    by (simp add: respond_def)
  then show ?thesis
    using assms r by (simp add: process_handler_def bytes_of_packet_frame)
qed

lemma frames_of_simps [simp]:
  "frames_of [] = []"
  "frames_of (p # ps) = frame (packet_body p) @ frames_of ps"
  by (simp_all add: frames_of_def)

fun handle_all :: "('h, 'e) handler \<Rightarrow> packet list \<Rightarrow> 'h \<Rightarrow> packet list \<times> 'h" where
  "handle_all H [] h = ([], h)"
| "handle_all H (q # qs) h =
     (let (response, h) = process_request H q h; (responses, h) = handle_all H qs h
      in (response # responses, h))"

lemma serve_packet_bodies:
  "list_all (\<lambda>p. packet_fits p \<and> frame_fits (packet_body p)) ps \<Longrightarrow>
     serve H (map packet_body ps) h = handle_all H (map norm_packet ps) h"
  by (induction ps arbitrary: h)
    (simp_all add: serve_Cons respond_def packet_try_from_body case_prod_unfold Let_def)

context byte_stream
begin

lemma process_handler_frame:
  assumes "frame_bodies (incoming s) = body # bodies"
  shows "\<exists>s'. process_handler ops H s h = (Ok (), s', snd (respond H body h))
    \<and> frame_bodies (incoming s') = bodies
    \<and> outgoing s' = outgoing s @ frame (packet_body (fst (respond H body h)))"
proof -
  let ?out = "frame (packet_body (fst (respond H body h)))"
  obtain s1 where s1: "read_packet ops s = (Ok body, s1)" "frame_bodies (incoming s1) = bodies"
      "outgoing s1 = outgoing s"
    using read_packet_Cons [OF assms] by blast
  obtain s2 where s2: "write_all ops s1 ?out = (Ok (), s2)" "incoming s2 = incoming s1"
      "outgoing s2 = outgoing s1 @ ?out"
    using write_all_ok by blast
  obtain s3 where s3: "flush ops s2 = (Ok (), s3)" "incoming s3 = incoming s2"
      "outgoing s3 = outgoing s2"
    using flush_ok by blast
  show ?thesis
    using process_handler_read [OF s1(1) s2(1) s3(1)] s1 s2 s3 by auto
qed

lemma process_handler_end:
  assumes "frame_bodies (incoming s) = []"
  shows "\<exists>s'. process_handler ops H s h = (Err UnexpectedEof, s', h) \<and> outgoing s' = outgoing s"
  using read_packet_Nil [OF assms] by (auto simp: process_handler_def)

lemma server_run_serves:
  "\<exists>s'. server_run ops H s h = Some (s', snd (serve H (frame_bodies (incoming s)) h))
    \<and> outgoing s' = outgoing s @ frames_of (fst (serve H (frame_bodies (incoming s)) h))"
proof (induction "frame_bodies (incoming s)" arbitrary: s h)
  case Nil
  then show ?case
    using process_handler_end [of s H h] by (auto simp: server_run.simps [of ops H s h])
next
  case (Cons body bodies)
  obtain s1 where s1: "process_handler ops H s h = (Ok (), s1, snd (respond H body h))"
      "frame_bodies (incoming s1) = bodies"
      "outgoing s1 = outgoing s @ frame (packet_body (fst (respond H body h)))"
    using process_handler_frame [OF Cons.hyps(2) [symmetric], of H h] by blast
  obtain s2 where "server_run ops H s1 (snd (respond H body h))
        = Some (s2, snd (serve H bodies (snd (respond H body h))))"
      "outgoing s2 = outgoing s1 @ frames_of (fst (serve H bodies (snd (respond H body h))))"
    using Cons.hyps(1) [OF s1(2) [symmetric], of "snd (respond H body h)"] s1(2) by auto
  then show ?case
    using s1 Cons.hyps(2) [symmetric]
    by (auto simp: server_run.simps [of ops H s h] serve_Cons)
qed

end

section \<open>The answer carries the id of the request\<close>

text \<open>The kinds of packets a client sends with a request id, and the id a response carries.\<close>

fun is_request :: "packet \<Rightarrow> bool" where
  "is_request (Open m) \<longleftrightarrow> True"
| "is_request (Close m) \<longleftrightarrow> True"
| "is_request (Read m) \<longleftrightarrow> True"
| "is_request (Write m) \<longleftrightarrow> True"
| "is_request (Lstat m) \<longleftrightarrow> True"
| "is_request (Fstat m) \<longleftrightarrow> True"
| "is_request (SetStat m) \<longleftrightarrow> True"
| "is_request (FSetStat m) \<longleftrightarrow> True"
| "is_request (OpenDir m) \<longleftrightarrow> True"
| "is_request (ReadDir m) \<longleftrightarrow> True"
| "is_request (Remove m) \<longleftrightarrow> True"
| "is_request (MkDir m) \<longleftrightarrow> True"
| "is_request (RmDir m) \<longleftrightarrow> True"
| "is_request (RealPath m) \<longleftrightarrow> True"
| "is_request (Stat m) \<longleftrightarrow> True"
| "is_request (Rename m) \<longleftrightarrow> True"
| "is_request (ReadLink m) \<longleftrightarrow> True"
| "is_request (Symlink m) \<longleftrightarrow> True"
| "is_request (Extended m) \<longleftrightarrow> True"
| "is_request _ \<longleftrightarrow> False"

fun response_id :: "packet \<Rightarrow> u32 option" where
  "response_id (Status m) = Some (status_id m)"
| "response_id (Handle m) = Some (handle_id m)"
| "response_id (Data m) = Some (data_id m)"
| "response_id (Name m) = Some (name_id m)"
| "response_id (Attrs m) = Some (attrs_reply_id m)"
| "response_id (ExtendedReply m) = Some (extended_reply_id m)"
| "response_id _ = None"

text \<open>What a frame's response must be: the request's own id, or a bad-message status when the frame
  is no request.\<close>

definition answers :: "bytes \<Rightarrow> packet \<Rightarrow> bool" where
  "answers body response \<longleftrightarrow>
     (case packet_try_from body of
        Err _ \<Rightarrow> response = packet_error 0 SC_BadMessage
      | Ok (Init m, _) \<Rightarrow> (\<exists>v. response = Version v) \<or> (\<exists>c. response = packet_error 0 c)
      | Ok (q, _) \<Rightarrow>
          if is_request q then response_id response = Some (packet_request_id q)
          else response = packet_error 0 SC_BadMessage)"

lemma packet_type_init: "packet_type q = SSH_FXP_INIT \<longleftrightarrow> (\<exists>m. q = Init m)"
  by (cases q) (simp_all add: packet_type_defs)

lemma process_request_other:
  assumes "\<not> is_request q" and "\<nexists>m. q = Init m"
  shows "process_request H q h = (packet_error 0 SC_BadMessage, h)"
  using assms by (cases q) (simp_all add: process_request_def Let_def)

text \<open>The contract of a handler: a successful reply is built with the id it was given.\<close>

locale echo_handler =
  fixes H :: "('h, 'e) handler"
  assumes
    open_echo: "h_open H i ope1 ope2 ope3 h = (Ok rh, h') \<Longrightarrow> handle_id rh = i"
    and close_echo: "h_close H i clo1 h = (Ok rs, h') \<Longrightarrow> status_id rs = i"
    and read_echo: "h_read H i rea1 rea2 rea3 h = (Ok rd, h') \<Longrightarrow> data_id rd = i"
    and write_echo: "h_write H i wri1 wri2 wri3 h = (Ok rs, h') \<Longrightarrow> status_id rs = i"
    and lstat_echo: "h_lstat H i lst1 h = (Ok ra, h') \<Longrightarrow> attrs_reply_id ra = i"
    and fstat_echo: "h_fstat H i fst1 h = (Ok ra, h') \<Longrightarrow> attrs_reply_id ra = i"
    and setstat_echo: "h_setstat H i set1 set2 h = (Ok rs, h') \<Longrightarrow> status_id rs = i"
    and fsetstat_echo: "h_fsetstat H i fse1 fse2 h = (Ok rs, h') \<Longrightarrow> status_id rs = i"
    and opendir_echo: "h_opendir H i ope1 h = (Ok rh, h') \<Longrightarrow> handle_id rh = i"
    and readdir_echo: "h_readdir H i rea1 h = (Ok rn, h') \<Longrightarrow> name_id rn = i"
    and remove_echo: "h_remove H i rem1 h = (Ok rs, h') \<Longrightarrow> status_id rs = i"
    and mkdir_echo: "h_mkdir H i mkd1 mkd2 h = (Ok rs, h') \<Longrightarrow> status_id rs = i"
    and rmdir_echo: "h_rmdir H i rmd1 h = (Ok rs, h') \<Longrightarrow> status_id rs = i"
    and realpath_echo: "h_realpath H i rea1 h = (Ok rn, h') \<Longrightarrow> name_id rn = i"
    and stat_echo: "h_stat H i sta1 h = (Ok ra, h') \<Longrightarrow> attrs_reply_id ra = i"
    and rename_echo: "h_rename H i ren1 ren2 h = (Ok rs, h') \<Longrightarrow> status_id rs = i"
    and readlink_echo: "h_readlink H i rea1 h = (Ok rn, h') \<Longrightarrow> name_id rn = i"
    and symlink_echo: "h_symlink H i sym1 sym2 h = (Ok rs, h') \<Longrightarrow> status_id rs = i"
    and extended_echo: "h_extended H i ext1 ext2 h = (Ok rp, h') \<Longrightarrow> response_id rp = Some i"
begin

lemmas echoes = open_echo close_echo read_echo write_echo lstat_echo fstat_echo
  setstat_echo fsetstat_echo opendir_echo readdir_echo remove_echo mkdir_echo
  rmdir_echo realpath_echo stat_echo rename_echo readlink_echo symlink_echo
  extended_echo

lemma into_wrap_echo:
  assumes "\<And>r h'. res = (Ok r, h') \<Longrightarrow> response_id (into r) = Some rid"
  shows "response_id (fst (into_wrap H rid into res)) = Some rid"
proof (cases res)
  case (Pair q h')
  with assms show ?thesis
    by (cases q) (simp_all add: into_wrap_def packet_error_def packet_status_def)
qed

lemma process_request_echo:
  assumes "is_request q"
  shows "response_id (fst (process_request H q h)) = Some (packet_request_id q)"
  using assms
  by (cases q)
    (simp_all add: process_request_def packet_request_id_def Let_def into_wrap_echo echoes)

lemma process_request_init:
  "(\<exists>v. fst (process_request H (Init m) h) = Version v)
   \<or> (\<exists>c. fst (process_request H (Init m) h) = packet_error 0 c)"
  by (cases "h_init H (init_version m) (init_extensions m) h"; cases "fst (h_init H (init_version m) (init_extensions m) h)")
    (auto simp: process_request_def packet_request_id_def into_wrap_def Let_def)

lemma respond_answers: "answers body (fst (respond H body h))"
proof (cases "packet_try_from body")
  case (Err e)
  then show ?thesis by (simp add: answers_def respond_def)
next
  case (Ok qr)
  obtain q rest where qr: "qr = (q, rest)" by fastforce
  show ?thesis
  proof (cases "is_request q \<or> (\<exists>m. q = Init m)")
    case True
    then show ?thesis
      using Ok qr process_request_echo [of q h] process_request_init
      by (auto simp: answers_def respond_def split: packet.splits)
  next
    case False
    then show ?thesis
      using Ok qr process_request_other [of q H h]
      by (auto simp: answers_def respond_def split: packet.splits)
  qed
qed

lemma serve_answers: "list_all2 answers bodies (fst (serve H bodies h))"
  by (induction bodies arbitrary: h) (simp_all add: serve_Cons respond_answers)

end

interpretation default_echo: echo_handler "default_handler into_status unimplemented"
  by unfold_locales (simp_all add: default_handler_def)

text \<open>A stream that keeps failing with anything but an end of file keeps the loop running.\<close>

lemma server_run_diverges:
  assumes fails: "\<And>s. \<exists>s'. read_u32 ops s = (Err e, s')" and e: "error_of_io e \<noteq> UnexpectedEof"
  shows "server_run ops H s h = None"
proof (rule ccontr)
  assume "server_run ops H s h \<noteq> None"
  then obtain r where "server_run ops H s h = Some r" by blast
  then show False
  proof (rule server_run.raw_induct [where P = "\<lambda>o1 H1 s h r. o1 = ops \<longrightarrow> False",
        rule_format, rotated, OF _ refl])
    fix f :: "'a stream_ops \<Rightarrow> ('b, 'c) handler \<Rightarrow> 'a \<Rightarrow> 'b \<Rightarrow> ('a \<times> 'b) option"
    fix o1 H1 s h r
    assume IH: "\<And>o1 H1 s h r. f o1 H1 s h = Some r \<Longrightarrow> o1 = ops \<Longrightarrow> False"
      and step: "(case process_handler o1 H1 s h of (r, stream, h) \<Rightarrow>
          if r = Err UnexpectedEof then Some (stream, h) else f o1 H1 stream h) = Some r"
      and "o1 = ops"
    obtain s' where "read_u32 ops s = (Err e, s')" using fails by blast
    then have "process_handler o1 H1 s h = (Err (error_of_io e), s', h)"
      by (simp add: process_handler_def read_packet_def \<open>o1 = ops\<close>)
    with step e have "f o1 H1 s' h = Some r" by simp
    then show False using IH \<open>o1 = ops\<close> by blast
  qed
qed

lemma frame_bodies_are_short:
  "short bs \<Longrightarrow> body \<in> set (frame_bodies bs) \<Longrightarrow> short body"
proof (induction bs rule: frame_bodies.induct)
  case (1 bs)
  show ?case
  proof (cases "length bs < 4 \<or> length (drop 4 bs) < unat (from_be (take 4 bs) :: u32)")
    case True
    then show ?thesis using "1.prems" by (auto simp: frame_bodies.simps [of bs] Let_def split: if_splits)
  next
    case False
    then have "body = take (unat (from_be (take 4 bs) :: u32)) (drop 4 bs)
        \<or> body \<in> set (frame_bodies (drop (unat (from_be (take 4 bs) :: u32)) (drop 4 bs)))"
      using "1.prems"(2) by (simp add: frame_bodies.simps [of bs] Let_def split: if_splits)
    then show ?thesis
      using "1.IH" "1.prems"(1) False by (auto simp: short_def)
  qed
qed

lemma respond_invariant:
  assumes "\<And>p h. packet_fits p \<Longrightarrow> norm_packet p = p \<Longrightarrow> Q h \<Longrightarrow> Q (snd (process_request H p h))"
    and "Q h" and "short body"
  shows "Q (snd (respond H body h))"
proof (cases "packet_try_from body")
  case (Ok q)
  then obtain p rest where p: "packet_try_from body = Ok (p, rest)" by (cases q) auto
  then have "packet_fits p \<and> norm_packet p = p"
    using packet_reads assms(3) unfolding reads_def by blast
  then show ?thesis using assms(1,2) p by (simp add: respond_def)
qed (simp add: respond_def assms(2))

lemma serve_invariant:
  assumes "\<And>p h. packet_fits p \<Longrightarrow> norm_packet p = p \<Longrightarrow> Q h \<Longrightarrow> Q (snd (process_request H p h))"
    and "Q h" and "\<And>body. body \<in> set bodies \<Longrightarrow> short body"
  shows "Q (snd (serve H bodies h))"
  using assms(2,3)
proof (induction bodies arbitrary: h)
  case (Cons body bodies)
  then show ?case
    using respond_invariant [where Q = Q and H = H and body = body, OF assms(1)] by (simp add: serve_Cons)
qed simp


section \<open>Properties of the server\<close>

text \<open>C1: The server loop meets its specification on every input: whatever bytes arrive before the end
  of the stream, it returns, having handled the complete frames in order, one handler state after
  the other, and having written exactly one response frame for each of them.\<close>

theorem server_run_refines_serve:
  "\<exists>s'. server_run pipe_ops H \<lparr>pipe_in = inp, pipe_out = out\<rparr> h
      = Some (s', snd (serve H (frame_bodies inp) h))
    \<and> pipe_out s' = out @ frames_of (fst (serve H (frame_bodies inp) h))
    \<and> length (fst (serve H (frame_bodies inp) h)) = length (frame_bodies inp)"
  using pipe_stream.server_run_serves [of H "\<lparr>pipe_in = inp, pipe_out = out\<rparr>" h]
  by (simp add: length_serve)

text \<open>C2: Requests sent as frames reach the handler as they were sent: for any list of packets that fit,
  the server run on their encodings answers each with what the handler makes of the packet
  (attributes completed), in order.\<close>

theorem server_handles_sent_requests:
  assumes "list_all (\<lambda>p. packet_fits p \<and> frame_fits (packet_body p)) ps"
  shows "\<exists>s'. server_run pipe_ops H \<lparr>pipe_in = frames_of ps, pipe_out = []\<rparr> h
      = Some (s', snd (handle_all H (map norm_packet ps) h))
    \<and> pipe_out s' = frames_of (fst (handle_all H (map norm_packet ps) h))"
proof -
  have "frame_bodies (frames_of ps) = map packet_body ps"
    using assms frame_bodies_frames [of "map packet_body ps" "[]"]
    by (simp add: frames_of_def list.pred_map comp_def list_all_iff frame_bodies_short)
  moreover have "serve H (map packet_body ps) h = handle_all H (map norm_packet ps) h"
    using assms by (rule serve_packet_bodies)
  ultimately show ?thesis
    using pipe_stream.server_run_serves [of H "\<lparr>pipe_in = frames_of ps, pipe_out = []\<rparr>" h] by simp
qed

theorem server_handles_sent_requests_witness:
  "\<exists>s'. server_run pipe_ops (default_handler (\<lambda>e. e) (\<lambda>h. SC_OpUnsupported))
        \<lparr>pipe_in = frames_of [Remove \<lparr>remove_id = 3, remove_filename = [97]\<rparr>], pipe_out = []\<rparr> ()
      = Some (s', snd (handle_all (default_handler (\<lambda>e. e) (\<lambda>h. SC_OpUnsupported))
          (map norm_packet [Remove \<lparr>remove_id = 3, remove_filename = [97]\<rparr>]) ()))
    \<and> pipe_out s' = frames_of (fst (handle_all (default_handler (\<lambda>e. e) (\<lambda>h. SC_OpUnsupported))
          (map norm_packet [Remove \<lparr>remove_id = 3, remove_filename = [97]\<rparr>]) ()))"
  by (rule server_handles_sent_requests)
    (simp add: fits_remove_def string_fits_def valid_utf8_ascii frame_fits_def packet_body_def
      wire_remove_def wire_string_def)

text \<open> A frame that is no packet, or a packet that is no request, is answered with a bad-message
  status of id 0 and leaves the handler untouched.\<close>

theorem non_requests_answered_bad_message:
  assumes "case packet_try_from body of Ok (q, _) \<Rightarrow> \<not> is_request q \<and> packet_type q \<noteq> SSH_FXP_INIT
    | Err _ \<Rightarrow> True"
  shows "respond H body h = (packet_error 0 SC_BadMessage, h)"
  using assms
  by (auto simp: respond_def process_request_other packet_type_init split: result.splits)

theorem non_requests_answered_bad_message_witness:
  "respond (default_handler (\<lambda>e. e) (\<lambda>h. SC_OpUnsupported)) [99, 1, 2] ()
     = (packet_error 0 SC_BadMessage, ())"
  by (rule non_requests_answered_bad_message)
    (simp add: unknown_type [of 99] known_types_def)

text \<open> With the trait's default methods every request is answered, under its own id, with the status
  the implementor chose for unimplemented requests, and the handler's state does not change.\<close>

theorem default_handler_refuses:
  assumes "is_request q"
  shows "process_request (default_handler into_status unimplemented) q h
    = (packet_error (packet_request_id q) (into_status (unimplemented h)), h)"
  using assms
  by (cases q) (simp_all add: process_request_def default_handler_def into_wrap_def
      packet_request_id_def Let_def)

theorem default_handler_refuses_witness:
  "process_request (default_handler (\<lambda>e. e) (\<lambda>h. SC_OpUnsupported))
     (Extended \<lparr>extended_id = 9, extended_request = [], extended_data = []\<rparr>) ()
   = (packet_error (packet_request_id
        (Extended \<lparr>extended_id = 9, extended_request = [], extended_data = []\<rparr>)) SC_OpUnsupported, ())"
  by (rule default_handler_refuses) simp

text \<open>The loop only ends at the end of the stream: on a stream whose reads keep failing with any
  other error the server never returns.\<close>

theorem server_run_spins_on_errors:
  assumes "\<And>s. \<exists>s'. read_u32 ops s = (Err e, s')" and "error_of_io e \<noteq> UnexpectedEof"
  shows "server_run ops H s h = None"
  using assms by (rule server_run_diverges)

definition reset_ops :: "unit stream_ops" where
  "reset_ops =
     \<lparr>read_u32 = (\<lambda>s. (Err \<lparr>io_kind_of = KOther, io_inner = None\<rparr>, s)),
      read_exact = (\<lambda>s n. (Err \<lparr>io_kind_of = KOther, io_inner = None\<rparr>, s)),
      write_all = (\<lambda>s b. (Ok (), s)), flush = (\<lambda>s. (Ok (), s))\<rparr>"

theorem server_run_spins_on_errors_witness:
  "server_run reset_ops (default_handler (\<lambda>e. e) (\<lambda>h. SC_OpUnsupported)) () () = None"
  by (rule server_run_spins_on_errors [where e = "\<lparr>io_kind_of = KOther, io_inner = None\<rparr>"])
    (simp_all add: reset_ops_def error_of_io_def lit_def)
text \<open>C16: A handler only sees well-typed packets: strings it is given are well-formed UTF-8 and lengths
  fit the format, so an invariant of its state that its methods keep on such packets holds after
  the server has run on any bytes at all (up to a gigabyte).\<close>

theorem server_keeps_handler_invariant:
  assumes "\<And>p h. packet_fits p \<Longrightarrow> norm_packet p = p \<Longrightarrow> Q h \<Longrightarrow> Q (snd (process_request H p h))"
    and "Q h" and "length inp < 2 ^ 30"
  shows "\<exists>s' h'. server_run pipe_ops H \<lparr>pipe_in = inp, pipe_out = out\<rparr> h = Some (s', h') \<and> Q h'"
  using pipe_stream.server_run_serves [of H "\<lparr>pipe_in = inp, pipe_out = out\<rparr>" h]
    serve_invariant [where Q = Q and H = H and bodies = "frame_bodies inp", OF assms(1,2)]
    frame_bodies_are_short [of inp] assms(3)
  by (auto simp: short_def)

text \<open>A handler that keeps the last path it was asked to open, for the example.\<close>

definition path_keeper :: "(bytes, status_code) handler" where
  "path_keeper = (default_handler (\<lambda>e. e) (\<lambda>h. SC_OpUnsupported))
     \<lparr>h_opendir := (\<lambda>i path h. (Ok \<lparr>handle_id = i, handle_handle = path\<rparr>, path))\<rparr>"

theorem server_keeps_handler_invariant_witness:
  "\<exists>s' h'. server_run pipe_ops path_keeper
      \<lparr>pipe_in = [0, 0, 0, 11, 11, 0, 0, 0, 1, 0, 0, 0, 2, 0xFF, 0x41], pipe_out = []\<rparr> []
      = Some (s', h') \<and> valid_utf8 h'"
proof (rule server_keeps_handler_invariant)
  fix p h
  assume "packet_fits p" and "valid_utf8 h"
  then show "valid_utf8 (snd (process_request path_keeper p h))"
    by (cases p) (simp_all add: process_request_def path_keeper_def default_handler_def into_wrap_def
        fits_opendir_def string_fits_def Let_def)
qed (simp_all add: valid_utf8_ascii)

end
