(* ===== verification/Client.thy ===== *)
theory Client
  imports Server
begin

text \<open>
  The client's error type (\<^verbatim>\<open>src/client/error.rs\<close>), its packet handler trait
  (\<^verbatim>\<open>src/client/handler.rs\<close>), and the two loops over the stream (\<^verbatim>\<open>src/client/mod.rs\<close>): the
  read half hands each packet to the handler, the write half sends what was queued; a cancelled
  token ends both. \<open>client_step\<close> interleaves the halves and the callers that queue data.
\<close>

section \<open>Client errors\<close>

datatype client_error =
    CE_Status status_msg
  | CE_IO msg
  | CE_Timeout
  | CE_Limited msg
  | CE_UnexpectedPacket
  | CE_UnexpectedBehavior msg

fun display_client_error :: "client_error \<Rightarrow> msg" where
  "display_client_error (CE_Status s) =
     [Text (display_status_code (status_status_code s)), Lit '': '', Text (status_error_message s)]"
| "display_client_error (CE_IO m) = Lit ''I/O: '' # m"
| "display_client_error CE_Timeout = [Lit ''Timeout'']"
| "display_client_error (CE_Limited m) = Lit ''Limit exceeded: '' # m"
| "display_client_error CE_UnexpectedPacket = [Lit ''Unexpected packet'']"
| "display_client_error (CE_UnexpectedBehavior m) = m"

definition client_error_of_status :: "status_msg \<Rightarrow> client_error" where
  "client_error_of_status s = CE_Status s"

definition client_error_of_io :: "io_error \<Rightarrow> client_error" where
  "client_error_of_io e = CE_IO [IoErrorDisplay e]"

definition client_error_of_send :: client_error where
  "client_error_of_send = CE_UnexpectedBehavior [Lit ''SendError: '', CrateDisplay ''SendError'']"

definition client_error_of_recv :: client_error where
  "client_error_of_recv = CE_UnexpectedBehavior [Lit ''RecvError: '', CrateDisplay ''RecvError'']"

definition client_error_of_elapsed :: client_error where
  "client_error_of_elapsed = CE_Timeout"

definition client_error_of_error :: "error \<Rightarrow> client_error" where
  "client_error_of_error e = CE_UnexpectedBehavior (display_error e)"

text \<open>\<^verbatim>\<open>src/error.rs\<close>: a client error inside the crate's error.\<close>

definition error_of_client :: "client_error \<Rightarrow> error" where
  "error_of_client e = Client (display_client_error e)"

lemma error_of_client_not_eof [simp]: "error_of_client e \<noteq> UnexpectedEof"
  by (simp add: error_of_client_def)

section \<open>The handler of incoming packets\<close>

record ('h, 'e) client_handler =
  ch_into_error :: "'e \<Rightarrow> client_error"
  ch_version :: "version_msg \<Rightarrow> 'h \<Rightarrow> (unit, 'e) result \<times> 'h"
  ch_status :: "status_msg \<Rightarrow> 'h \<Rightarrow> (unit, 'e) result \<times> 'h"
  ch_handle :: "handle_msg \<Rightarrow> 'h \<Rightarrow> (unit, 'e) result \<times> 'h"
  ch_data :: "data_msg \<Rightarrow> 'h \<Rightarrow> (unit, 'e) result \<times> 'h"
  ch_name :: "name_msg \<Rightarrow> 'h \<Rightarrow> (unit, 'e) result \<times> 'h"
  ch_attrs :: "attrs_reply_msg \<Rightarrow> 'h \<Rightarrow> (unit, 'e) result \<times> 'h"
  ch_extended_reply :: "extended_reply_msg \<Rightarrow> 'h \<Rightarrow> (unit, 'e) result \<times> 'h"

definition default_client_handler :: "('e \<Rightarrow> client_error) \<Rightarrow> ('h, 'e) client_handler" where
  "default_client_handler into_error =
     \<lparr>ch_into_error = into_error,
      ch_version = (\<lambda>version h. (Ok (), h)), ch_status = (\<lambda>status h. (Ok (), h)),
      ch_handle = (\<lambda>handle h. (Ok (), h)), ch_data = (\<lambda>data h. (Ok (), h)),
      ch_name = (\<lambda>name h. (Ok (), h)), ch_attrs = (\<lambda>attrs h. (Ok (), h)),
      ch_extended_reply = (\<lambda>reply h. (Ok (), h))\<rparr>"

definition client_into_wrap ::
  "('h, 'e) client_handler \<Rightarrow> (unit, 'e) result \<times> 'h \<Rightarrow> (unit, client_error) result \<times> 'h" where
  "client_into_wrap H r =
     (case r of (Err e, h) \<Rightarrow> (Err (ch_into_error H e), h) | (Ok _, h) \<Rightarrow> (Ok (), h))"

definition execute_handler ::
  "bytes \<Rightarrow> ('h, 'e) client_handler \<Rightarrow> 'h \<Rightarrow> (unit, client_error) result \<times> 'h" where
  "execute_handler bytes H h =
     (case packet_try_from bytes of
        Err e \<Rightarrow> (Err (client_error_of_error e), h)
      | Ok (Version p, _) \<Rightarrow> client_into_wrap H (ch_version H p h)
      | Ok (Status p, _) \<Rightarrow> client_into_wrap H (ch_status H p h)
      | Ok (Handle p, _) \<Rightarrow> client_into_wrap H (ch_handle H p h)
      | Ok (Data p, _) \<Rightarrow> client_into_wrap H (ch_data H p h)
      | Ok (Name p, _) \<Rightarrow> client_into_wrap H (ch_name H p h)
      | Ok (Attrs p, _) \<Rightarrow> client_into_wrap H (ch_attrs H p h)
      | Ok (ExtendedReply p, _) \<Rightarrow> client_into_wrap H (ch_extended_reply H p h)
      | Ok _ \<Rightarrow>
          (Err (CE_UnexpectedBehavior
             [Lit ''A packet was received that could not be processed.'']), h))"

definition client_process_handler ::
  "'s stream_ops \<Rightarrow> ('h, 'e) client_handler \<Rightarrow> 's \<Rightarrow> 'h \<Rightarrow> (unit, error) result \<times> 's \<times> 'h" where
  "client_process_handler ops H stream h =
     (case read_packet ops stream of
        (Err e, stream) \<Rightarrow> (Err e, stream, h)
      | (Ok bytes, stream) \<Rightarrow>
          (case execute_handler bytes H h of
             (Err e, h) \<Rightarrow> (Err (error_of_client e), stream, h)
           | (Ok _, h) \<Rightarrow> (Ok (), stream, h)))"

section \<open>The two halves\<close>

text \<open>The loop of the read half as long as the token is not cancelled by the other half.\<close>

partial_function (option) client_read_loop ::
  "'s stream_ops \<Rightarrow> ('h, 'e) client_handler \<Rightarrow> 's \<Rightarrow> 'h \<Rightarrow> ('s \<times> 'h) option" where
  "client_read_loop ops H stream h =
     (case client_process_handler ops H stream h of
        (r, stream, h) \<Rightarrow>
          if r = Err UnexpectedEof then Some (stream, h) else client_read_loop ops H stream h)"

text \<open>
  The whole client: the stream, the handler, the queue of outgoing data, whether each half still
  runs, and the cancellation token. \<open>shut\<close> is the stream's \<^verbatim>\<open>shutdown\<close>, whose result the code
  ignores, as it ignores that of \<^verbatim>\<open>write_all\<close>.
\<close>

record ('s, 'h) client_conn =
  cc_stream :: 's
  cc_handler :: 'h
  cc_queue :: "bytes list"
  cc_reading :: bool
  cc_writing :: bool
  cc_cancelled :: bool

definition client_run :: "'s \<Rightarrow> 'h \<Rightarrow> ('s, 'h) client_conn" where
  "client_run stream handler =
     \<lparr>cc_stream = stream, cc_handler = handler, cc_queue = [], cc_reading = True,
      cc_writing = True, cc_cancelled = False\<rparr>"

definition read_iteration ::
  "'s stream_ops \<Rightarrow> ('h, 'e) client_handler \<Rightarrow> ('s, 'h) client_conn \<Rightarrow> ('s, 'h) client_conn" where
  "read_iteration ops H c =
     (case client_process_handler ops H (cc_stream c) (cc_handler c) of
        (r, stream, h) \<Rightarrow>
          let c = c\<lparr>cc_stream := stream, cc_handler := h\<rparr>
          in if r = Err UnexpectedEof then c\<lparr>cc_reading := False, cc_cancelled := True\<rparr> else c)"

text \<open>
  The write half awaits \<^verbatim>\<open>write_all\<close> within an iteration, so a peer that takes no bytes holds the half
  up: here the half then gets no further turn.
\<close>

definition write_iteration ::
  "'s stream_ops \<Rightarrow> ('s \<Rightarrow> 's) \<Rightarrow> bytes \<Rightarrow> ('s, 'h) client_conn \<Rightarrow> ('s, 'h) client_conn" where
  "write_iteration ops shut data c =
     (if data = [] then
        c\<lparr>cc_stream := shut (cc_stream c), cc_writing := False, cc_cancelled := True\<rparr>
      else c\<lparr>cc_stream := snd (write_all ops (cc_stream c) data)\<rparr>)"

text \<open>\<^verbatim>\<open>tx.send\<close> fails once the write half, which owns the receiver, has ended.\<close>

definition queue_data :: "bytes \<Rightarrow> ('s, 'h) client_conn \<Rightarrow> ('s, 'h) client_conn option" where
  "queue_data data c = (if cc_writing c then Some (c\<lparr>cc_queue := cc_queue c @ [data]\<rparr>) else None)"

inductive client_step ::
  "'s stream_ops \<Rightarrow> ('s \<Rightarrow> 's) \<Rightarrow> ('h, 'e) client_handler
     \<Rightarrow> ('s, 'h) client_conn \<Rightarrow> ('s, 'h) client_conn \<Rightarrow> bool"
  for ops shut H where
  receive: "cc_reading c \<Longrightarrow> client_step ops shut H c (read_iteration ops H c)"
| read_cancelled: "cc_reading c \<Longrightarrow> cc_cancelled c \<Longrightarrow>
    client_step ops shut H c (c\<lparr>cc_reading := False, cc_cancelled := True\<rparr>)"
| transmit: "cc_writing c \<Longrightarrow> cc_queue c = data # rest \<Longrightarrow>
    client_step ops shut H c (write_iteration ops shut data (c\<lparr>cc_queue := rest\<rparr>))"
| write_cancelled: "cc_writing c \<Longrightarrow> cc_cancelled c \<Longrightarrow>
    client_step ops shut H c (c\<lparr>cc_writing := False, cc_cancelled := True\<rparr>)"

text \<open>Runs of the client, with the data its users queued so far.\<close>

inductive client_trace ::
  "'s stream_ops \<Rightarrow> ('s \<Rightarrow> 's) \<Rightarrow> ('h, 'e) client_handler \<Rightarrow> 's \<Rightarrow> 'h
     \<Rightarrow> bytes list \<Rightarrow> ('s, 'h) client_conn \<Rightarrow> bool"
  for ops shut H stream handler where
  start: "client_trace ops shut H stream handler [] (client_run stream handler)"
| enqueue: "client_trace ops shut H stream handler ds c \<Longrightarrow> queue_data data c = Some c' \<Longrightarrow>
    client_trace ops shut H stream handler (ds @ [data]) c'"
| advance: "client_trace ops shut H stream handler ds c \<Longrightarrow> client_step ops shut H c c' \<Longrightarrow>
    client_trace ops shut H stream handler ds c'"

inductive_cases client_stepE [consumes 1, case_names receive read_cancelled transmit write_cancelled]:
  "client_step ops shut H c c'"

section \<open>Facts on the halves\<close>

fun dispatch :: "bytes list \<Rightarrow> ('h, 'e) client_handler \<Rightarrow> 'h \<Rightarrow> 'h" where
  "dispatch [] H h = h"
| "dispatch (body # bodies) H h = dispatch bodies H (snd (execute_handler body H h))"

lemma drop_eq_Cons:
  assumes "drop n xs = y # ys"
  shows "n < length xs" and "xs ! n = y" and "drop (Suc n) xs = ys"
proof -
  show "n < length xs" using assms by (metis drop_eq_Nil leI list.simps(3))
  then show "xs ! n = y" "drop (Suc n) xs = ys"
    using assms Cons_nth_drop_Suc [of n xs] by simp_all
qed

lemma dispatch_append: "dispatch (xs @ ys) H h = dispatch ys H (dispatch xs H h)"
  by (induction xs arbitrary: h) simp_all

context byte_stream
begin

lemma client_process_frame:
  assumes "frame_bodies (incoming s) = body # bodies"
  shows "\<exists>s' r. client_process_handler ops H s h = (r, s', snd (execute_handler body H h))
    \<and> r \<noteq> Err UnexpectedEof \<and> frame_bodies (incoming s') = bodies \<and> outgoing s' = outgoing s"
proof -
  obtain s1 where s1: "read_packet ops s = (Ok body, s1)" "frame_bodies (incoming s1) = bodies"
      "outgoing s1 = outgoing s"
    using read_packet_Cons [OF assms] by blast
  obtain r h' where "execute_handler body H h = (r, h')" by (cases "execute_handler body H h")
  then have "client_process_handler ops H s h = (map_err error_of_client r, s1, h')"
    using s1(1) by (cases r) (simp_all add: client_process_handler_def)
  moreover have "map_err error_of_client r \<noteq> Err UnexpectedEof" by (cases r) simp_all
  ultimately show ?thesis using s1(2,3) \<open>execute_handler body H h = (r, h')\<close> by simp
qed

lemma client_process_end:
  assumes "frame_bodies (incoming s) = []"
  shows "\<exists>s'. client_process_handler ops H s h = (Err UnexpectedEof, s', h) \<and> outgoing s' = outgoing s"
  using read_packet_Nil [OF assms] by (auto simp: client_process_handler_def)

lemma client_read_loop_dispatches:
  "\<exists>s'. client_read_loop ops H s h = Some (s', dispatch (frame_bodies (incoming s)) H h)
    \<and> outgoing s' = outgoing s"
proof (induction "frame_bodies (incoming s)" arbitrary: s h)
  case Nil
  then show ?case
    using client_process_end [of s H h] by (auto simp: client_read_loop.simps [of ops H s h])
next
  case (Cons body bodies)
  obtain s1 r where s1: "client_process_handler ops H s h = (r, s1, snd (execute_handler body H h))"
      "r \<noteq> Err UnexpectedEof" "frame_bodies (incoming s1) = bodies" "outgoing s1 = outgoing s"
    using client_process_frame [OF Cons.hyps(2) [symmetric], of H h] by blast
  obtain s2 where "client_read_loop ops H s1 (snd (execute_handler body H h))
        = Some (s2, dispatch bodies H (snd (execute_handler body H h)))" "outgoing s2 = outgoing s1"
    using Cons.hyps(1) [OF s1(3) [symmetric], of "snd (execute_handler body H h)"] s1(3) by auto
  then show ?case
    using s1 Cons.hyps(2) [symmetric]
    by (auto simp: client_read_loop.simps [of ops H s h])
qed

end

text \<open>A stream whose shutdown loses nothing that was written or is still to be read.\<close>

locale duplex_stream = byte_stream ops incoming outgoing
  for ops :: "'s stream_ops" and incoming :: "'s \<Rightarrow> bytes" and outgoing :: "'s \<Rightarrow> bytes" +
  fixes shut :: "'s \<Rightarrow> 's"
  assumes shut_outgoing: "outgoing (shut s) = outgoing s"
    and shut_incoming: "incoming (shut s) = incoming s"
begin

text \<open>What was sent is a front part of what was queued, and what was handled a front part of what came.\<close>

definition conn_inv ::
  "('h, 'e) client_handler \<Rightarrow> 's \<Rightarrow> 'h \<Rightarrow> bytes list \<Rightarrow> ('s, 'h) client_conn \<Rightarrow> bool" where
  "conn_inv H stream handler ds c \<longleftrightarrow>
     (\<exists>n k. n \<le> length ds
        \<and> outgoing (cc_stream c) = outgoing stream @ concat (take n ds)
        \<and> cc_queue c = drop n ds
        \<and> [] \<notin> set (butlast (take n ds)) \<and> (cc_writing c \<longrightarrow> [] \<notin> set (take n ds))
        \<and> cc_handler c = dispatch (take k (frame_bodies (incoming stream))) H handler
        \<and> (cc_reading c \<longrightarrow>
             frame_bodies (incoming (cc_stream c)) = drop k (frame_bodies (incoming stream)))
        \<and> (cc_reading c \<and> cc_writing c \<or> cc_cancelled c))"

lemma conn_invI:
  assumes "n \<le> length ds" "outgoing (cc_stream c) = outgoing stream @ concat (take n ds)"
    "cc_queue c = drop n ds" "[] \<notin> set (butlast (take n ds))"
    "cc_writing c \<longrightarrow> [] \<notin> set (take n ds)"
    "cc_handler c = dispatch (take k (frame_bodies (incoming stream))) H handler"
    "cc_reading c \<longrightarrow> frame_bodies (incoming (cc_stream c)) = drop k (frame_bodies (incoming stream))"
    "cc_reading c \<and> cc_writing c \<or> cc_cancelled c"
  shows "conn_inv H stream handler ds c"
  using assms unfolding conn_inv_def by blast

lemma conn_inv_start: "conn_inv H stream handler [] (client_run stream handler)"
  by (rule conn_invI [where n = 0 and k = 0]) (simp_all add: client_run_def)

lemma conn_inv_enqueue:
  assumes "conn_inv H stream handler ds c" and "queue_data data c = Some c'"
  shows "conn_inv H stream handler (ds @ [data]) c'"
proof -
  obtain n k where "n \<le> length ds" "outgoing (cc_stream c) = outgoing stream @ concat (take n ds)"
    "cc_queue c = drop n ds" "[] \<notin> set (butlast (take n ds))"
    "cc_writing c \<longrightarrow> [] \<notin> set (take n ds)"
    "cc_handler c = dispatch (take k (frame_bodies (incoming stream))) H handler"
    "cc_reading c \<longrightarrow> frame_bodies (incoming (cc_stream c)) = drop k (frame_bodies (incoming stream))"
    "cc_reading c \<and> cc_writing c \<or> cc_cancelled c"
    using assms(1) unfolding conn_inv_def by blast
  then show ?thesis
    using assms(2)
    by (intro conn_invI [where n = n and k = k]) (auto simp: queue_data_def split: if_splits)
qed

lemma conn_inv_step:
  assumes "client_step ops shut H c c'" and "conn_inv H stream handler ds c"
  shows "conn_inv H stream handler ds c'"
proof -
  obtain n k where inv: "n \<le> length ds" "outgoing (cc_stream c) = outgoing stream @ concat (take n ds)"
    "cc_queue c = drop n ds" "[] \<notin> set (butlast (take n ds))"
    "cc_writing c \<longrightarrow> [] \<notin> set (take n ds)"
    "cc_handler c = dispatch (take k (frame_bodies (incoming stream))) H handler"
    "cc_reading c \<longrightarrow> frame_bodies (incoming (cc_stream c)) = drop k (frame_bodies (incoming stream))"
    "cc_reading c \<and> cc_writing c \<or> cc_cancelled c"
    using assms(2) unfolding conn_inv_def by blast
  from assms(1) show ?thesis
  proof (cases rule: client_stepE)
    case receive
    show ?thesis
    proof (cases "drop k (frame_bodies (incoming stream))")
      case Nil
      from client_process_end [of "cc_stream c" H "cc_handler c"] Nil inv(7) receive
      obtain s' where "client_process_handler ops H (cc_stream c) (cc_handler c)
          = (Err UnexpectedEof, s', cc_handler c)" "outgoing s' = outgoing (cc_stream c)"
        by auto
      then show ?thesis
        using inv receive by (intro conn_invI [where n = n and k = k]) (auto simp: read_iteration_def)
    next
      case (Cons body bodies)
      from client_process_frame [of "cc_stream c" body bodies H "cc_handler c"] Cons inv(7) receive
      obtain s' r where s': "client_process_handler ops H (cc_stream c) (cc_handler c)
          = (r, s', snd (execute_handler body H (cc_handler c)))" "r \<noteq> Err UnexpectedEof"
          "frame_bodies (incoming s') = bodies" "outgoing s' = outgoing (cc_stream c)"
        by auto
      note k = drop_eq_Cons [OF Cons]
      show ?thesis
        using inv receive s' k
        by (intro conn_invI [where n = n and k = "Suc k"])
          (auto simp: read_iteration_def take_Suc_conv_app_nth dispatch_append)
    qed
  next
    case read_cancelled
    with inv show ?thesis by (intro conn_invI [where n = n and k = k]) auto
  next
    case (transmit data rest)
    have "drop n ds = data # rest" using transmit inv(3) by simp
    note n = drop_eq_Cons [OF this]
    show ?thesis
    proof (cases "data = []")
      case True
      then show ?thesis
        using inv transmit n
        by (intro conn_invI [where n = "Suc n" and k = k])
          (auto simp: write_iteration_def take_Suc_conv_app_nth shut_outgoing shut_incoming)
    next
      case False
      obtain s' where "write_all ops (cc_stream c) data = (Ok (), s')"
          "incoming s' = incoming (cc_stream c)" "outgoing s' = outgoing (cc_stream c) @ data"
        using write_all_ok by blast
      then show ?thesis
        using inv transmit n False
        by (intro conn_invI [where n = "Suc n" and k = k])
          (auto simp: write_iteration_def take_Suc_conv_app_nth)
    qed
  next
    case write_cancelled
    with inv show ?thesis by (intro conn_invI [where n = n and k = k]) auto
  qed
qed

lemma conn_inv_trace:
  "client_trace ops shut H stream handler ds c \<Longrightarrow> conn_inv H stream handler ds c"
  by (induction rule: client_trace.induct)
    (auto intro: conn_inv_start conn_inv_enqueue conn_inv_step)

end

interpretation pipe_duplex: duplex_stream pipe_ops pipe_in pipe_out "\<lambda>p. p"
  by unfold_locales simp_all

text \<open>A stream that keeps failing with anything but an end of file keeps the read loop running.\<close>

lemma client_read_loop_diverges:
  assumes fails: "\<And>s. \<exists>s'. read_u32 ops s = (Err e, s')" and e: "error_of_io e \<noteq> UnexpectedEof"
  shows "client_read_loop ops H s h = None"
proof (rule ccontr)
  assume "client_read_loop ops H s h \<noteq> None"
  then obtain r where "client_read_loop ops H s h = Some r" by blast
  then show False
  proof (rule client_read_loop.raw_induct [where P = "\<lambda>o1 H1 s h r. o1 = ops \<longrightarrow> False",
        rule_format, rotated, OF _ refl])
    fix f :: "'a stream_ops \<Rightarrow> ('b, 'c) client_handler \<Rightarrow> 'a \<Rightarrow> 'b \<Rightarrow> ('a \<times> 'b) option"
    fix o1 H1 s h r
    assume IH: "\<And>o1 H1 s h r. f o1 H1 s h = Some r \<Longrightarrow> o1 = ops \<Longrightarrow> False"
      and step: "(case client_process_handler o1 H1 s h of (r, stream, h) \<Rightarrow>
          if r = Err UnexpectedEof then Some (stream, h) else f o1 H1 stream h) = Some r"
      and "o1 = ops"
    obtain s' where "read_u32 ops s = (Err e, s')" using fails by blast
    then have "client_process_handler o1 H1 s h = (Err (error_of_io e), s', h)"
      by (simp add: client_process_handler_def read_packet_def \<open>o1 = ops\<close>)
    with step e have "f o1 H1 s' h = Some r" by simp
    then show False using IH \<open>o1 = ops\<close> by blast
  qed
qed

section \<open>Properties of the client loops\<close>

text \<open>C21: The read loop of the client returns on every input, having handed every complete frame to
  the packet handler in order and written nothing.\<close>

theorem client_read_loop_refines_dispatch:
  "\<exists>s'. client_read_loop pipe_ops H \<lparr>pipe_in = inp, pipe_out = out\<rparr> h
      = Some (s', dispatch (frame_bodies inp) H h) \<and> pipe_out s' = out"
  using pipe_stream.client_read_loop_dispatches [of H "\<lparr>pipe_in = inp, pipe_out = out\<rparr>" h] by simp

text \<open>C30: A connection that breaks keeps both ends busy for ever: on a stream whose reads keep failing with
  anything but an end of file, neither the loop of the server nor the read loop of the client
  returns, however often it logs the error.\<close>

theorem loops_spin_on_errors:
  assumes "\<And>s. \<exists>s'. read_u32 ops s = (Err e, s')" and "error_of_io e \<noteq> UnexpectedEof"
  shows "server_run ops H s h = None \<and> client_read_loop ops G s k = None"
  by (intro conjI server_run_diverges [OF assms] client_read_loop_diverges [OF assms])

theorem loops_spin_on_errors_witness:
  "server_run reset_ops (default_handler (\<lambda>e. e) (\<lambda>h. SC_OpUnsupported)) () () = None
   \<and> client_read_loop reset_ops (default_client_handler (\<lambda>e. e)) () () = None"
  by (rule loops_spin_on_errors [where e = "\<lparr>io_kind_of = KOther, io_inner = None\<rparr>"])
    (simp_all add: reset_ops_def error_of_io_def lit_def)

text \<open>C20: However the two halves of the client and its callers interleave, the bytes sent are those of
  a front part of the queued data, in order and complete, nothing is sent after the close message,
  the handler has seen a front part of the incoming frames, and as soon as one half has ended the
  other is told to end.\<close>

theorem client_halves_in_order:
  assumes "client_trace pipe_ops (\<lambda>p. p) H \<lparr>pipe_in = inp, pipe_out = []\<rparr> h queued c"
  shows "\<exists>n k. n \<le> length queued \<and> pipe_out (cc_stream c) = concat (take n queued)
    \<and> cc_queue c = drop n queued \<and> [] \<notin> set (butlast (take n queued))
    \<and> cc_handler c = dispatch (take k (frame_bodies inp)) H h
    \<and> (cc_reading c \<and> cc_writing c \<or> cc_cancelled c)"
  using pipe_duplex.conn_inv_trace [OF assms] unfolding pipe_duplex.conn_inv_def by fastforce

theorem client_halves_in_order_witness:
  "\<exists>c n k. client_trace pipe_ops (\<lambda>p. p) (default_client_handler (\<lambda>e. e))
      \<lparr>pipe_in = [], pipe_out = []\<rparr> () [[7]] c
    \<and> n \<le> length [[7 :: u8]] \<and> pipe_out (cc_stream c) = concat (take n [[7]])
    \<and> cc_queue c = drop n [[7]] \<and> [] \<notin> set (butlast (take n [[7 :: u8]]))
    \<and> cc_handler c = dispatch (take k (frame_bodies [])) (default_client_handler (\<lambda>e. e)) ()
    \<and> (cc_reading c \<and> cc_writing c \<or> cc_cancelled c)"
proof -
  let ?H = "default_client_handler (\<lambda>e. e) :: (unit, client_error) client_handler"
  let ?s = "\<lparr>pipe_in = [], pipe_out = []\<rparr>"
  let ?c = "(client_run ?s ())\<lparr>cc_queue := [[7]]\<rparr>"
  have "queue_data [7] (client_run ?s ()) = Some ?c"
    by (simp add: queue_data_def client_run_def)
  from client_trace.enqueue [OF client_trace.start this]
  have "client_trace pipe_ops (\<lambda>p. p) ?H ?s () ([] @ [[7]]) ?c" .
  then have trace: "client_trace pipe_ops (\<lambda>p. p) ?H ?s () [[7]] ?c" by simp
  then show ?thesis using client_halves_in_order [OF trace] by blast
qed

end
