(* ===== verification/Liveness.thy ===== *)
theory Liveness
  imports Client
begin

text \<open>
  The client ends: infinite runs of the two halves and their callers, with weak fairness of the
  scheduler. A select that could take a branch for ever takes it. Once a close message is queued,
  or one half has ended, both halves end.
\<close>

section \<open>Runs and fairness\<close>

text \<open>In a run any half may step, any caller may queue data, and everybody may pause.\<close>

definition run_step ::
  "'s stream_ops \<Rightarrow> ('s \<Rightarrow> 's) \<Rightarrow> ('h, 'e) client_handler
     \<Rightarrow> ('s, 'h) client_conn \<Rightarrow> ('s, 'h) client_conn \<Rightarrow> bool" where
  "run_step ops shut H c c' \<longleftrightarrow>
     c' = c \<or> client_step ops shut H c c' \<or> (\<exists>data. queue_data data c = Some c')"

definition client_execution ::
  "'s stream_ops \<Rightarrow> ('s \<Rightarrow> 's) \<Rightarrow> ('h, 'e) client_handler \<Rightarrow> (nat \<Rightarrow> ('s, 'h) client_conn) \<Rightarrow> bool" where
  "client_execution ops shut H cs \<longleftrightarrow>
     (\<exists>stream h. cs 0 = client_run stream h) \<and> (\<forall>n. run_step ops shut H (cs n) (cs (Suc n)))"

definition weakly_fair :: "('c \<Rightarrow> bool) \<Rightarrow> ('c \<Rightarrow> 'c \<Rightarrow> bool) \<Rightarrow> (nat \<Rightarrow> 'c) \<Rightarrow> bool" where
  "weakly_fair enabled taken cs \<longleftrightarrow>
     (\<forall>n. (\<forall>m\<ge>n. enabled (cs m)) \<longrightarrow> (\<exists>m\<ge>n. taken (cs m) (cs (Suc m))))"

text \<open>The branch that sends, and the two that see the cancelled token.\<close>

definition sends ::
  "'s stream_ops \<Rightarrow> ('s \<Rightarrow> 's) \<Rightarrow> ('s, 'h) client_conn \<Rightarrow> ('s, 'h) client_conn \<Rightarrow> bool" where
  "sends ops shut c c' \<longleftrightarrow> (\<exists>data rest. cc_queue c = data # rest
     \<and> c' = write_iteration ops shut data (c\<lparr>cc_queue := rest\<rparr>))"

definition fair_client ::
  "'s stream_ops \<Rightarrow> ('s \<Rightarrow> 's) \<Rightarrow> (nat \<Rightarrow> ('s, 'h) client_conn) \<Rightarrow> bool" where
  "fair_client ops shut cs \<longleftrightarrow>
     weakly_fair (\<lambda>c. cc_writing c \<and> cc_queue c \<noteq> []) (sends ops shut) cs
     \<and> weakly_fair (\<lambda>c. cc_reading c \<and> cc_cancelled c) (\<lambda>c c'. \<not> cc_reading c') cs
     \<and> weakly_fair (\<lambda>c. cc_writing c \<and> cc_cancelled c) (\<lambda>c c'. \<not> cc_writing c') cs"

section \<open>What steps keep\<close>

definition token_ok :: "('s, 'h) client_conn \<Rightarrow> bool" where
  "token_ok c \<longleftrightarrow> cc_reading c \<and> cc_writing c \<or> cc_cancelled c"

definition closing :: "('s, 'h) client_conn \<Rightarrow> bool" where
  "closing c \<longleftrightarrow> [] \<in> set (cc_queue c)"

text \<open>The data in front of the close message.\<close>

definition before_close :: "('s, 'h) client_conn \<Rightarrow> nat" where
  "before_close c = length (takeWhile (\<lambda>data. data \<noteq> []) (cc_queue c))"

lemma run_step_cases [consumes 1, case_names pause receive read_cancelled transmit write_cancelled enqueue]:
  assumes "run_step ops shut H c c'"
  obtains "c' = c" | "cc_reading c" "c' = read_iteration ops H c"
  | "cc_reading c" "cc_cancelled c" "c' = c\<lparr>cc_reading := False, cc_cancelled := True\<rparr>"
  | data rest where "cc_writing c" "cc_queue c = data # rest"
      "c' = write_iteration ops shut data (c\<lparr>cc_queue := rest\<rparr>)"
  | "cc_writing c" "cc_cancelled c" "c' = c\<lparr>cc_writing := False, cc_cancelled := True\<rparr>"
  | data where "cc_writing c" "c' = c\<lparr>cc_queue := cc_queue c @ [data]\<rparr>"
proof -
  consider "c' = c" | "client_step ops shut H c c'" | data where "queue_data data c = Some c'"
    using assms unfolding run_step_def by blast
  then show thesis
  proof cases
    case 2
    then show thesis
    proof (cases rule: client_stepE)
      case receive
      then show thesis using that(2) by simp
    next
      case read_cancelled
      show thesis by (rule that(3)) (use read_cancelled in simp_all)
    next
      case (transmit data rest)
      show thesis by (rule that(4)) (use transmit in simp_all)
    next
      case write_cancelled
      show thesis by (rule that(5)) (use write_cancelled in simp_all)
    qed
  next
    case 3
    then have "cc_writing c" "c' = c\<lparr>cc_queue := cc_queue c @ [data]\<rparr>"
      by (simp_all add: queue_data_def split: if_splits)
    then show thesis by (rule that(6))
  qed (rule that(1))
qed

lemma read_iteration_fields:
  "cc_queue (read_iteration ops H c) = cc_queue c"
  "cc_writing (read_iteration ops H c) = cc_writing c"
  "cc_cancelled c \<Longrightarrow> cc_cancelled (read_iteration ops H c)"
  "cc_reading c \<Longrightarrow> cc_reading (read_iteration ops H c) \<or> cc_cancelled (read_iteration ops H c)"
  by (auto simp: read_iteration_def Let_def split: prod.split)

lemma write_iteration_fields:
  "cc_queue (write_iteration ops shut data c) = cc_queue c"
  "cc_reading (write_iteration ops shut data c) = cc_reading c"
  "cc_writing (write_iteration ops shut data c) = (cc_writing c \<and> data \<noteq> [])"
  "cc_cancelled (write_iteration ops shut data c) = (cc_cancelled c \<or> data = [])"
  by (auto simp: write_iteration_def)

lemmas iteration_fields = read_iteration_fields write_iteration_fields

lemma run_step_reading: "run_step ops shut H c c' \<Longrightarrow> \<not> cc_reading c \<Longrightarrow> \<not> cc_reading c'"
  by (erule run_step_cases) (simp_all add: iteration_fields)

lemma run_step_writing: "run_step ops shut H c c' \<Longrightarrow> \<not> cc_writing c \<Longrightarrow> \<not> cc_writing c'"
  by (erule run_step_cases) (simp_all add: iteration_fields)

lemma run_step_cancelled: "run_step ops shut H c c' \<Longrightarrow> cc_cancelled c \<Longrightarrow> cc_cancelled c'"
  by (erule run_step_cases) (simp_all add: iteration_fields)

lemma run_step_token: "run_step ops shut H c c' \<Longrightarrow> token_ok c \<Longrightarrow> token_ok c'"
  by (erule run_step_cases)
    (use read_iteration_fields(3,4) [of c ops H] in
      \<open>auto simp: token_ok_def read_iteration_fields(2) write_iteration_fields\<close>)

lemmas run_step_keeps = run_step_token run_step_reading run_step_writing run_step_cancelled

lemma run_step_closing:
  assumes "run_step ops shut H c c'" and "closing c" and "cc_writing c'"
  shows "closing c' \<and> before_close c' \<le> before_close c"
  using assms(1)
proof (cases rule: run_step_cases)
  case (transmit data rest)
  then have "data \<noteq> []" using assms(3) by (simp add: iteration_fields)
  then show ?thesis
    using assms(2) transmit(2,3) by (simp add: closing_def before_close_def iteration_fields)
next
  case (enqueue data)
  have "takeWhile (\<lambda>data. data \<noteq> []) (cc_queue c @ [data]) = takeWhile (\<lambda>data. data \<noteq> []) (cc_queue c)"
    using assms(2) by (intro takeWhile_append1) (simp_all add: closing_def)
  then show ?thesis using assms(2) enqueue(2) by (simp add: closing_def before_close_def)
qed (use assms(2) in \<open>simp_all add: closing_def before_close_def iteration_fields\<close>)

lemma sends_before_close:
  assumes "sends ops shut c c'" and "cc_writing c'"
  shows "before_close c' < before_close c"
proof -
  obtain data rest where s: "cc_queue c = data # rest" "c' = write_iteration ops shut data (c\<lparr>cc_queue := rest\<rparr>)"
    using assms(1) unfolding sends_def by blast
  then have "data \<noteq> []" using assms(2) by (simp add: iteration_fields)
  then show ?thesis using s by (simp add: before_close_def iteration_fields)
qed

section \<open>Ends\<close>

lemma kept_from:
  assumes "\<And>n :: nat. P (cs n) \<Longrightarrow> P (cs (Suc n))" and "P (cs n)" and "n \<le> m"
  shows "P (cs m)"
  using assms(3,2) by (induction rule: dec_induct) (auto intro: assms(1))

lemma weakly_fairD:
  assumes "weakly_fair enabled taken cs" and "\<And>m. n \<le> m \<Longrightarrow> enabled (cs m)"
  obtains m where "n \<le> m" "taken (cs m) (cs (Suc m))"
  using assms unfolding weakly_fair_def by blast

lemma writer_ends:
  assumes steps: "\<And>n. run_step ops shut H (cs n) (cs (Suc n))"
    and fair: "weakly_fair (\<lambda>c. cc_writing c \<and> cc_queue c \<noteq> []) (sends ops shut) cs"
    and "closing (cs n)"
  shows "\<exists>m. \<not> cc_writing (cs m)"
proof (rule ccontr)
  assume "\<not> ?thesis"
  then have on: "cc_writing (cs m)" for m by blast
  have "closing (cs n) \<Longrightarrow> False" for n
  proof (induction "before_close (cs n)" arbitrary: n rule: less_induct)
    case less
    have later: "closing (cs m) \<and> before_close (cs m) \<le> before_close (cs n)" if "n \<le> m" for m
      using that
    proof (induction m rule: dec_induct)
      case (step m)
      then show ?case using run_step_closing [OF steps _ on, of m] by fastforce
    qed (simp add: less.prems)
    have "cc_writing (cs m) \<and> cc_queue (cs m) \<noteq> []" if "n \<le> m" for m
      using later [OF that] on by (auto simp: closing_def)
    then obtain m where m: "n \<le> m" "sends ops shut (cs m) (cs (Suc m))"
      by (rule weakly_fairD [OF fair])
    have "before_close (cs (Suc m)) < before_close (cs m)"
      by (rule sends_before_close [OF m(2) on])
    then have "before_close (cs (Suc m)) < before_close (cs n)" using later [OF m(1)] by linarith
    then show False
      using less.hyps later [of "Suc m"] m(1) by auto
  qed
  then show False using assms(3) .
qed

lemma half_ends:
  assumes fair: "weakly_fair (\<lambda>c. on c \<and> cc_cancelled c) (\<lambda>c c'. \<not> on c') cs"
    and token: "\<And>m. n \<le> m \<Longrightarrow> cc_cancelled (cs m)"
  shows "\<exists>m\<ge>n. \<not> on (cs m)"
proof (rule ccontr)
  assume "\<not> ?thesis"
  then have on: "on (cs m)" if "n \<le> m" for m using that by blast
  then obtain m where "n \<le> m" "\<not> on (cs (Suc m))"
    using weakly_fairD [OF fair, of n] token by blast
  then show False using on [of "Suc m"] by simp
qed

section \<open>Properties of runs\<close>

text \<open>C15: The client ends: in every run from its start with a weakly fair scheduler, once a close
  message is queued or one half has cancelled the token, both halves end and stay ended, whatever
  is received and queued meanwhile. The scheduler also stands for the peer: that the write half gets
  its turns says that the peer goes on taking what is written.\<close>

theorem client_ends:
  assumes "client_execution ops shut H cs" and "fair_client ops shut cs"
    and "closing (cs n) \<or> cc_cancelled (cs n)"
  shows "\<exists>k. \<forall>m. \<not> cc_reading (cs (k + m)) \<and> \<not> cc_writing (cs (k + m))"
proof -
  have steps: "run_step ops shut H (cs n) (cs (Suc n))" for n
    using assms(1) by (simp add: client_execution_def)
  note keeps = run_step_keeps [OF steps]
  have "token_ok (cs 0)" using assms(1) by (auto simp: client_execution_def client_run_def token_ok_def)
  then have token: "token_ok (cs m)" for m
    using kept_from [where P = token_ok and cs = cs and n = 0] keeps(1) by blast
  have "\<exists>m. cc_cancelled (cs m)"
    using assms(3)
  proof
    assume "closing (cs n)"
    then obtain m where "\<not> cc_writing (cs m)"
      using writer_ends [of ops shut H cs n] steps assms(2) by (auto simp: fair_client_def)
    then show ?thesis using token [of m] by (auto simp: token_ok_def)
  qed blast
  then obtain k where k: "cc_cancelled (cs k)" by blast
  have cancelled: "cc_cancelled (cs m)" if "k \<le> m" for m
    using kept_from [where P = cc_cancelled and cs = cs, OF keeps(4) k that] .
  obtain i where i: "\<not> cc_reading (cs i)"
    using half_ends [of cc_reading cs k] cancelled assms(2) by (auto simp: fair_client_def)
  obtain j where j: "\<not> cc_writing (cs j)"
    using half_ends [of cc_writing cs k] cancelled assms(2) by (auto simp: fair_client_def)
  have "\<not> cc_reading (cs (i + j + m))" for m
    using kept_from [where P = "\<lambda>c. \<not> cc_reading c" and cs = cs, OF keeps(2) i, of "i + j + m"] by simp
  moreover have "\<not> cc_writing (cs (i + j + m))" for m
    using kept_from [where P = "\<lambda>c. \<not> cc_writing c" and cs = cs, OF keeps(3) j, of "i + j + m"] by simp
  ultimately show ?thesis by blast
qed

text \<open>A run for the example: the session is closed at once, the write half ends, then the read half.\<close>

abbreviation silent :: "(unit, client_error) client_handler" where
  "silent \<equiv> default_client_handler (\<lambda>e. e)"

definition closed_run :: "nat \<Rightarrow> (pipe, unit) client_conn" where
  "closed_run n =
     (let c = client_run \<lparr>pipe_in = [], pipe_out = []\<rparr> () in
      if n = 0 then c
      else if n = 1 then c\<lparr>cc_queue := [[]]\<rparr>
      else if n = 2 then c\<lparr>cc_writing := False, cc_cancelled := True\<rparr>
      else c\<lparr>cc_writing := False, cc_reading := False, cc_cancelled := True\<rparr>)"

lemma closed_run_ended: "3 \<le> n \<Longrightarrow> \<not> cc_reading (closed_run n) \<and> \<not> cc_writing (closed_run n)"
  by (simp add: closed_run_def Let_def)

lemma closed_run_steps: "run_step pipe_ops (\<lambda>p. p) silent (closed_run n) (closed_run (Suc n))"
proof -
  consider "n = 0" | "n = 1" | "n = 2" | "3 \<le> n" by linarith
  then show ?thesis
  proof cases
    case 1
    then show ?thesis by (simp add: run_step_def queue_data_def closed_run_def client_run_def Let_def)
  next
    case 2
    have "client_step pipe_ops (\<lambda>p. p) silent (closed_run 1) (write_iteration pipe_ops (\<lambda>p. p) []
        ((closed_run 1)\<lparr>cc_queue := []\<rparr>))"
      by (rule client_step.transmit) (simp_all add: closed_run_def client_run_def Let_def)
    then show ?thesis
      using 2 by (simp add: run_step_def write_iteration_def closed_run_def client_run_def Let_def numeral_2_eq_2)
  next
    case 3
    have "client_step pipe_ops (\<lambda>p. p) silent (closed_run 2)
        ((closed_run 2)\<lparr>cc_reading := False, cc_cancelled := True\<rparr>)"
      by (rule client_step.read_cancelled) (simp_all add: closed_run_def client_run_def Let_def)
    then show ?thesis
      using 3 by (simp add: run_step_def closed_run_def client_run_def Let_def)
  next
    case 4
    then show ?thesis by (simp add: run_step_def closed_run_def Let_def)
  qed
qed

lemma closed_run_fair: "fair_client pipe_ops (\<lambda>p. p) closed_run"
proof -
  have "weakly_fair enabled taken closed_run"
    if "\<And>n. 3 \<le> n \<Longrightarrow> \<not> enabled (closed_run n)" for enabled and taken :: "_ \<Rightarrow> _ \<Rightarrow> bool"
    unfolding weakly_fair_def using that by (meson max.cobounded1 max.cobounded2)
  then show ?thesis using closed_run_ended by (simp add: fair_client_def)
qed

theorem client_ends_witness:
  "\<exists>k. \<forall>m. \<not> cc_reading (closed_run (k + m)) \<and> \<not> cc_writing (closed_run (k + m))"
proof (rule client_ends [OF _ closed_run_fair, of silent 1])
  show "client_execution pipe_ops (\<lambda>p. p) silent closed_run"
    using closed_run_steps by (auto simp: client_execution_def closed_run_def)
  show "closing (closed_run 1) \<or> cc_cancelled (closed_run 1)"
    by (simp add: closing_def closed_run_def Let_def)
qed

end
