(* ===== verification/RawSession.thy ===== *)
theory RawSession
  imports Client
begin

text \<open>
  \<^verbatim>\<open>src/client/rawsession.rs\<close>: the request--response client. One record holds what the code
  shares between tasks: the queue to the write half, the map from request ids to the senders of
  one-shot channels, the counters, the options, and the protocol version the reader has seen.
  A channel is a number; its message and whether its receiver is alive are in the record too.

  A method suspends once, while it waits for its reply. Everything other tasks do meanwhile is the
  argument \<open>W\<close> (a \<open>waits\<close>): it maps the state at suspension, with whatever state \<^typ>\<open>'w\<close> the outside
  world has, to the state when the wait ends. \<open>end_send\<close> then finds a message, or a channel nobody
  can send to any more, or has run out of time. \<open>task_step\<close> is the same at the level of all tasks.
\<close>

section \<open>Limits\<close>

record limits =
  lim_read_len :: "u64 option"
  lim_write_len :: "u64 option"
  lim_open_handles :: "u64 option"

definition limits_default :: limits where
  "limits_default = \<lparr>lim_read_len = None, lim_write_len = None, lim_open_handles = None\<rparr>"

definition limits_of_extension :: "limits_msg \<Rightarrow> limits" where
  "limits_of_extension l =
     \<lparr>lim_read_len = (if limits_max_read_len l > 0 then Some (limits_max_read_len l) else None),
      lim_write_len = (if limits_max_write_len l > 0 then Some (limits_max_write_len l) else None),
      lim_open_handles =
        (if limits_max_open_handles l > 0 then Some (limits_max_open_handles l) else None)\<rparr>"

section \<open>The session\<close>

type_synonym reply = "(packet, client_error) result"

record raw_session =
  rs_tx_closed :: bool
  rs_tx :: "bytes list"
  rs_requests :: "(u32 option \<times> nat) list"
  rs_next_req_id :: u32
  rs_handles :: u64
  rs_timeout :: u64
  rs_limits :: limits
  rs_version :: "u32 option"
  rs_inbox :: "nat \<Rightarrow> reply option"
  rs_receivers :: "nat set"
  rs_channels :: nat

definition raw_new :: raw_session where
  "raw_new =
     \<lparr>rs_tx_closed = False, rs_tx = [], rs_requests = [], rs_next_req_id = 1, rs_handles = 0,
      rs_timeout = 10, rs_limits = limits_default, rs_version = None, rs_inbox = (\<lambda>_. None),
      rs_receivers = {}, rs_channels = 0\<rparr>"

definition set_timeout :: "u64 \<Rightarrow> raw_session \<Rightarrow> raw_session" where
  "set_timeout secs s = s\<lparr>rs_timeout := secs\<rparr>"

definition set_limits :: "limits \<Rightarrow> raw_session \<Rightarrow> raw_session" where
  "set_limits l s = s\<lparr>rs_limits := l\<rparr>"

section \<open>Replies, in the reader\<close>

definition unknown_recipient :: "u32 option \<Rightarrow> msg" where
  "unknown_recipient rid =
     [Lit ''Packet ''] @
     (case rid of None \<Rightarrow> [Lit ''None''] | Some n \<Rightarrow> [Lit ''Some('', Num (unat n), Lit '')'']) @
     [Lit '' for unknown recipient'']"

text \<open>\<^verbatim>\<open>try_send\<close> on a channel of capacity one.\<close>

definition try_send :: "nat \<Rightarrow> reply \<Rightarrow> raw_session \<Rightarrow> (unit, client_error) result \<times> raw_session" where
  "try_send sender r s =
     (if sender \<notin> rs_receivers s
      then (Err (CE_UnexpectedBehavior [CrateDisplay ''TrySendError::Closed'']), s)
      else if rs_inbox s sender \<noteq> None
      then (Err (CE_UnexpectedBehavior [CrateDisplay ''TrySendError::Full'']), s)
      else (Ok (), s\<lparr>rs_inbox := (rs_inbox s)(sender := Some r)\<rparr>))"

definition session_reply ::
  "u32 option \<Rightarrow> packet \<Rightarrow> raw_session \<Rightarrow> (unit, client_error) result \<times> raw_session" where
  "session_reply rid packet s =
     (case map_of (rs_requests s) rid of
        Some sender \<Rightarrow>
          let s = s\<lparr>rs_requests := AList.delete rid (rs_requests s)\<rparr>;
              validate =
                (if rid \<noteq> None \<and> rs_version s = None then Err CE_UnexpectedPacket
                 else if rid = None \<and> rs_version s \<noteq> None
                 then Err (CE_UnexpectedBehavior [Lit ''Duplicate version''])
                 else Ok ())
          in (case try_send sender (map_ok (\<lambda>_. packet) validate) s of
                (Err e, s) \<Rightarrow> (Err e, s)
              | (Ok _, s) \<Rightarrow> (validate, s))
      | None \<Rightarrow> (Err (CE_UnexpectedBehavior (unknown_recipient rid)), s))"

definition inner_version ::
  "version_msg \<Rightarrow> raw_session \<Rightarrow> (unit, client_error) result \<times> raw_session" where
  "inner_version packet s =
     (let version = version_version packet in
      case session_reply None (Version packet) s of
        (Err e, s) \<Rightarrow> (Err e, s)
      | (Ok _, s) \<Rightarrow> (Ok (), s\<lparr>rs_version := Some version\<rparr>))"

definition inner_handler :: "(raw_session, client_error) client_handler" where
  "inner_handler =
     \<lparr>ch_into_error = (\<lambda>e. e),
      ch_version = inner_version,
      ch_status = (\<lambda>status. session_reply (Some (status_id status)) (Status status)),
      ch_handle = (\<lambda>handle. session_reply (Some (handle_id handle)) (Handle handle)),
      ch_data = (\<lambda>data. session_reply (Some (data_id data)) (Data data)),
      ch_name = (\<lambda>name. session_reply (Some (name_id name)) (Name name)),
      ch_attrs = (\<lambda>attrs. session_reply (Some (attrs_reply_id attrs)) (Attrs attrs)),
      ch_extended_reply =
        (\<lambda>reply. session_reply (Some (extended_reply_id reply)) (ExtendedReply reply))\<rparr>"

section \<open>Sending a request\<close>

definition use_next_id :: "raw_session \<Rightarrow> u32 \<times> raw_session" where
  "use_next_id s = (rs_next_req_id s, s\<lparr>rs_next_req_id := rs_next_req_id s + 1\<rparr>)"

definition tx_send :: "bytes \<Rightarrow> raw_session \<Rightarrow> (unit, client_error) result \<times> raw_session" where
  "tx_send bytes s =
     (if rs_tx_closed s then (Err client_error_of_send, s)
      else (Ok (), s\<lparr>rs_tx := rs_tx s @ [bytes]\<rparr>))"

definition drop_receiver :: "nat \<Rightarrow> raw_session \<Rightarrow> raw_session" where
  "drop_receiver c s =
     s\<lparr>rs_receivers := rs_receivers s - {c}, rs_inbox := (rs_inbox s)(c := None)\<rparr>"

text \<open>The part of \<^verbatim>\<open>send\<close> before it waits, which answers the channel to wait on.\<close>

definition begin_send ::
  "u32 option \<Rightarrow> packet \<Rightarrow> raw_session \<Rightarrow> (nat, client_error) result \<times> raw_session" where
  "begin_send rid packet s =
     (if rs_tx_closed s then (Err (CE_UnexpectedBehavior [Lit ''session closed'']), s)
      else
        let c = rs_channels s;
            s = s\<lparr>rs_channels := c + 1, rs_receivers := insert c (rs_receivers s)\<rparr>;
            s = s\<lparr>rs_requests := AList.update rid c (rs_requests s)\<rparr>
        in (case bytes_of_packet packet of
              Err e \<Rightarrow> (Err (client_error_of_error e), drop_receiver c s)
            | Ok bytes \<Rightarrow>
                (case tx_send bytes s of
                   (Err e, s) \<Rightarrow> (Err e, drop_receiver c s)
                 | (Ok _, s) \<Rightarrow> (Ok c, s))))"

text \<open>
  The part after the wait, when there is a message, no sender is left, or the time is over. The
  timeout of tokio polls the channel before its clock, so a message or a lost sender comes first.
\<close>

definition has_sender :: "nat \<Rightarrow> raw_session \<Rightarrow> bool" where
  "has_sender c s \<longleftrightarrow> c \<in> snd ` set (rs_requests s)"

definition end_send :: "u32 option \<Rightarrow> nat \<Rightarrow> raw_session \<Rightarrow> reply \<times> raw_session" where
  "end_send rid c s =
     (case rs_inbox s c of
        Some result \<Rightarrow> (result, drop_receiver c s)
      | None \<Rightarrow>
          let e = (if has_sender c s then client_error_of_elapsed
                   else CE_UnexpectedBehavior [Lit ''recv none message'']);
              s = s\<lparr>rs_requests := AList.delete rid (rs_requests s)\<rparr>
          in (Err e, drop_receiver c s))"

type_synonym 'w waits = "nat \<Rightarrow> u64 \<Rightarrow> raw_session \<times> 'w \<Rightarrow> raw_session \<times> 'w"

definition send ::
  "'w waits \<Rightarrow> u32 option \<Rightarrow> packet \<Rightarrow> raw_session \<times> 'w \<Rightarrow> reply \<times> raw_session \<times> 'w" where
  "send W rid packet sw =
     (case sw of (s, w) \<Rightarrow>
        (case begin_send rid packet s of
           (Err e, s) \<Rightarrow> (Err e, s, w)
         | (Ok c, s) \<Rightarrow>
             (case W c (rs_timeout s) (s, w) of (s, w) \<Rightarrow>
                (case end_send rid c s of (r, s) \<Rightarrow> (r, s, w)))))"

definition close_session :: "raw_session \<Rightarrow> (unit, client_error) result \<times> raw_session" where
  "close_session s = (if rs_tx_closed s then (Ok (), s) else tx_send [] s)"

text \<open>Dropping the session closes it and ignores the result.\<close>

definition drop_session :: "raw_session \<Rightarrow> raw_session" where
  "drop_session s = snd (close_session s)"

section \<open>The methods\<close>

text \<open>The \<^verbatim>\<open>?\<close> operator on a result with the state after it.\<close>

definition and_then ::
  "('a, 'e) result \<times> 's \<Rightarrow> ('a \<Rightarrow> 's \<Rightarrow> ('b, 'e) result \<times> 's) \<Rightarrow> ('b, 'e) result \<times> 's" where
  "and_then r f = (case r of (Err e, s) \<Rightarrow> (Err e, s) | (Ok x, s) \<Rightarrow> f x s)"

lemma and_then_simps [simp]:
  "and_then (Ok x, s) f = f x s"
  "and_then (Err e, s) f = (Err e, s)"
  by (simp_all add: and_then_def)

text \<open>\<^verbatim>\<open>send(Some(id), packet)\<close> under the next id, as every method but \<^verbatim>\<open>init\<close> calls it.\<close>

definition request ::
  "'w waits \<Rightarrow> (u32 \<Rightarrow> packet) \<Rightarrow> raw_session \<times> 'w \<Rightarrow> reply \<times> raw_session \<times> 'w" where
  "request W packet sw =
     (case sw of (s, w) \<Rightarrow>
        (case use_next_id s of (rid, s) \<Rightarrow> send W (Some rid) (packet rid) (s, w)))"

fun as_handle :: "packet \<Rightarrow> handle_msg option" where
  "as_handle (Handle p) = Some p"
| "as_handle _ = None"

fun as_data :: "packet \<Rightarrow> data_msg option" where
  "as_data (Data p) = Some p"
| "as_data _ = None"

fun as_attrs :: "packet \<Rightarrow> attrs_reply_msg option" where
  "as_attrs (Attrs p) = Some p"
| "as_attrs _ = None"

fun as_name :: "packet \<Rightarrow> name_msg option" where
  "as_name (Name p) = Some p"
| "as_name _ = None"

definition into_with_status :: "(packet \<Rightarrow> 'a option) \<Rightarrow> packet \<Rightarrow> ('a, client_error) result" where
  "into_with_status variant result =
     (case variant result of
        Some p \<Rightarrow> Ok p
      | None \<Rightarrow>
          (case result of
             Status p \<Rightarrow> Err (client_error_of_status p)
           | _ \<Rightarrow> Err CE_UnexpectedPacket))"

definition into_status :: "packet \<Rightarrow> (status_msg, client_error) result" where
  "into_status result =
     (case result of
        Status status \<Rightarrow>
          if status_status_code status = SC_Ok then Ok status
          else Err (client_error_of_status status)
      | _ \<Rightarrow> Err CE_UnexpectedPacket)"

definition raw_init :: "'w waits \<Rightarrow> raw_session \<times> 'w \<Rightarrow> (version_msg, client_error) result \<times> raw_session \<times> 'w" where
  "raw_init W sw =
     and_then (send W None (Init init_new) sw) (\<lambda>result sw.
       (case result of Version version \<Rightarrow> Ok version | _ \<Rightarrow> Err CE_UnexpectedPacket, sw))"

definition handle_limit_reached :: "raw_session \<Rightarrow> bool" where
  "handle_limit_reached s =
     (case lim_open_handles (rs_limits s) of None \<Rightarrow> False | Some h \<Rightarrow> rs_handles s \<ge> h)"

definition count_handle :: "packet \<Rightarrow> raw_session \<times> 'w \<Rightarrow> raw_session \<times> 'w" where
  "count_handle result sw =
     (case (result, sw) of
        (Handle _, (s, w)) \<Rightarrow> (s\<lparr>rs_handles := rs_handles s + 1\<rparr>, w)
      | _ \<Rightarrow> sw)"

definition raw_open ::
  "'w waits \<Rightarrow> bytes \<Rightarrow> u32 \<Rightarrow> file_attributes \<Rightarrow> raw_session \<times> 'w
     \<Rightarrow> (handle_msg, client_error) result \<times> raw_session \<times> 'w" where
  "raw_open W filename flags attrs sw =
     (if handle_limit_reached (fst sw)
      then (Err (CE_Limited [Lit ''handle limit reached'']), sw)
      else and_then
        (request W (\<lambda>rid. Open \<lparr>open_id = rid, open_filename = filename, open_pflags = flags,
           open_attrs = attrs\<rparr>) sw)
        (\<lambda>result sw. (into_with_status as_handle result, count_handle result sw)))"

text \<open>A successful close counts a handle down, never below zero (a warning is logged instead).\<close>

definition uncount_handle :: "packet \<Rightarrow> raw_session \<times> 'w \<Rightarrow> raw_session \<times> 'w" where
  "uncount_handle result sw =
     (case (result, sw) of
        (Status status, (s, w)) \<Rightarrow>
          if status_status_code status = SC_Ok \<and> rs_handles s > 0
          then (s\<lparr>rs_handles := rs_handles s - 1\<rparr>, w) else sw
      | _ \<Rightarrow> sw)"

definition raw_close ::
  "'w waits \<Rightarrow> bytes \<Rightarrow> raw_session \<times> 'w \<Rightarrow> (status_msg, client_error) result \<times> raw_session \<times> 'w" where
  "raw_close W handle sw =
     and_then (request W (\<lambda>rid. Close \<lparr>close_id = rid, close_handle = handle\<rparr>) sw)
       (\<lambda>result sw. (into_status result, uncount_handle result sw))"

definition raw_read ::
  "'w waits \<Rightarrow> bytes \<Rightarrow> u64 \<Rightarrow> u32 \<Rightarrow> raw_session \<times> 'w
     \<Rightarrow> (data_msg, client_error) result \<times> raw_session \<times> 'w" where
  "raw_read W handle offset n sw =
     (if (case lim_read_len (rs_limits (fst sw)) of None \<Rightarrow> False | Some r \<Rightarrow> ucast n > r)
      then (Err (CE_Limited [Lit ''read limit reached'']), sw)
      else and_then
        (request W (\<lambda>rid. Read \<lparr>read_id = rid, read_handle = handle, read_offset = offset,
           read_len = n\<rparr>) sw)
        (\<lambda>result sw. (into_with_status as_data result, sw)))"

text \<open>A length in memory is a 64-bit \<^verbatim>\<open>usize\<close>, so its conversion to \<^verbatim>\<open>u64\<close> is exact.\<close>

definition raw_write ::
  "'w waits \<Rightarrow> bytes \<Rightarrow> u64 \<Rightarrow> bytes \<Rightarrow> raw_session \<times> 'w
     \<Rightarrow> (status_msg, client_error) result \<times> raw_session \<times> 'w" where
  "raw_write W handle offset data sw =
     (if (case lim_write_len (rs_limits (fst sw)) of None \<Rightarrow> False | Some n \<Rightarrow> length data > unat n)
      then (Err (CE_Limited [Lit ''write limit reached'']), sw)
      else and_then
        (request W (\<lambda>rid. Write \<lparr>write_id = rid, write_handle = handle, write_offset = offset,
           write_data = data\<rparr>) sw)
        (\<lambda>result sw. (into_status result, sw)))"

definition raw_opendir ::
  "'w waits \<Rightarrow> bytes \<Rightarrow> raw_session \<times> 'w \<Rightarrow> (handle_msg, client_error) result \<times> raw_session \<times> 'w" where
  "raw_opendir W path sw =
     (if handle_limit_reached (fst sw)
      then (Err (CE_Limited [Lit ''Handle limit reached'']), sw)
      else and_then
        (request W (\<lambda>rid. OpenDir \<lparr>opendir_id = rid, opendir_path = path\<rparr>) sw)
        (\<lambda>result sw. (into_with_status as_handle result, count_handle result sw)))"

definition raw_lstat ::
  "'w waits \<Rightarrow> bytes \<Rightarrow> raw_session \<times> 'w
     \<Rightarrow> (attrs_reply_msg, client_error) result \<times> raw_session \<times> 'w" where
  "raw_lstat W path sw =
     and_then
       (request W (\<lambda>rid. Lstat \<lparr>lstat_id = rid, lstat_path = path\<rparr>) sw)
       (\<lambda>result sw. (into_with_status as_attrs result, sw))"

definition raw_fstat ::
  "'w waits \<Rightarrow> bytes \<Rightarrow> raw_session \<times> 'w
     \<Rightarrow> (attrs_reply_msg, client_error) result \<times> raw_session \<times> 'w" where
  "raw_fstat W handle sw =
     and_then
       (request W (\<lambda>rid. Fstat \<lparr>fstat_id = rid, fstat_handle = handle\<rparr>) sw)
       (\<lambda>result sw. (into_with_status as_attrs result, sw))"

definition raw_setstat ::
  "'w waits \<Rightarrow> bytes \<Rightarrow> file_attributes \<Rightarrow> raw_session \<times> 'w
     \<Rightarrow> (status_msg, client_error) result \<times> raw_session \<times> 'w" where
  "raw_setstat W path attrs sw =
     and_then
       (request W (\<lambda>rid. SetStat \<lparr>setstat_id = rid, setstat_path = path,
           setstat_attrs = attrs\<rparr>) sw)
       (\<lambda>result sw. (into_status result, sw))"

definition raw_fsetstat ::
  "'w waits \<Rightarrow> bytes \<Rightarrow> file_attributes \<Rightarrow> raw_session \<times> 'w
     \<Rightarrow> (status_msg, client_error) result \<times> raw_session \<times> 'w" where
  "raw_fsetstat W handle attrs sw =
     and_then
       (request W (\<lambda>rid. FSetStat \<lparr>fsetstat_id = rid, fsetstat_handle = handle,
           fsetstat_attrs = attrs\<rparr>) sw)
       (\<lambda>result sw. (into_status result, sw))"

definition raw_readdir ::
  "'w waits \<Rightarrow> bytes \<Rightarrow> raw_session \<times> 'w
     \<Rightarrow> (name_msg, client_error) result \<times> raw_session \<times> 'w" where
  "raw_readdir W handle sw =
     and_then
       (request W (\<lambda>rid. ReadDir \<lparr>readdir_id = rid,
           readdir_handle = handle\<rparr>) sw)
       (\<lambda>result sw. (into_with_status as_name result, sw))"

definition raw_remove ::
  "'w waits \<Rightarrow> bytes \<Rightarrow> raw_session \<times> 'w
     \<Rightarrow> (status_msg, client_error) result \<times> raw_session \<times> 'w" where
  "raw_remove W filename sw =
     and_then
       (request W (\<lambda>rid. Remove \<lparr>remove_id = rid,
           remove_filename = filename\<rparr>) sw)
       (\<lambda>result sw. (into_status result, sw))"

definition raw_mkdir ::
  "'w waits \<Rightarrow> bytes \<Rightarrow> file_attributes \<Rightarrow> raw_session \<times> 'w
     \<Rightarrow> (status_msg, client_error) result \<times> raw_session \<times> 'w" where
  "raw_mkdir W path attrs sw =
     and_then
       (request W (\<lambda>rid. MkDir \<lparr>mkdir_id = rid, mkdir_path = path,
           mkdir_attrs = attrs\<rparr>) sw)
       (\<lambda>result sw. (into_status result, sw))"

definition raw_rmdir ::
  "'w waits \<Rightarrow> bytes \<Rightarrow> raw_session \<times> 'w
     \<Rightarrow> (status_msg, client_error) result \<times> raw_session \<times> 'w" where
  "raw_rmdir W path sw =
     and_then
       (request W (\<lambda>rid. RmDir \<lparr>rmdir_id = rid, rmdir_path = path\<rparr>) sw)
       (\<lambda>result sw. (into_status result, sw))"

definition raw_realpath ::
  "'w waits \<Rightarrow> bytes \<Rightarrow> raw_session \<times> 'w
     \<Rightarrow> (name_msg, client_error) result \<times> raw_session \<times> 'w" where
  "raw_realpath W path sw =
     and_then
       (request W (\<lambda>rid. RealPath \<lparr>realpath_id = rid,
           realpath_path = path\<rparr>) sw)
       (\<lambda>result sw. (into_with_status as_name result, sw))"

definition raw_stat ::
  "'w waits \<Rightarrow> bytes \<Rightarrow> raw_session \<times> 'w
     \<Rightarrow> (attrs_reply_msg, client_error) result \<times> raw_session \<times> 'w" where
  "raw_stat W path sw =
     and_then
       (request W (\<lambda>rid. Stat \<lparr>stat_id = rid, stat_path = path\<rparr>) sw)
       (\<lambda>result sw. (into_with_status as_attrs result, sw))"

definition raw_rename ::
  "'w waits \<Rightarrow> bytes \<Rightarrow> bytes \<Rightarrow> raw_session \<times> 'w
     \<Rightarrow> (status_msg, client_error) result \<times> raw_session \<times> 'w" where
  "raw_rename W oldpath newpath sw =
     and_then
       (request W (\<lambda>rid. Rename \<lparr>rename_id = rid, rename_oldpath = oldpath,
           rename_newpath = newpath\<rparr>) sw)
       (\<lambda>result sw. (into_status result, sw))"

definition raw_readlink ::
  "'w waits \<Rightarrow> bytes \<Rightarrow> raw_session \<times> 'w
     \<Rightarrow> (name_msg, client_error) result \<times> raw_session \<times> 'w" where
  "raw_readlink W path sw =
     and_then
       (request W (\<lambda>rid. ReadLink \<lparr>readlink_id = rid,
           readlink_path = path\<rparr>) sw)
       (\<lambda>result sw. (into_with_status as_name result, sw))"

definition raw_symlink ::
  "'w waits \<Rightarrow> bytes \<Rightarrow> bytes \<Rightarrow> raw_session \<times> 'w
     \<Rightarrow> (status_msg, client_error) result \<times> raw_session \<times> 'w" where
  "raw_symlink W path target sw =
     and_then
       (request W (\<lambda>rid. Symlink \<lparr>symlink_id = rid, symlink_linkpath = path,
           symlink_targetpath = target\<rparr>) sw)
       (\<lambda>result sw. (into_status result, sw))"

subsection \<open>Extensions\<close>

definition EXT_LIMITS :: bytes where "EXT_LIMITS = lit ''limits@openssh.com''"

definition EXT_HARDLINK :: bytes where "EXT_HARDLINK = lit ''hardlink@openssh.com''"

definition EXT_FSYNC :: bytes where "EXT_FSYNC = lit ''fsync@openssh.com''"

definition EXT_STATVFS :: bytes where "EXT_STATVFS = lit ''statvfs@openssh.com''"

definition raw_extended ::
  "'w waits \<Rightarrow> bytes \<Rightarrow> bytes \<Rightarrow> raw_session \<times> 'w \<Rightarrow> reply \<times> raw_session \<times> 'w" where
  "raw_extended W name data sw =
     request W (\<lambda>rid. Extended \<lparr>extended_id = rid, extended_request = name,
       extended_data = data\<rparr>) sw"

text \<open>The reply of an extension that answers with data: parsed from its bytes.\<close>

definition reply_data :: "'a deserialize \<Rightarrow> packet \<Rightarrow> ('a, client_error) result" where
  "reply_data de result =
     (case result of
        ExtendedReply reply \<Rightarrow>
          map_ok fst (map_err client_error_of_error (from_bytes de (extended_reply_data reply)))
      | Status status \<Rightarrow>
          if status_status_code status \<noteq> SC_Ok then Err (CE_Status status)
          else Err CE_UnexpectedPacket
      | _ \<Rightarrow> Err CE_UnexpectedPacket)"

definition raw_limits ::
  "'w waits \<Rightarrow> raw_session \<times> 'w \<Rightarrow> (limits_msg, client_error) result \<times> raw_session \<times> 'w" where
  "raw_limits W sw =
     and_then (raw_extended W EXT_LIMITS [] sw) (\<lambda>result sw. (reply_data de_limits result, sw))"

text \<open>The payload of an extended request: serialized before anything is sent.\<close>

definition with_payload ::
  "'a serialize \<Rightarrow> 'a \<Rightarrow> 's \<Rightarrow> (bytes \<Rightarrow> 's \<Rightarrow> ('b, client_error) result \<times> 's)
     \<Rightarrow> ('b, client_error) result \<times> 's" where
  "with_payload ser v s f = and_then (map_err client_error_of_error (to_bytes ser v), s) f"

definition raw_hardlink ::
  "'w waits \<Rightarrow> bytes \<Rightarrow> bytes \<Rightarrow> raw_session \<times> 'w
     \<Rightarrow> (status_msg, client_error) result \<times> raw_session \<times> 'w" where
  "raw_hardlink W oldpath newpath sw =
     with_payload ser_hardlink \<lparr>hardlink_oldpath = oldpath, hardlink_newpath = newpath\<rparr> sw (\<lambda>data sw.
     and_then (raw_extended W EXT_HARDLINK data sw) (\<lambda>result sw. (into_status result, sw)))"

definition raw_fsync ::
  "'w waits \<Rightarrow> bytes \<Rightarrow> raw_session \<times> 'w \<Rightarrow> (status_msg, client_error) result \<times> raw_session \<times> 'w" where
  "raw_fsync W handle sw =
     with_payload ser_fsync \<lparr>fsync_handle = handle\<rparr> sw (\<lambda>data sw.
     and_then (raw_extended W EXT_FSYNC data sw) (\<lambda>result sw. (into_status result, sw)))"

definition raw_statvfs ::
  "'w waits \<Rightarrow> bytes \<Rightarrow> raw_session \<times> 'w \<Rightarrow> (statvfs_msg, client_error) result \<times> raw_session \<times> 'w" where
  "raw_statvfs W path sw =
     with_payload ser_statvfs_request \<lparr>statvfs_request_path = path\<rparr> sw (\<lambda>data sw.
     and_then (raw_extended W EXT_STATVFS data sw) (\<lambda>result sw. (reply_data de_statvfs result, sw)))"

section \<open>Properties of replies\<close>

text \<open> A reply to an id nobody waits for, such as a second reply to the same request, is reported and
  changes nothing.\<close>

theorem reply_to_nobody:
  assumes "map_of (rs_requests s) rid = None"
  shows "session_reply rid p s = (Err (CE_UnexpectedBehavior (unknown_recipient rid)), s)"
  using assms by (simp add: session_reply_def)

theorem reply_to_nobody_witness:
  "session_reply (Some 5) (packet_error 5 SC_Ok) raw_new
     = (Err (CE_UnexpectedBehavior (unknown_recipient (Some 5))), raw_new)"
  by (rule reply_to_nobody) (simp add: raw_new_def)

text \<open>A reply to a waiting call is delivered to it and its entry removed, so a second one finds
  nobody; before the version exchange the call gets an unexpected-packet error instead, and so
  does the reader.\<close>

theorem reply_delivered_once:
  assumes "map_of (rs_requests s) (Some i) = Some c" and "c \<in> rs_receivers s" and "rs_inbox s c = None"
  shows "case session_reply (Some i) p s of (r, s') \<Rightarrow>
      rs_inbox s' c = Some (if rs_version s = None then Err CE_UnexpectedPacket else Ok p)
    \<and> r = (if rs_version s = None then Err CE_UnexpectedPacket else Ok ())
    \<and> map_of (rs_requests s') (Some i) = None"
  using assms by (simp add: session_reply_def try_send_def delete_conv' Let_def)

theorem reply_delivered_once_witness:
  "case session_reply (Some 1) (packet_error 1 SC_Ok)
      (raw_new\<lparr>rs_requests := [(Some 1, 0)], rs_receivers := {0}, rs_version := Some 3\<rparr>) of (r, s') \<Rightarrow>
      rs_inbox s' 0 = Some (if rs_version
        (raw_new\<lparr>rs_requests := [(Some 1, 0)], rs_receivers := {0}, rs_version := Some 3\<rparr>) = None
        then Err CE_UnexpectedPacket else Ok (packet_error 1 SC_Ok))
    \<and> r = (if rs_version
        (raw_new\<lparr>rs_requests := [(Some 1, 0)], rs_receivers := {0}, rs_version := Some 3\<rparr>) = None
        then Err CE_UnexpectedPacket else Ok ())
    \<and> map_of (rs_requests s') (Some 1) = None"
  by (rule reply_delivered_once) (simp_all add: raw_new_def)

text \<open> A successful status is an error to the methods that expect data: they return the status as the
  error, whatever its code, and only the methods that expect a status tell success from failure.\<close>

theorem status_as_error:
  "into_with_status as_data (Status st) = Err (CE_Status st)
   \<and> into_with_status as_handle (Status st) = Err (CE_Status st)
   \<and> into_status (Status st)
       = (if status_status_code st = SC_Ok then Ok st else Err (CE_Status st))"
  by (simp add: into_with_status_def into_status_def client_error_of_status_def)

end
