(* ===== verification/Tasks.thy ===== *)
theory Tasks
  imports RawSession
begin

text \<open>
  All tasks of one client at once: callers that send requests and wait, the reader that hands
  packets to the session, the writer that takes data off the queue. \<open>ts_waiting\<close> lists the calls
  that are suspended, with their channel and the id they were sent under; \<open>ts_done\<close> the calls that
  returned from \<^verbatim>\<open>send\<close>, with their result; \<open>ts_started\<close> and \<open>ts_inits\<close> count the requests and
  the initializations begun. Each step is a stretch of the code without an await.
\<close>

record task_state =
  ts_session :: raw_session
  ts_waiting :: "(nat \<times> u32 option) list"
  ts_done :: "(u32 option \<times> reply) list"
  ts_started :: nat
  ts_inits :: nat

definition tasks_new :: task_state where
  "tasks_new = \<lparr>ts_session = raw_new, ts_waiting = [], ts_done = [], ts_started = 0, ts_inits = 0\<rparr>"

text \<open>A call begins: it is suspended on its channel, or returns with an error at once.\<close>

definition call_begins :: "u32 option \<Rightarrow> packet \<Rightarrow> task_state \<Rightarrow> task_state" where
  "call_begins rid p ts =
     (case begin_send rid p (ts_session ts) of
        (Ok c, s) \<Rightarrow> ts\<lparr>ts_session := s, ts_waiting := (c, rid) # ts_waiting ts\<rparr>
      | (Err e, s) \<Rightarrow> ts\<lparr>ts_session := s, ts_done := (rid, Err e) # ts_done ts\<rparr>)"

definition call_ends :: "nat \<Rightarrow> u32 option \<Rightarrow> task_state \<Rightarrow> task_state" where
  "call_ends c rid ts =
     (case end_send rid c (ts_session ts) of
        (r, s) \<Rightarrow> ts\<lparr>ts_session := s, ts_waiting := removeAll (c, rid) (ts_waiting ts),
                    ts_done := (rid, r) # ts_done ts\<rparr>)"

inductive task_step :: "task_state \<Rightarrow> task_state \<Rightarrow> bool" where
  begin_request: "use_next_id (ts_session ts) = (rid, s) \<Longrightarrow>
    task_step ts (call_begins (Some rid) p (ts\<lparr>ts_session := s, ts_started := ts_started ts + 1\<rparr>))"
| begin_init: "task_step ts (call_begins None p (ts\<lparr>ts_inits := ts_inits ts + 1\<rparr>))"
| finish: "(c, rid) \<in> set (ts_waiting ts) \<Longrightarrow> task_step ts (call_ends c rid ts)"
| receive: "execute_handler body inner_handler (ts_session ts) = (r, s) \<Longrightarrow>
    task_step ts (ts\<lparr>ts_session := s\<rparr>)"
| drain: "rs_tx (ts_session ts) = data # rest \<Longrightarrow>
    task_step ts (ts\<lparr>ts_session := (ts_session ts)\<lparr>rs_tx := rest\<rparr>\<rparr>)"
| stop_writing: "task_step ts (ts\<lparr>ts_session := (ts_session ts)\<lparr>rs_tx_closed := True\<rparr>\<rparr>)"
| close: "task_step ts (ts\<lparr>ts_session := drop_session (ts_session ts)\<rparr>)"
| count: "task_step ts (ts\<lparr>ts_session := (ts_session ts)\<lparr>rs_handles := n\<rparr>\<rparr>)"
| configure: "task_step ts (ts\<lparr>ts_session := set_timeout t (set_limits l (ts_session ts))\<rparr>)"

inductive task_reachable :: "task_state \<Rightarrow> bool" where
  initial: "task_reachable tasks_new"
| advance: "task_reachable ts \<Longrightarrow> task_step ts ts' \<Longrightarrow> task_reachable ts'"

inductive_cases task_stepE [consumes 1, case_names begin_request begin_init finish receive drain
    stop_writing close count configure]: "task_step ts ts'"

section \<open>Which packets answer which calls\<close>

text \<open>The key of the request map a packet is delivered under.\<close>

fun matches :: "u32 option \<Rightarrow> packet \<Rightarrow> bool" where
  "matches None p \<longleftrightarrow> (\<exists>v. p = Version v)"
| "matches (Some i) p \<longleftrightarrow> response_id p = Some i"

lemma inner_methods:
  "ch_version inner_handler = inner_version"
  "ch_status inner_handler = (\<lambda>m. session_reply (Some (status_id m)) (Status m))"
  "ch_handle inner_handler = (\<lambda>m. session_reply (Some (handle_id m)) (Handle m))"
  "ch_data inner_handler = (\<lambda>m. session_reply (Some (data_id m)) (Data m))"
  "ch_name inner_handler = (\<lambda>m. session_reply (Some (name_id m)) (Name m))"
  "ch_attrs inner_handler = (\<lambda>m. session_reply (Some (attrs_reply_id m)) (Attrs m))"
  "ch_extended_reply inner_handler =
     (\<lambda>m. session_reply (Some (extended_reply_id m)) (ExtendedReply m))"
  by (simp_all add: inner_handler_def)

lemma execute_inner:
  "(\<exists>r rid p. execute_handler body inner_handler s = (r, snd (session_reply rid p s)) \<and> matches rid p
        \<and> (\<exists>rest. packet_try_from body = Ok (p, rest)))
   \<or> (\<exists>r p v. execute_handler body inner_handler s
        = (r, (snd (session_reply None p s))\<lparr>rs_version := v\<rparr>) \<and> matches None p
        \<and> (\<exists>rest. packet_try_from body = Ok (p, rest)))
   \<or> (\<exists>r. execute_handler body inner_handler s = (r, s))
      \<and> (\<forall>p rest. packet_try_from body = Ok (p, rest) \<longrightarrow> response_id p = None)"
proof (cases "packet_try_from body")
  case (Err e)
  then show ?thesis by (simp add: execute_handler_def)
next
  case (Ok pr)
  obtain p rest where pr: "pr = (p, rest)" by (cases pr)
  have reply: "\<exists>r. client_into_wrap inner_handler (session_reply rid p s)
      = (r, snd (session_reply rid p s))" for rid p
    by (cases "session_reply rid p s"; cases "fst (session_reply rid p s)")
      (simp_all add: client_into_wrap_def)
  show ?thesis
  proof (cases "\<exists>v. p = Version v")
    case True
    then obtain v where v: "p = Version v" by blast
    have "execute_handler body inner_handler s = client_into_wrap inner_handler (inner_version v s)"
      using Ok pr v by (simp add: execute_handler_def inner_handler_def)
    moreover have "\<exists>r u. client_into_wrap inner_handler (inner_version v s)
        = (r, (snd (session_reply None p s))\<lparr>rs_version := u\<rparr>)"
    proof (cases "session_reply None p s")
      case (Pair q s')
      then show ?thesis
        using v
        by (cases q)
          (auto simp: client_into_wrap_def inner_version_def intro: exI [of _ "rs_version s'"])
    qed
    ultimately show ?thesis using v Ok pr by auto
  next
    case False
    show ?thesis
    proof (cases "response_id p")
      case None
      then have "\<exists>r. execute_handler body inner_handler s = (r, s)"
        using Ok pr False by (cases p) (simp_all add: execute_handler_def)
      then show ?thesis using Ok pr None by auto
    next
      case (Some i)
      then have "execute_handler body inner_handler s
          = client_into_wrap inner_handler (session_reply (Some i) p s)"
        using Ok pr by (cases p) (simp_all add: execute_handler_def inner_methods)
      moreover have "matches (Some i) p" using Some by simp
      moreover have "\<exists>rest. packet_try_from body = Ok (p, rest)" using Ok pr by simp
      ultimately show ?thesis using reply by metis
    qed
  qed
qed

section \<open>The invariant\<close>

definition session_ok :: "raw_session \<Rightarrow> (nat \<times> u32 option) list \<Rightarrow> bool" where
  "session_ok s w \<longleftrightarrow>
     distinct (map fst (rs_requests s)) \<and> distinct (map snd (rs_requests s))
   \<and> distinct (map fst w)
   \<and> (\<forall>(rid, c) \<in> set (rs_requests s). c < rs_channels s \<and> rs_inbox s c = None
        \<and> (c \<in> rs_receivers s \<longrightarrow> (c, rid) \<in> set w))
   \<and> (\<forall>(c, rid) \<in> set w. c < rs_channels s \<and> c \<in> rs_receivers s)
   \<and> (\<forall>c \<in> rs_receivers s. c < rs_channels s)
   \<and> (\<forall>c. rs_inbox s c \<noteq> None \<longrightarrow> c \<in> rs_receivers s)
   \<and> (\<forall>(c, rid) \<in> set w. \<forall>p. rs_inbox s c = Some (Ok p) \<longrightarrow> matches rid p)"

lemma session_okD:
  assumes "session_ok s w"
  shows "distinct (map fst (rs_requests s))" and "distinct (map snd (rs_requests s))"
    and "distinct (map fst w)"
    and "\<And>rid c. (rid, c) \<in> set (rs_requests s) \<Longrightarrow> c < rs_channels s \<and> rs_inbox s c = None
        \<and> (c \<in> rs_receivers s \<longrightarrow> (c, rid) \<in> set w)"
    and "\<And>c rid. (c, rid) \<in> set w \<Longrightarrow> c < rs_channels s \<and> c \<in> rs_receivers s"
    and "\<And>c. c \<in> rs_receivers s \<Longrightarrow> c < rs_channels s"
    and "\<And>c. rs_inbox s c \<noteq> None \<Longrightarrow> c \<in> rs_receivers s"
    and "\<And>c rid p. (c, rid) \<in> set w \<Longrightarrow> rs_inbox s c = Some (Ok p) \<Longrightarrow> matches rid p"
  using assms unfolding session_ok_def by blast+

lemma session_okI:
  assumes "distinct (map fst (rs_requests s))" and "distinct (map snd (rs_requests s))"
    and "distinct (map fst w)"
    and "\<And>rid c. (rid, c) \<in> set (rs_requests s) \<Longrightarrow> c < rs_channels s \<and> rs_inbox s c = None
        \<and> (c \<in> rs_receivers s \<longrightarrow> (c, rid) \<in> set w)"
    and "\<And>c rid. (c, rid) \<in> set w \<Longrightarrow> c < rs_channels s \<and> c \<in> rs_receivers s"
    and "\<And>c. c \<in> rs_receivers s \<Longrightarrow> c < rs_channels s"
    and "\<And>c. rs_inbox s c \<noteq> None \<Longrightarrow> c \<in> rs_receivers s"
    and "\<And>c rid p. (c, rid) \<in> set w \<Longrightarrow> rs_inbox s c = Some (Ok p) \<Longrightarrow> matches rid p"
  shows "session_ok s w"
  using assms unfolding session_ok_def by blast

lemma delete_facts:
  "set (AList.delete k m) = {kv \<in> set m. fst kv \<noteq> k}"
  "distinct (map fst m) \<Longrightarrow> distinct (map fst (AList.delete k m))"
  "distinct (map snd m) \<Longrightarrow> distinct (map snd (AList.delete k m))"
  by (auto simp: AList.delete_eq distinct_map_filter)

lemma update_facts:
  assumes "distinct (map fst m)" and "v \<notin> snd ` set m"
  shows "set (AList.update k v m) = insert (k, v) {kv \<in> set m. fst kv \<noteq> k}"
    and "distinct (map snd m) \<Longrightarrow> distinct (map snd (AList.update k v m))"
  using assms
proof -
  show set: "set (AList.update k v m) = insert (k, v) {kv \<in> set m. fst kv \<noteq> k}"
    if "distinct (map fst m)"  "v \<notin> snd ` set m" for m
    using that by (induction m) force+
  show "distinct (map snd (AList.update k v m))" if "distinct (map snd m)"
    using that assms
    by (induction m) (auto simp: set)
qed

lemma same_value: "distinct (map snd m) \<Longrightarrow> (a, c) \<in> set m \<Longrightarrow> (b, c) \<in> set m \<Longrightarrow> a = b"
  by (force simp: distinct_map inj_on_def)

lemma session_reply_ok:
  assumes ok: "session_ok s w" and m: "matches rid p"
  shows "session_ok (snd (session_reply rid p s)) w"
proof (cases "map_of (rs_requests s) rid")
  case None
  then show ?thesis using ok by (simp add: session_reply_def)
next
  case (Some c)
  note D = session_okD [OF ok]
  have entry: "(rid, c) \<in> set (rs_requests s)" using Some by (rule map_of_SomeD)
  have gone: "c \<notin> snd ` set (AList.delete rid (rs_requests s))"
    using entry same_value [OF D(2)] by (auto simp: delete_facts)
  define v :: "(unit, client_error) result" where
    "v = (if rid \<noteq> None \<and> rs_version s = None then Err CE_UnexpectedPacket
          else if rid = None \<and> rs_version s \<noteq> None
          then Err (CE_UnexpectedBehavior [Lit ''Duplicate version'']) else Ok ())"
  define s1 where "s1 = s\<lparr>rs_requests := AList.delete rid (rs_requests s)\<rparr>"
  have s1: "session_ok s1 w"
    using D by (intro session_okI) (auto simp: s1_def delete_facts)
  have s2: "session_ok (s1\<lparr>rs_inbox := (rs_inbox s1)(c := Some r)\<rparr>) w"
    if "c \<in> rs_receivers s" "\<And>p'. r = Ok p' \<Longrightarrow> p' = p" for r
  proof (rule session_okI)
    have cw: "(c, rid) \<in> set w" using D(4) [OF entry] that(1) by blast
    fix c' rid' p'
    assume "(c', rid') \<in> set w" "rs_inbox (s1\<lparr>rs_inbox := (rs_inbox s1)(c := Some r)\<rparr>) c' = Some (Ok p')"
    then show "matches rid' p'"
      using D(3,8) cw m that(2) by (cases "c' = c") (auto simp: s1_def dest: eq_key_imp_eq_value)
  next
    fix rid' c'
    assume "(rid', c') \<in> set (rs_requests (s1\<lparr>rs_inbox := (rs_inbox s1)(c := Some r)\<rparr>))"
    then show "c' < rs_channels (s1\<lparr>rs_inbox := (rs_inbox s1)(c := Some r)\<rparr>)
        \<and> rs_inbox (s1\<lparr>rs_inbox := (rs_inbox s1)(c := Some r)\<rparr>) c' = None
        \<and> (c' \<in> rs_receivers (s1\<lparr>rs_inbox := (rs_inbox s1)(c := Some r)\<rparr>) \<longrightarrow> (c', rid') \<in> set w)"
      using session_okD(4) [OF s1] gone by (force simp: s1_def)
  qed (use session_okD [OF s1] that(1) in \<open>auto simp: s1_def split: if_splits\<close>)
  have "snd (session_reply rid p s) = snd (try_send c (map_ok (\<lambda>_. p) v) s1)"
    using Some by (auto simp: session_reply_def v_def s1_def Let_def split: result.splits prod.splits)
  moreover have "\<And>p'. map_ok (\<lambda>_. p) v = Ok p' \<Longrightarrow> p' = p" by (auto simp: result_inversions)
  ultimately show ?thesis using s1 s2 by (auto simp: try_send_def s1_def)
qed

lemma begin_send_ok:
  assumes ok: "session_ok s w" and "begin_send rid p s = (r, s')"
  shows "session_ok s' (case r of Ok c \<Rightarrow> (c, rid) # w | Err e \<Rightarrow> w)"
proof (cases "rs_tx_closed s")
  case True
  then show ?thesis using assms by (auto simp: begin_send_def)
next
  case False
  define c where "c = rs_channels s"
  note D = session_okD [OF ok, folded c_def]
  have r: "r = Ok c" and s': "s' = s\<lparr>rs_channels := c + 1, rs_receivers := insert c (rs_receivers s),
      rs_requests := AList.update rid c (rs_requests s), rs_tx := rs_tx s @ [frame (packet_body p)]\<rparr>"
    using assms(2) False by (auto simp: begin_send_def bytes_of_packet_frame tx_send_def c_def Let_def)
  have fresh: "c \<notin> snd ` set (rs_requests s)" "c \<notin> fst ` set w" "c \<notin> rs_receivers s"
      "rs_inbox s c = None"
    using D(4,5,6,7) by fastforce+
  have "session_ok s' ((c, rid) # w)"
    unfolding s' using D fresh
    by (intro session_okI)
      (auto simp: update_facts [OF D(1) fresh(1)] distinct_update less_Suc_eq)
  then show ?thesis using r by simp
qed

lemma drop_receiver_ok:
  assumes "session_ok s w" and "(c, rid) \<in> set w"
  shows "session_ok (drop_receiver c s) (removeAll (c, rid) w)"
proof -
  note D = session_okD [OF assms(1)]
  have only: "(c, rid') \<in> set w \<Longrightarrow> rid' = rid" for rid'
    using D(3) assms(2) by (auto dest: eq_key_imp_eq_value)
  show ?thesis
    using D only
    by (intro session_okI) (auto simp: drop_receiver_def distinct_map_filter removeAll_filter_not_eq split: if_splits)
qed

lemma end_send_ok:
  assumes ok: "session_ok s w" and "(c, rid) \<in> set w" and "end_send rid c s = (r, s')"
  shows "session_ok s' (removeAll (c, rid) w)" and "\<And>p. r = Ok p \<Longrightarrow> matches rid p"
proof -
  note D = session_okD [OF ok]
  have "session_ok (s\<lparr>rs_requests := AList.delete rid (rs_requests s)\<rparr>) w"
    using D by (intro session_okI) (auto simp: delete_facts)
  with drop_receiver_ok [OF _ assms(2)] ok assms(3)
  show "session_ok s' (removeAll (c, rid) w)"
    by (auto simp: end_send_def Let_def split: option.splits)
  show "matches rid p" if "r = Ok p" for p
    using assms(2,3) D(8) that by (auto simp: end_send_def Let_def split: option.splits)
qed

lemma session_ok_version: "session_ok (s\<lparr>rs_version := v\<rparr>) w \<longleftrightarrow> session_ok s w"
  by (simp add: session_ok_def)

lemma execute_inner_ok:
  assumes "session_ok s w"
  shows "session_ok (snd (execute_handler body inner_handler s)) w"
  using execute_inner [of body s] session_reply_ok [OF assms] assms
  by (auto simp: session_ok_version simp del: matches.simps)

definition tasks_ok :: "task_state \<Rightarrow> bool" where
  "tasks_ok ts \<longleftrightarrow> session_ok (ts_session ts) (ts_waiting ts)
     \<and> (\<forall>(rid, r) \<in> set (ts_done ts). \<forall>p. r = Ok p \<longrightarrow> matches rid p)"

lemma session_ok_cong:
  assumes "session_ok s w" and "rs_requests s' = rs_requests s" and "rs_inbox s' = rs_inbox s"
    and "rs_receivers s' = rs_receivers s" and "rs_channels s' = rs_channels s"
  shows "session_ok s' w"
  using assms by (simp add: session_ok_def)

lemma call_begins_ok:
  assumes "tasks_ok ts"
  shows "tasks_ok (call_begins rid p ts)"
  using assms begin_send_ok [of "ts_session ts" "ts_waiting ts" rid p]
  by (cases "begin_send rid p (ts_session ts)"; cases "fst (begin_send rid p (ts_session ts))")
    (auto simp: tasks_ok_def call_begins_def)

lemma call_ends_ok:
  assumes "tasks_ok ts" and "(c, rid) \<in> set (ts_waiting ts)"
  shows "tasks_ok (call_ends c rid ts)"
  using assms end_send_ok [of "ts_session ts" "ts_waiting ts" c rid]
  by (cases "end_send rid c (ts_session ts)") (auto simp: tasks_ok_def call_ends_def)

lemma task_step_ok:
  assumes "task_step ts ts'" and "tasks_ok ts"
  shows "tasks_ok ts'"
  using assms(1)
proof (cases rule: task_stepE)
  case (begin_request rid s p)
  have "tasks_ok (ts\<lparr>ts_session := s, ts_started := ts_started ts + 1\<rparr>)"
    using assms(2) begin_request(2) by (auto simp: tasks_ok_def use_next_id_def elim!: session_ok_cong)
  then show ?thesis
    using begin_request(1) by (simp add: call_begins_ok)
next
  case (begin_init p)
  have "tasks_ok (ts\<lparr>ts_inits := ts_inits ts + 1\<rparr>)" using assms(2) by (simp add: tasks_ok_def)
  then show ?thesis using begin_init by (simp add: call_begins_ok)
next
  case (receive body r s)
  have "session_ok s (ts_waiting ts)"
    using execute_inner_ok [of "ts_session ts" "ts_waiting ts" body] receive(2) assms(2)
    by (simp add: tasks_ok_def)
  then show ?thesis using assms(2) receive(1) by (simp add: tasks_ok_def)
qed (use assms(2) in \<open>auto simp: tasks_ok_def call_ends_ok [unfolded tasks_ok_def] drop_session_def close_session_def
    tx_send_def set_timeout_def set_limits_def elim!: session_ok_cong\<close>)

lemma tasks_ok_new: "tasks_ok tasks_new"
  by (simp add: tasks_ok_def tasks_new_def raw_new_def session_ok_def)

lemma task_reachable_ok: "task_reachable ts \<Longrightarrow> tasks_ok ts"
  by (induction rule: task_reachable.induct) (auto intro: tasks_ok_new task_step_ok)

section \<open>No call is lost while ids are fresh\<close>

definition recv_none :: client_error where
  "recv_none = CE_UnexpectedBehavior [Lit ''recv none message'']"

definition waiting_ok :: "raw_session \<Rightarrow> (nat \<times> u32 option) list \<Rightarrow> bool" where
  "waiting_ok s w \<longleftrightarrow> distinct (map snd w)
     \<and> (\<forall>(c, rid) \<in> set w. rs_inbox s c \<noteq> None \<or> (rid, c) \<in> set (rs_requests s))
     \<and> (\<forall>c. rs_inbox s c \<noteq> Some (Err recv_none))"

lemma waiting_okD:
  assumes "waiting_ok s w"
  shows "distinct (map snd w)"
    and "\<And>c rid. (c, rid) \<in> set w \<Longrightarrow> rs_inbox s c \<noteq> None \<or> (rid, c) \<in> set (rs_requests s)"
    and "\<And>c. rs_inbox s c \<noteq> Some (Err recv_none)"
  using assms unfolding waiting_ok_def by blast+

lemma waiting_okI:
  assumes "distinct (map snd w)"
    and "\<And>c rid. (c, rid) \<in> set w \<Longrightarrow> rs_inbox s c \<noteq> None \<or> (rid, c) \<in> set (rs_requests s)"
    and "\<And>c. rs_inbox s c \<noteq> Some (Err recv_none)"
  shows "waiting_ok s w"
  using assms unfolding waiting_ok_def by blast

lemma waiting_ok_cong:
  "waiting_ok s w \<Longrightarrow> rs_requests s' = rs_requests s \<Longrightarrow> rs_inbox s' = rs_inbox s \<Longrightarrow> waiting_ok s' w"
  by (simp add: waiting_ok_def)

lemma waiting_ok_version: "waiting_ok (s\<lparr>rs_version := v\<rparr>) w \<longleftrightarrow> waiting_ok s w"
  by (simp add: waiting_ok_def)

lemma reply_waiting:
  assumes ok: "session_ok s w" and wait: "waiting_ok s w"
  shows "waiting_ok (snd (session_reply rid p s)) w"
proof (cases "map_of (rs_requests s) rid")
  case None
  then show ?thesis using wait by (simp add: session_reply_def)
next
  case (Some c)
  note D = session_okD [OF ok] and W = waiting_okD [OF wait]
  have entry: "(rid, c) \<in> set (rs_requests s)" using Some by (rule map_of_SomeD)
  define v :: "(unit, client_error) result" where
    "v = (if rid \<noteq> None \<and> rs_version s = None then Err CE_UnexpectedPacket
          else if rid = None \<and> rs_version s \<noteq> None
          then Err (CE_UnexpectedBehavior [Lit ''Duplicate version'']) else Ok ())"
  define s1 where "s1 = s\<lparr>rs_requests := AList.delete rid (rs_requests s)\<rparr>"
  have eq: "snd (session_reply rid p s) = snd (try_send c (map_ok (\<lambda>_. p) v) s1)"
    using Some by (auto simp: session_reply_def v_def s1_def Let_def split: result.splits prod.splits)
  have v: "map_ok (\<lambda>_. p) v \<noteq> Err recv_none" by (simp add: v_def recv_none_def)
  have kept: "rs_inbox s c' \<noteq> None \<or> (rid', c') \<in> set (rs_requests s1) \<or> c' = c \<and> rid' = rid"
    if "(c', rid') \<in> set w" for c' rid'
    using W(2) [OF that] entry D(1) by (auto simp: s1_def delete_facts dest: eq_key_imp_eq_value)
  show ?thesis
  proof (cases "c \<in> rs_receivers s")
    case True
    then have "snd (session_reply rid p s)
        = s1\<lparr>rs_inbox := (rs_inbox s)(c := Some (map_ok (\<lambda>_. p) v))\<rparr>"
      using D(4) [OF entry] by (simp add: eq try_send_def s1_def)
    then show ?thesis
      using W(1,3) kept v by (intro waiting_okI) (auto simp: s1_def)
  next
    case False
    then have "snd (session_reply rid p s) = s1"
      by (simp add: eq try_send_def s1_def)
    moreover have "(c, rid) \<notin> set w" using False D(5) by blast
    moreover have "rs_inbox s1 = rs_inbox s" by (simp add: s1_def)
    ultimately show ?thesis
      using W(1,3) kept by (intro waiting_okI) (simp_all, blast)
  qed
qed

lemma begin_waiting:
  assumes "session_ok s w" and "waiting_ok s w" and "rid \<notin> snd ` set w"
    and "begin_send rid p s = (r, s')"
  shows "waiting_ok s' (case r of Ok c \<Rightarrow> (c, rid) # w | Err e \<Rightarrow> w)"
proof (cases "rs_tx_closed s")
  case True
  then show ?thesis using assms by (auto simp: begin_send_def)
next
  case False
  define c where "c = rs_channels s"
  note D = session_okD [OF assms(1), folded c_def] and W = waiting_okD [OF assms(2)]
  have r: "r = Ok c" and s': "s' = s\<lparr>rs_channels := c + 1, rs_receivers := insert c (rs_receivers s),
      rs_requests := AList.update rid c (rs_requests s), rs_tx := rs_tx s @ [frame (packet_body p)]\<rparr>"
    using assms(4) False by (auto simp: begin_send_def bytes_of_packet_frame tx_send_def c_def Let_def)
  have "c \<notin> snd ` set (rs_requests s)" using D(4) by fastforce
  note up = update_facts(1) [OF D(1) this]
  have "waiting_ok s' ((c, rid) # w)"
    unfolding s' using W assms(3)
    by (intro waiting_okI) (auto simp: up, force+)
  then show ?thesis using r by simp
qed

lemma end_waiting:
  assumes "session_ok s w" and "waiting_ok s w" and "(c, rid) \<in> set w"
    and "end_send rid c s = (r, s')"
  shows "waiting_ok s' (removeAll (c, rid) w)" and "r \<noteq> Err recv_none"
proof -
  note D = session_okD [OF assms(1)] and W = waiting_okD [OF assms(2)]
  have other: "c' \<noteq> c \<and> rid' \<noteq> rid" if "(c', rid') \<in> set w" "(c', rid') \<noteq> (c, rid)" for c' rid'
    using that assms(3) D(3) same_value [OF W(1)] by (auto dest: eq_key_imp_eq_value)
  have "rs_inbox s' = (rs_inbox s)(c := None)
      \<and> {x \<in> set (rs_requests s). fst x \<noteq> rid} \<subseteq> set (rs_requests s')"
    using assms(4) by (auto simp: end_send_def drop_receiver_def delete_facts Let_def split: option.splits)
  note after = this
  show "waiting_ok s' (removeAll (c, rid) w)"
  proof (rule waiting_okI)
    show "distinct (map snd (removeAll (c, rid) w))"
      using W(1) by (simp add: removeAll_filter_not_eq distinct_map_filter)
    show "rs_inbox s' c' \<noteq> Some (Err recv_none)" for c' using after W(3) by simp
    fix c' rid'
    assume "(c', rid') \<in> set (removeAll (c, rid) w)"
    then have "(c', rid') \<in> set w" "c' \<noteq> c" "rid' \<noteq> rid" using other by auto
    then show "rs_inbox s' c' \<noteq> None \<or> (rid', c') \<in> set (rs_requests s')"
      using W(2) after by fastforce
  qed
  show "r \<noteq> Err recv_none"
    using assms(3,4) W(2,3)
    by (auto simp: end_send_def Let_def has_sender_def client_error_of_elapsed_def recv_none_def
        split: option.splits if_splits) force
qed

definition id_below :: "task_state \<Rightarrow> u32 option \<Rightarrow> bool" where
  "id_below ts rid \<longleftrightarrow>
     (case rid of None \<Rightarrow> ts_inits ts > 0 | Some i \<Rightarrow> unat (i - 1) < ts_started ts)"

lemma id_below_updates [simp]:
  "id_below (ts\<lparr>ts_session := s\<rparr>) rid = id_below ts rid"
  "id_below (ts\<lparr>ts_waiting := w\<rparr>) rid = id_below ts rid"
  "id_below (ts\<lparr>ts_done := d\<rparr>) rid = id_below ts rid"
  by (simp_all add: id_below_def split: option.split)

lemma id_below_mono:
  "id_below ts rid \<Longrightarrow> id_below (ts\<lparr>ts_started := ts_started ts + 1\<rparr>) rid"
  "id_below ts rid \<Longrightarrow> id_below (ts\<lparr>ts_inits := ts_inits ts + 1\<rparr>) rid"
  by (auto simp: id_below_def split: option.splits)

definition fresh_ok :: "task_state \<Rightarrow> bool" where
  "fresh_ok ts \<longleftrightarrow>
     waiting_ok (ts_session ts) (ts_waiting ts)
   \<and> rs_next_req_id (ts_session ts) = 1 + of_nat (ts_started ts)
   \<and> (\<forall>(c, rid) \<in> set (ts_waiting ts). id_below ts rid)
   \<and> (\<forall>(rid, r) \<in> set (ts_done ts). r \<noteq> Err recv_none)"

lemma fresh_id: "n < 2 ^ 32 \<Longrightarrow> unat (1 + of_nat n - 1 :: u32) = n"
  by (simp add: unat_of_nat_u32)

lemma fresh_okI:
  assumes "waiting_ok (ts_session ts) (ts_waiting ts)"
    and "rs_next_req_id (ts_session ts) = 1 + of_nat (ts_started ts)"
    and "\<And>c rid. (c, rid) \<in> set (ts_waiting ts) \<Longrightarrow> id_below ts rid"
    and "\<And>rid r. (rid, r) \<in> set (ts_done ts) \<Longrightarrow> r \<noteq> Err recv_none"
  shows "fresh_ok ts"
  using assms unfolding fresh_ok_def by blast

lemma fresh_okD:
  assumes "fresh_ok ts"
  shows "waiting_ok (ts_session ts) (ts_waiting ts)"
    and "rs_next_req_id (ts_session ts) = 1 + of_nat (ts_started ts)"
    and "\<And>c rid. (c, rid) \<in> set (ts_waiting ts) \<Longrightarrow> id_below ts rid"
    and "\<And>rid r. (rid, r) \<in> set (ts_done ts) \<Longrightarrow> r \<noteq> Err recv_none"
  using assms unfolding fresh_ok_def by blast+

lemma begin_send_id: "begin_send rid p s = (r, s') \<Longrightarrow> rs_next_req_id s' = rs_next_req_id s"
  by (auto simp: begin_send_def tx_send_def drop_receiver_def Let_def split: if_splits result.splits)

lemma end_send_id: "end_send rid c s = (r, s') \<Longrightarrow> rs_next_req_id s' = rs_next_req_id s"
  by (auto simp: end_send_def drop_receiver_def Let_def split: option.splits)

lemma reply_id: "rs_next_req_id (snd (session_reply rid p s)) = rs_next_req_id s"
  by (auto simp: session_reply_def try_send_def Let_def split: option.splits prod.splits result.splits if_splits)

lemma execute_inner_fresh:
  assumes "session_ok s w" and "waiting_ok s w"
  shows "waiting_ok (snd (execute_handler body inner_handler s)) w
    \<and> rs_next_req_id (snd (execute_handler body inner_handler s)) = rs_next_req_id s"
  using execute_inner [of body s] reply_waiting [OF assms] reply_id assms(2)
  by (auto simp: waiting_ok_version simp del: matches.simps)

lemma begin_error: "begin_send rid p s = (Err e, s') \<Longrightarrow> e \<noteq> recv_none"
  by (auto simp: begin_send_def bytes_of_packet_frame tx_send_def recv_none_def
      client_error_of_send_def Let_def split: if_splits)

lemma call_begins_fresh:
  assumes "tasks_ok ts" and "fresh_ok ts" and "rid \<notin> snd ` set (ts_waiting ts)" and "id_below ts rid"
  shows "fresh_ok (call_begins rid p ts)"
proof -
  note F = fresh_okD [OF assms(2)]
  obtain r s' where r: "begin_send rid p (ts_session ts) = (r, s')"
    by (cases "begin_send rid p (ts_session ts)")
  have ok: "session_ok (ts_session ts) (ts_waiting ts)" using assms(1) by (simp add: tasks_ok_def)
  note wait = begin_waiting [OF ok F(1) assms(3) r] and nid = begin_send_id [OF r]
  show ?thesis
  proof (cases r)
    case (Ok c)
    then show ?thesis
      using r wait nid F assms(4) by (intro fresh_okI) (auto simp: call_begins_def)
  next
    case (Err e)
    then have e: "e \<noteq> recv_none" using r begin_error by blast
    then show ?thesis
      using r wait nid F Err by (intro fresh_okI) (auto simp: call_begins_def)
  qed
qed

lemma call_ends_fresh:
  assumes "tasks_ok ts" and "fresh_ok ts" and "(c, rid) \<in> set (ts_waiting ts)"
  shows "fresh_ok (call_ends c rid ts)"
proof -
  note F = fresh_okD [OF assms(2)]
  obtain r s' where r: "end_send rid c (ts_session ts) = (r, s')"
    by (cases "end_send rid c (ts_session ts)")
  have ok: "session_ok (ts_session ts) (ts_waiting ts)" using assms(1) by (simp add: tasks_ok_def)
  note wait = end_waiting [OF ok F(1) assms(3) r] and nid = end_send_id [OF r]
  show ?thesis
    using r wait nid F by (intro fresh_okI) (auto simp: call_ends_def)
qed

lemma task_step_counts:
  assumes "task_step ts ts'"
  shows "ts_started ts \<le> ts_started ts'" and "ts_inits ts \<le> ts_inits ts'"
  using assms
  by (cases rule: task_stepE; auto simp: call_begins_def call_ends_def split: result.splits prod.splits)+

lemma fresh_session:
  assumes "fresh_ok ts" and "rs_requests s = rs_requests (ts_session ts)"
    and "rs_inbox s = rs_inbox (ts_session ts)"
    and "rs_next_req_id s = rs_next_req_id (ts_session ts)"
  shows "fresh_ok (ts\<lparr>ts_session := s\<rparr>)"
  using fresh_okD [OF assms(1)] assms(2-) by (intro fresh_okI) (auto elim!: waiting_ok_cong)

lemma task_step_fresh:
  assumes "task_step ts ts'" and ok: "tasks_ok ts" and fresh: "fresh_ok ts"
    and few: "ts_started ts' \<le> 2 ^ 32" "ts_inits ts' \<le> 1"
  shows "fresh_ok ts'"
  using assms(1)
proof (cases rule: task_stepE)
  case (begin_request rid s p)
  note F = fresh_okD [OF fresh]
  have lt: "ts_started ts < 2 ^ 32" using few(1) begin_request(1)
    by (auto simp: call_begins_def split: result.splits prod.splits)
  have rid: "rid = 1 + of_nat (ts_started ts)" and s: "rs_next_req_id s = 1 + of_nat (Suc (ts_started ts))"
      "rs_requests s = rs_requests (ts_session ts)" "rs_inbox s = rs_inbox (ts_session ts)"
    using begin_request(2) F(2) by (auto simp: use_next_id_def)
  let ?ts = "ts\<lparr>ts_session := s, ts_started := ts_started ts + 1\<rparr>"
  have "tasks_ok ?ts"
    using ok begin_request(2) by (auto simp: tasks_ok_def use_next_id_def elim!: session_ok_cong)
  moreover have "fresh_ok ?ts"
  proof (rule fresh_okI)
    show "id_below ?ts rid'" if "(c, rid') \<in> set (ts_waiting ?ts)" for c rid'
      using F(3) [of c rid'] that by (auto simp: id_below_def split: option.splits)
  qed (use F s in \<open>auto elim!: waiting_ok_cong\<close>)
  moreover have "Some rid \<notin> snd ` set (ts_waiting ?ts)"
    using F(3) fresh_id [OF lt] rid by (fastforce simp: id_below_def)
  moreover have "id_below ?ts (Some rid)" using fresh_id [OF lt] rid by (simp add: id_below_def)
  ultimately show ?thesis using begin_request(1) by (simp add: call_begins_fresh)
next
  case (begin_init p)
  note F = fresh_okD [OF fresh]
  have none: "ts_inits ts = 0" using few(2) begin_init
    by (auto simp: call_begins_def split: result.splits prod.splits)
  let ?ts = "ts\<lparr>ts_inits := ts_inits ts + 1\<rparr>"
  have "tasks_ok ?ts" using ok by (simp add: tasks_ok_def)
  moreover have "fresh_ok ?ts" using F id_below_mono(2) by (intro fresh_okI) auto
  moreover have "None \<notin> snd ` set (ts_waiting ?ts)" using F(3) none by (fastforce simp: id_below_def)
  moreover have "id_below ?ts None" by (simp add: id_below_def)
  ultimately show ?thesis using begin_init by (simp add: call_begins_fresh)
next
  case (finish c rid)
  then show ?thesis using ok fresh by (simp add: call_ends_fresh)
next
  case (receive body r s)
  then show ?thesis
    using ok fresh_okD [OF fresh] execute_inner_fresh [of "ts_session ts" "ts_waiting ts" body]
    by (intro fresh_okI) (auto simp: tasks_ok_def)
qed (use fresh in \<open>auto intro!: fresh_session simp: drop_session_def close_session_def tx_send_def
    set_timeout_def set_limits_def\<close>)

lemma fresh_ok_new: "fresh_ok tasks_new"
  by (simp add: fresh_ok_def tasks_new_def raw_new_def waiting_ok_def)

lemma task_reachable_fresh:
  "task_reachable ts \<Longrightarrow> ts_started ts \<le> 2 ^ 32 \<Longrightarrow> ts_inits ts \<le> 1 \<Longrightarrow> fresh_ok ts"
proof (induction rule: task_reachable.induct)
  case initial
  show ?case by (rule fresh_ok_new)
next
  case (advance ts ts')
  then show ?case
    using task_step_counts [OF advance.hyps(2)] task_reachable_ok task_step_fresh by fastforce
qed

section \<open>A run\<close>

text \<open>The version exchange, step by step: the call begins, the reply arrives, the call returns.\<close>

definition run_begun :: task_state where
  "run_begun = call_begins None (Init init_new) (tasks_new\<lparr>ts_inits := ts_inits tasks_new + 1\<rparr>)"

definition run_received :: task_state where
  "run_received = run_begun\<lparr>ts_session :=
     snd (execute_handler (packet_body (Version version_new)) inner_handler (ts_session run_begun))\<rparr>"

definition run_ended :: task_state where
  "run_ended = call_ends 0 None run_received"

lemma run_begun_state:
  "ts_waiting run_begun = [(0, None)]"
  "ts_session run_begun = raw_new\<lparr>rs_channels := 1, rs_receivers := {0}, rs_requests := [(None, 0)],
     rs_tx := [frame (packet_body (Init init_new))]\<rparr>"
  by (simp_all add: run_begun_def call_begins_def tasks_new_def begin_send_def bytes_of_packet_frame
      tx_send_def raw_new_def Let_def)

lemma version_new_body: "packet_try_from (packet_body (Version version_new)) = Ok (Version version_new, [])"
  using packet_try_from_body [of "Version version_new"]
  by (simp add: version_new_def fits_version_def string_map_fits_def)

lemma run_received_state:
  "ts_waiting run_received = [(0, None)]"
  "rs_inbox (ts_session run_received) 0 = Some (Ok (Version version_new))"
  by (simp_all add: run_received_def run_begun_state execute_handler_def version_new_body inner_methods
      inner_version_def session_reply_def try_send_def client_into_wrap_def raw_new_def Let_def)

lemma run_ended_state:
  "ts_done run_ended = (None, Ok (Version version_new)) # ts_done run_received"
  "ts_started run_ended = 0" "ts_inits run_ended = 1"
  using run_received_state(2)
  by (auto simp: run_ended_def call_ends_def end_send_def run_received_def run_begun_def call_begins_def
      tasks_new_def split: prod.split result.split)

lemma run_received_counts: "ts_started run_received = 0" "ts_inits run_received = 1"
  by (auto simp: run_received_def run_begun_def call_begins_def tasks_new_def
      split: prod.split result.split)

lemma received_reachable: "task_reachable run_received"
proof -
  have "task_reachable run_begun"
    unfolding run_begun_def by (rule task_reachable.advance [OF task_reachable.initial task_step.begin_init])
  then show ?thesis
    unfolding run_received_def
    by (rule task_reachable.advance [OF _ task_step.receive [where r = "fst (execute_handler
      (packet_body (Version version_new)) inner_handler (ts_session run_begun))"]]) simp
qed

lemma run_reachable: "task_reachable run_ended"
  unfolding run_ended_def
  by (rule task_reachable.advance [OF received_reachable task_step.finish]) (simp add: run_received_state)

section \<open>Properties of concurrent calls\<close>

text \<open>C3: Replies are never mixed up: in every run of a client with any number of tasks, against any
  peer, a call that returns a packet returns one that carries the id it was sent under, or the
  version packet for the initialization.\<close>

theorem replies_match_calls:
  assumes "task_reachable ts" and "(rid, Ok p) \<in> set (ts_done ts)"
  shows "matches rid p"
  using task_reachable_ok [OF assms(1)] assms(2) by (fastforce simp: tasks_ok_def)

theorem replies_match_calls_witness:
  "task_reachable run_ended \<and> (None, Ok (Version version_new)) \<in> set (ts_done run_ended)
   \<and> matches None (Version version_new)"
  using replies_match_calls [OF run_reachable, of None "Version version_new"] run_reachable
    run_ended_state(1) by simp

text \<open>C13: No call is lost: during the first \<open>2^32\<close> requests and one initialization, whatever the peer
  sends and however calls and timeouts interleave, all calls that wait have different ids, each
  of them still has its reply coming or its message waiting, and none returns because another
  call took its place.\<close>

theorem no_call_lost:
  assumes "task_reachable ts" and "ts_started ts \<le> 2 ^ 32" and "ts_inits ts \<le> 1"
  shows "distinct (map snd (ts_waiting ts))
    \<and> (\<forall>(c, rid) \<in> set (ts_waiting ts).
         rs_inbox (ts_session ts) c \<noteq> None \<or> (rid, c) \<in> set (rs_requests (ts_session ts)))
    \<and> (\<forall>(rid, r) \<in> set (ts_done ts). r \<noteq> Err (CE_UnexpectedBehavior [Lit ''recv none message'']))"
  using task_reachable_fresh [OF assms]
  unfolding fresh_ok_def waiting_ok_def recv_none_def by blast

theorem no_call_lost_witness:
  "distinct (map snd (ts_waiting run_received))
    \<and> list_all (\<lambda>(c, rid). rs_inbox (ts_session run_received) c \<noteq> None
        \<or> (rid, c) \<in> set (rs_requests (ts_session run_received))) (ts_waiting run_received)
    \<and> list_all (\<lambda>(rid, r). r \<noteq> Err (CE_UnexpectedBehavior [Lit ''recv none message'']))
        (ts_done run_received)"
  using no_call_lost [OF received_reachable] run_received_counts by (simp add: list_all_iff)

end
