(* ===== verification/FileEntry.thy ===== *)
theory FileEntry
  imports Messages
begin

text \<open>
  \<^verbatim>\<open>src/protocol/file.rs\<close>: directory entries and their long names. The date of the long name is
  formatted by the chrono crate, so the format is a parameter \<open>fmt\<close>: from the seconds since the
  epoch to the text. Numbers are printed in decimal as \<^verbatim>\<open>to_string\<close> does.
\<close>

fun decimal :: "nat \<Rightarrow> bytes" where
  "decimal n = (if n < 10 then [48 + of_nat n] else decimal (n div 10) @ [48 + of_nat (n mod 10)])"

declare decimal.simps [simp del]

definition file_dummy :: "bytes \<Rightarrow> file_msg" where
  "file_dummy filename =
     \<lparr>file_filename = filename, file_longname = lit '''', file_attrs = attrs_default\<rparr>"

definition file_longname_of :: "(nat \<Rightarrow> bytes) \<Rightarrow> file_msg \<Rightarrow> bytes" where
  "file_longname_of fmt f =
     (let a = file_attrs f;
          directory = (if is_dir a then lit ''d'' else lit ''-'');
          permissions = display_permissions (attrs_permissions a);
          sz = unwrap_or (attr_size a) 0;
          mtime = unwrap_or (attr_mtime a) 0;
          delayed = fmt (unat mtime)
      in directory @ permissions @ lit '' 0 '' @
         (case attr_user a of
            Some u \<Rightarrow> u
          | None \<Rightarrow> decimal (unat (unwrap_or (attr_uid a) 0))) @ lit '' '' @
         (case attr_group a of
            Some g \<Rightarrow> g
          | None \<Rightarrow> decimal (unat (unwrap_or (attr_gid a) 0))) @ lit '' '' @
         decimal (unat sz) @ lit '' '' @ delayed @ lit '' '' @ file_filename f)"

definition file_new :: "(nat \<Rightarrow> bytes) \<Rightarrow> bytes \<Rightarrow> file_attributes \<Rightarrow> file_msg" where
  "file_new fmt filename attrs =
     (let file = \<lparr>file_filename = filename, file_longname = lit '''', file_attrs = attrs\<rparr>
      in file\<lparr>file_longname := file_longname_of fmt file\<rparr>)"

section \<open>Facts\<close>

lemma utf8_text_append: "utf8_text s \<Longrightarrow> utf8_text t \<Longrightarrow> utf8_text (s @ t)"
  by (induction rule: utf8_text.induct) (auto intro: utf8_text.char)

lemma valid_utf8_append [intro]: "valid_utf8 s \<Longrightarrow> valid_utf8 t \<Longrightarrow> valid_utf8 (s @ t)"
  by (simp add: valid_utf8_iff utf8_text_append)

lemma digit_ascii: "n < 10 \<Longrightarrow> (48 + of_nat n :: u8) \<le> 0x7F"
  by (simp add: word_le_nat_alt unat_word_ariths unat_of_nat)

lemma decimal_ascii: "\<forall>b \<in> set (decimal n). b \<le> 0x7F"
proof (induction n rule: decimal.induct)
  case (1 n)
  then show ?case
    using digit_ascii [of n] digit_ascii [of "n mod 10"]
    by (auto simp: decimal.simps [of n])
qed

lemma decimal_valid: "valid_utf8 (decimal n)"
  by (rule valid_utf8_ascii) (rule decimal_ascii)

lemma length_display_permissions: "length (display_permissions p) = 9"
  by (simp add: display_permissions_def lit_def)

lemma permissions_ascii: "valid_utf8 (display_permissions p)"
  by (rule valid_utf8_ascii) (simp add: display_permissions_def lit_def)

lemma long_name_valid:
  assumes "valid_utf8 (fmt (unat (unwrap_or (attr_mtime a) 0)))" and "valid_utf8 name"
    and "\<And>u. attr_user a = Some u \<Longrightarrow> valid_utf8 u" and "\<And>g. attr_group a = Some g \<Longrightarrow> valid_utf8 g"
  shows "valid_utf8 (file_longname (file_new fmt name a))"
proof -
  have "valid_utf8 (lit ''d'')" "valid_utf8 (lit ''-'')" "valid_utf8 (lit '' 0 '')" "valid_utf8 (lit '' '')"
    by (simp_all add: valid_utf8_ascii lit_def)
  with assms decimal_valid permissions_ascii show ?thesis
    by (simp add: file_new_def file_longname_of_def Let_def valid_utf8_append split: option.split)
qed

section \<open>Properties of directory entries\<close>

text \<open> A new directory entry keeps its name and attributes; its long name starts with the
  directory mark and the nine permission characters and ends with the name.\<close>

theorem long_name_shape:
  "file_filename (file_new fmt name a) = name
   \<and> file_attrs (file_new fmt name a) = a
   \<and> take 1 (file_longname (file_new fmt name a)) = lit (if is_dir a then ''d'' else ''-'')
   \<and> take 9 (drop 1 (file_longname (file_new fmt name a)))
       = display_permissions (permissions_of_u32 (unwrap_or (attr_permissions a) 0))
   \<and> (\<exists>front. file_longname (file_new fmt name a) = front @ lit '' '' @ name)"
  by (auto simp: file_new_def file_longname_of_def Let_def lit_def length_display_permissions
      attrs_permissions_def permissions_of_u32_def)

text \<open> Long names are well-formed UTF-8: an entry made from well-formed names, with any ids, size
  and times, has a well-formed long name, so it fits a name packet.\<close>

theorem long_name_well_formed:
  assumes "\<And>t. valid_utf8 (fmt t)" and "valid_utf8 name"
    and "\<And>u. attr_user a = Some u \<Longrightarrow> valid_utf8 u" and "\<And>g. attr_group a = Some g \<Longrightarrow> valid_utf8 g"
  shows "valid_utf8 (file_longname (file_new fmt name a))"
  using assms by (intro long_name_valid) auto

theorem long_name_well_formed_witness:
  "valid_utf8 (file_longname (file_new (\<lambda>t. decimal t) [102, 111, 111] attrs_default))"
  by (rule long_name_well_formed) (simp_all add: decimal_valid valid_utf8_ascii attrs_default_def)

end
