(* ===== verification/ExampleServer.thy ===== *)
theory ExampleServer
  imports Server FileEntry
begin

text \<open>
  The server of \<^verbatim>\<open>examples/server.rs\<close>: its \<^verbatim>\<open>SftpSession\<close> implements the handler trait for a
  file system with one directory of two empty files. It overrides five methods and inherits the
  rest. \<open>fmt\<close> is the date format of long names. Its SSH side is the theory \<^verbatim>\<open>ExampleSsh\<close>.
\<close>

record sftp_example =
  ex_version :: "u32 option"
  ex_root_dir_read_done :: bool

definition example_default :: sftp_example where
  "example_default = \<lparr>ex_version = None, ex_root_dir_read_done = False\<rparr>"

definition example_unimplemented :: "sftp_example \<Rightarrow> status_code" where
  "example_unimplemented h = SC_OpUnsupported"

definition example_init ::
  "u32 \<Rightarrow> string_map \<Rightarrow> sftp_example \<Rightarrow> (version_msg, status_code) result \<times> sftp_example" where
  "example_init version extensions h =
     (if ex_version h \<noteq> None then (Err SC_ConnectionLost, h)
      else (Ok version_new, h\<lparr>ex_version := Some version\<rparr>))"

definition example_close ::
  "u32 \<Rightarrow> bytes \<Rightarrow> sftp_example \<Rightarrow> (status_msg, status_code) result \<times> sftp_example" where
  "example_close rid handle h =
     (Ok \<lparr>status_id = rid, status_status_code = SC_Ok, status_error_message = lit ''Ok'',
        status_language_tag = lit ''en-US''\<rparr>, h)"

definition example_opendir ::
  "u32 \<Rightarrow> bytes \<Rightarrow> sftp_example \<Rightarrow> (handle_msg, status_code) result \<times> sftp_example" where
  "example_opendir rid path h =
     (Ok \<lparr>handle_id = rid, handle_handle = path\<rparr>, h\<lparr>ex_root_dir_read_done := False\<rparr>)"

definition example_readdir ::
  "(nat \<Rightarrow> bytes) \<Rightarrow> u32 \<Rightarrow> bytes \<Rightarrow> sftp_example
     \<Rightarrow> (name_msg, status_code) result \<times> sftp_example" where
  "example_readdir fmt rid handle h =
     (if handle = lit ''/'' \<and> \<not> ex_root_dir_read_done h then
        (Ok \<lparr>name_id = rid,
            name_files = [file_new fmt (lit ''foo'') attrs_default,
              file_new fmt (lit ''bar'') attrs_default]\<rparr>,
         h\<lparr>ex_root_dir_read_done := True\<rparr>)
      else (Err SC_Eof, h))"

definition example_realpath ::
  "u32 \<Rightarrow> bytes \<Rightarrow> sftp_example \<Rightarrow> (name_msg, status_code) result \<times> sftp_example" where
  "example_realpath rid path h = (Ok \<lparr>name_id = rid, name_files = [file_dummy (lit ''/'')]\<rparr>, h)"

definition example_handler :: "(nat \<Rightarrow> bytes) \<Rightarrow> (sftp_example, status_code) handler" where
  "example_handler fmt =
     (default_handler (\<lambda>code. code) example_unimplemented)
       \<lparr>h_init := example_init, h_close := example_close, h_opendir := example_opendir,
        h_readdir := example_readdir fmt, h_realpath := example_realpath\<rparr>"

lemma example_methods [simp]:
  "h_into_status (example_handler fmt) = (\<lambda>code. code)"
  "h_init (example_handler fmt) = example_init"
  "h_close (example_handler fmt) = example_close"
  "h_opendir (example_handler fmt) = example_opendir"
  "h_readdir (example_handler fmt) = example_readdir fmt"
  "h_realpath (example_handler fmt) = example_realpath"
  by (simp_all add: example_handler_def default_handler_def)

interpretation example_echo: echo_handler "example_handler fmt"
  by unfold_locales
    (auto simp: example_handler_def default_handler_def example_close_def example_opendir_def
      example_readdir_def example_realpath_def split: if_splits)

section \<open>Properties of the example server\<close>

text \<open>The example server answers any byte stream with one response for each frame, in order, where
  the response to a request carries the request's own id and anything else gets the bad-message
  status.\<close>

theorem example_server_answers:
  "\<exists>s' h' responses. server_run pipe_ops (example_handler fmt) \<lparr>pipe_in = inp, pipe_out = []\<rparr> h
      = Some (s', h')
    \<and> pipe_out s' = frames_of responses
    \<and> list_all2 answers (frame_bodies inp) responses"
  using pipe_stream.server_run_serves [of "example_handler fmt" "\<lparr>pipe_in = inp, pipe_out = []\<rparr>" h]
    example_echo.serve_answers [of "frame_bodies inp" fmt h]
  by auto

text \<open> A directory listing on the example server ends: after opening the root directory the first
  read returns the two entries and every further read of it is the end-of-file status, until the
  directory is opened again; a second initialization is refused.\<close>

theorem example_listing:
  "fst (handle_all (example_handler fmt)
      (OpenDir \<lparr>opendir_id = i, opendir_path = lit ''/''\<rparr>
       # ReadDir \<lparr>readdir_id = j, readdir_handle = lit ''/''\<rparr>
       # map (\<lambda>k. ReadDir \<lparr>readdir_id = k, readdir_handle = lit ''/''\<rparr>) ks) h)
   = Handle \<lparr>handle_id = i, handle_handle = lit ''/''\<rparr>
     # Name \<lparr>name_id = j, name_files = [file_new fmt (lit ''foo'') attrs_default,
         file_new fmt (lit ''bar'') attrs_default]\<rparr>
     # map (\<lambda>k. packet_error k SC_Eof) ks"
proof -
  have rest: "ex_root_dir_read_done h' \<Longrightarrow> fst (handle_all (example_handler fmt)
      (map (\<lambda>k. ReadDir \<lparr>readdir_id = k, readdir_handle = lit ''/''\<rparr>) ks) h')
    = map (\<lambda>k. packet_error k SC_Eof) ks" for h'
    by (induction ks)
      (simp_all add: process_request_def packet_request_id_def into_wrap_def example_readdir_def
        case_prod_unfold Let_def)
  show ?thesis
    by (simp add: process_request_def packet_request_id_def into_wrap_def example_readdir_def
        example_opendir_def case_prod_unfold Let_def rest)
qed

end
