(* ===== verification/EndToEnd.thy ===== *)
theory EndToEnd
  imports Tasks ExampleServer
begin

text \<open>
  Client and server together: \<open>loopback H\<close> is the world of a client whose peer is the crate's own
  server with handler \<open>H\<close>. While a call waits, the write half sends what is queued (up to a close
  message), the server runs on it, and the read half hands the answers to the session.
\<close>

definition loopback :: "('h, 'e) handler \<Rightarrow> 'h waits" where
  "loopback H c timeout sw =
     (case sw of (s, h) \<Rightarrow>
        let sent = concat (takeWhile (\<lambda>data. data \<noteq> []) (rs_tx s));
            s = s\<lparr>rs_tx := []\<rparr>
        in (case server_run pipe_ops H \<lparr>pipe_in = sent, pipe_out = []\<rparr> h of
              None \<Rightarrow> (s, h)
            | Some (p, h) \<Rightarrow>
                (case client_read_loop pipe_ops inner_handler \<lparr>pipe_in = pipe_out p, pipe_out = []\<rparr> s of
                   None \<Rightarrow> (s, h)
                 | Some (_, s) \<Rightarrow> (s, h))))"

lemma loopback_eq:
  "loopback H c timeout (s, h) =
     (let bodies = frame_bodies (concat (takeWhile (\<lambda>data. data \<noteq> []) (rs_tx s)))
      in (dispatch (frame_bodies (frames_of (fst (serve H bodies h)))) inner_handler (s\<lparr>rs_tx := []\<rparr>),
          snd (serve H bodies h)))"
proof -
  define sent where "sent = concat (takeWhile (\<lambda>data. data \<noteq> []) (rs_tx s))"
  obtain p where p: "server_run pipe_ops H \<lparr>pipe_in = sent, pipe_out = []\<rparr> h
      = Some (p, snd (serve H (frame_bodies sent) h))"
      "pipe_out p = frames_of (fst (serve H (frame_bodies sent) h))"
    using pipe_stream.server_run_serves [of H "\<lparr>pipe_in = sent, pipe_out = []\<rparr>" h] by auto
  obtain q where "client_read_loop pipe_ops inner_handler \<lparr>pipe_in = pipe_out p, pipe_out = []\<rparr>
        (s\<lparr>rs_tx := []\<rparr>)
      = Some (q, dispatch (frame_bodies (pipe_out p)) inner_handler (s\<lparr>rs_tx := []\<rparr>))"
    using pipe_stream.client_read_loop_dispatches
      [of inner_handler "\<lparr>pipe_in = pipe_out p, pipe_out = []\<rparr>" "s\<lparr>rs_tx := []\<rparr>"] by auto
  with p show ?thesis by (simp add: loopback_def sent_def [symmetric] Let_def)
qed

text \<open>A session between calls, connected and past the version exchange; and what a call keeps.\<close>

definition idle :: "raw_session \<Rightarrow> bool" where
  "idle s \<longleftrightarrow> session_ok s [] \<and> rs_tx s = [] \<and> \<not> rs_tx_closed s \<and> rs_version s \<noteq> None"

definition call_frame :: "raw_session \<Rightarrow> raw_session \<Rightarrow> bool" where
  "call_frame s s' \<longleftrightarrow> idle s' \<and> rs_next_req_id s' = rs_next_req_id s + 1
     \<and> rs_handles s' = rs_handles s \<and> rs_limits s' = rs_limits s
     \<and> rs_timeout s' = rs_timeout s \<and> rs_version s' = rs_version s"

definition sendable :: "packet \<Rightarrow> bool" where
  "sendable p \<longleftrightarrow> packet_fits p \<and> frame_fits (packet_body p)"

lemma response_id_norm: "response_id (norm_packet p) = response_id p"
  by (cases p) (simp_all add: norm_name_def norm_attrs_reply_def)

lemma frame_bodies_one: "frame_fits body \<Longrightarrow> frame_bodies (frame body) = [body]"
  using frame_bodies_frame [of body "[]"] by (simp add: frame_bodies_short)

lemma frame_nonempty: "frame body \<noteq> []"
  by (simp add: frame_def eval_nat_numeral)

lemma deliver:
  assumes "response_id p = Some i" and "sendable p" and "map_of (rs_requests s) (Some i) = Some c"
    and "c \<in> rs_receivers s" and "rs_inbox s c = None" and "rs_version s \<noteq> None"
  shows "snd (execute_handler (packet_body p) inner_handler s)
    = s\<lparr>rs_requests := AList.delete (Some i) (rs_requests s),
        rs_inbox := (rs_inbox s)(c := Some (Ok (norm_packet p)))\<rparr>"
proof -
  have "execute_handler (packet_body p) inner_handler s
      = client_into_wrap inner_handler (session_reply (Some i) (norm_packet p) s)"
    using packet_try_from_body [of p] assms(1,2) response_id_norm [of p]
    by (cases "norm_packet p") (auto simp: sendable_def execute_handler_def inner_methods)
  moreover have "session_reply (Some i) (norm_packet p) s
      = (Ok (), s\<lparr>rs_requests := AList.delete (Some i) (rs_requests s),
        rs_inbox := (rs_inbox s)(c := Some (Ok (norm_packet p)))\<rparr>)"
    using assms by (simp add: session_reply_def try_send_def Let_def)
  ultimately show ?thesis by (simp add: client_into_wrap_def)
qed

lemma request_loopback:
  assumes idle: "idle s" and q: "packet (rs_next_req_id s) = q" "sendable q"
    and resp: "process_request H (norm_packet q) h = (p, h')" "sendable p"
      "response_id p = Some (rs_next_req_id s)"
  shows "\<exists>s'. request (loopback H) packet (s, h) = (Ok (norm_packet p), s', h') \<and> call_frame s s'"
proof -
  define rid where "rid = rs_next_req_id s"
  define c where "c = rs_channels s"
  note I = idle [unfolded idle_def]
  have ok: "session_ok s []" using I by simp
  define s0 where "s0 = s\<lparr>rs_next_req_id := rid + 1\<rparr>"
  have ok0: "session_ok s0 []" using ok by (simp add: s0_def session_ok_def)
  define s1 where "s1 = s0\<lparr>rs_channels := c + 1, rs_receivers := insert c (rs_receivers s),
      rs_requests := AList.update (Some rid) c (rs_requests s), rs_tx := [frame (packet_body q)]\<rparr>"
  have begin_s1: "begin_send (Some rid) q s0 = (Ok c, s1)"
    using I by (simp add: begin_send_def bytes_of_packet_frame tx_send_def c_def s0_def s1_def Let_def)
  have ok1: "session_ok s1 [(c, Some rid)]" using begin_send_ok [OF ok0 begin_s1] by simp
  have inbox: "rs_inbox s c = None" using session_okD(6,7) [OF ok] by (fastforce simp: c_def)
  have try_q: "packet_try_from (packet_body q) = Ok (norm_packet q, [])"
    using q(2) packet_try_from_body by (simp add: sendable_def)
  define s2 where "s2 = s1\<lparr>rs_tx := [], rs_requests := AList.delete (Some rid) (rs_requests s1),
      rs_inbox := (rs_inbox s)(c := Some (Ok (norm_packet p)))\<rparr>"
  define s3 where "s3 = drop_receiver c s2"
  have fin: "end_send (Some rid) c s2 = (Ok (norm_packet p), s3)"
    by (simp add: end_send_def s2_def s3_def)
  have del: "snd (execute_handler (packet_body p) inner_handler (s1\<lparr>rs_tx := []\<rparr>)) = s2"
    using resp deliver [of p rid "s1\<lparr>rs_tx := []\<rparr>" c] inbox I
    by (simp add: s1_def s2_def s0_def rid_def update_conv')
  have loop: "loopback H c t (s1, h) = (s2, h')" for t
  proof -
    have "takeWhile (\<lambda>data. data \<noteq> []) (rs_tx s1) = [frame (packet_body q)]"
      by (simp add: s1_def frame_nonempty)
    then show ?thesis
      using q(2) resp(1,2)
      by (simp add: loopback_eq Let_def frame_bodies_one sendable_def serve_Cons respond_def try_q del)
  qed
  have "session_ok (s1\<lparr>rs_tx := []\<rparr>) [(c, Some rid)]" using ok1 by (simp add: session_ok_def)
  from execute_inner_ok [OF this, of "packet_body p"] have "session_ok s2 [(c, Some rid)]"
    unfolding del .
  from end_send_ok(1) [OF this _ fin] have "session_ok s3 []" by simp
  then have "call_frame s s3"
    using I by (simp add: call_frame_def idle_def s3_def s2_def s1_def s0_def drop_receiver_def rid_def)
  moreover have "request (loopback H) packet (s, h) = (Ok (norm_packet p), s3, h')"
    using begin_s1 loop fin q(1)
    by (simp add: request_def use_next_id_def send_def s0_def rid_def)
  ultimately show ?thesis by blast
qed

section \<open>Calls answered by a handler\<close>

lemma is_request_norm: "is_request (norm_packet q) = is_request q"
  and request_id_norm: "packet_request_id (norm_packet q) = packet_request_id q"
  by (cases q; simp add: packet_request_id_def norm_open_def norm_setstat_def norm_fsetstat_def
      norm_mkdir_def)+

lemma sendable_error: "sendable (packet_error i c)"
proof -
  have "valid_utf8 (display_status_code c)" "length (display_status_code c) < 100"
    by (cases c; simp add: valid_utf8_ascii lit_def)+
  moreover have "valid_utf8 (lit ''en-US'')" by (simp add: valid_utf8_ascii lit_def)
  ultimately show ?thesis
    by (simp add: sendable_def packet_error_def packet_status_def fits_status_def string_fits_def
        frame_fits_def packet_body_def wire_status_def wire_string_def lit_def)
qed

lemma wire_attrs_length: "length (wire_attrs a) < 100"
  by (simp add: wire_attrs_def split: option.split)

text \<open>The error a client sees for an error of the handler.\<close>

definition status_error :: "('h, 'e) handler \<Rightarrow> u32 \<Rightarrow> 'e \<Rightarrow> client_error" where
  "status_error H i e = CE_Status \<lparr>status_id = i, status_status_code = h_into_status H e,
     status_error_message = display_status_code (h_into_status H e),
     status_language_tag = lit ''en-US''\<rparr>"

context echo_handler
begin

lemma request_served:
  assumes "idle s" and "packet (rs_next_req_id s) = q" and "is_request q"
    and "packet_request_id q = rs_next_req_id s" and "sendable q"
    and "sendable (fst (process_request H (norm_packet q) h))"
  shows "\<exists>s'. request (loopback H) packet (s, h)
      = (Ok (norm_packet (fst (process_request H (norm_packet q) h))), s',
         snd (process_request H (norm_packet q) h))
    \<and> call_frame s s'"
proof (rule request_loopback [where packet = packet, OF assms(1,2,5)])
  show "sendable (fst (process_request H (norm_packet q) h))" by (rule assms(6))
  show "process_request H (norm_packet q) h = (fst (process_request H (norm_packet q) h),
      snd (process_request H (norm_packet q) h))" by simp
  show "response_id (fst (process_request H (norm_packet q) h)) = Some (rs_next_req_id s)"
    using process_request_echo [of "norm_packet q" h] assms(3,4)
    by (simp add: is_request_norm request_id_norm)
qed

lemma served:
  fixes res :: "('r, 'e) result \<times> 'h"
  assumes "idle s" and "is_request (packet (rs_next_req_id s))"
    and "packet_request_id (packet (rs_next_req_id s)) = rs_next_req_id s"
    and "sendable (packet (rs_next_req_id s))"
    and proc: "process_request H (norm_packet (packet (rs_next_req_id s))) h
        = into_wrap H (rs_next_req_id s) into res"
    and "\<And>x. fst res = Ok x \<Longrightarrow> sendable (into x)"
  shows "\<exists>s'. request (loopback H) packet (s, h)
      = (Ok (case fst res of Ok x \<Rightarrow> norm_packet (into x)
             | Err e \<Rightarrow> packet_error (rs_next_req_id s) (h_into_status H e)), s', snd res)
    \<and> call_frame s s'"
proof -
  obtain r h' where res: "res = (r, h')" by (cases res)
  define p where "p = (case r of Ok x \<Rightarrow> into x | Err e \<Rightarrow> packet_error (rs_next_req_id s) (h_into_status H e))"
  have p: "process_request H (norm_packet (packet (rs_next_req_id s))) h = (p, h')"
    by (cases r) (simp_all add: proc res into_wrap_def p_def)
  have "sendable p" using assms(6) res by (cases r) (simp_all add: p_def sendable_error)
  then have "\<exists>s'. request (loopback H) packet (s, h) = (Ok (norm_packet p), s', h') \<and> call_frame s s'"
    using request_served [where packet = packet, OF assms(1) refl assms(2,3,4), of h] p by simp
  moreover have "norm_packet p = (case r of Ok x \<Rightarrow> norm_packet (into x)
      | Err e \<Rightarrow> packet_error (rs_next_req_id s) (h_into_status H e))"
    by (cases r) (simp_all add: p_def packet_error_def packet_status_def)
  ultimately show ?thesis by (simp add: res)
qed

lemmas reply_defs = into_with_status_def into_status_def packet_error_def packet_status_def
  status_error_def client_error_of_status_def

lemmas request_defs = process_request_def packet_request_id_def sendable_def frame_fits_def
  packet_body_def wire_string_def

lemma read_served:
  assumes "idle s" and "string_fits handle" and "length handle < 2 ^ 30"
    and "\<And>r. lim_read_len (rs_limits s) = Some r \<Longrightarrow> ucast n \<le> r"
    and "\<And>d. fst (h_read H (rs_next_req_id s) handle offset n h) = Ok d \<Longrightarrow> length (data_data d) < 2 ^ 31"
  shows "\<exists>s'. raw_read (loopback H) handle offset n (s, h)
      = (map_err (status_error H (rs_next_req_id s)) (fst (h_read H (rs_next_req_id s) handle offset n h)),
         s', snd (h_read H (rs_next_req_id s) handle offset n h))
    \<and> call_frame s s'"
proof -
  obtain r h' where r: "h_read H (rs_next_req_id s) handle offset n h = (r, h')"
    by (cases "h_read H (rs_next_req_id s) handle offset n h")
  have "\<not> (case lim_read_len (rs_limits s) of None \<Rightarrow> False | Some r \<Rightarrow> ucast n > r)"
    using assms(4) by (auto split: option.splits simp: leD)
  moreover have "sendable (Data d)" if "r = Ok d" for d
    using assms(5) r that by (simp add: sendable_def fits_data_def bytes_fit_def frame_fits_def
        packet_body_def wire_data_def wire_bytes_def)
  ultimately show ?thesis
    using served [where packet = "\<lambda>i. Read \<lparr>read_id = i, read_handle = handle, read_offset = offset,
        read_len = n\<rparr>" and into = Data and h = h
        and res = "h_read H (rs_next_req_id s) handle offset n h", OF assms(1)] assms(2,3) r
    by (cases r) (auto simp: raw_read_def reply_defs request_defs fits_read_def wire_read_def)
qed

lemma open_served:
  assumes "idle s" and "string_fits filename" and "length filename < 2 ^ 30"
    and "\<not> handle_limit_reached s"
    and "\<And>x. fst (h_open H (rs_next_req_id s) filename flags (norm_attrs attrs) h) = Ok x \<Longrightarrow>
        string_fits (handle_handle x) \<and> length (handle_handle x) < 2 ^ 30"
  shows "\<exists>s'. raw_open (loopback H) filename flags attrs (s, h)
      = (map_err (status_error H (rs_next_req_id s))
           (fst (h_open H (rs_next_req_id s) filename flags (norm_attrs attrs) h)),
         (if is_ok (fst (h_open H (rs_next_req_id s) filename flags (norm_attrs attrs) h))
          then s'\<lparr>rs_handles := rs_handles s + 1\<rparr> else s'),
         snd (h_open H (rs_next_req_id s) filename flags (norm_attrs attrs) h))
    \<and> call_frame s s'"
proof -
  obtain r h' where r: "h_open H (rs_next_req_id s) filename flags (norm_attrs attrs) h = (r, h')"
    by (cases "h_open H (rs_next_req_id s) filename flags (norm_attrs attrs) h")
  have "sendable (Handle x)" if "r = Ok x" for x
    using assms(5) r that by (simp add: sendable_def fits_handle_def frame_fits_def
        packet_body_def wire_handle_def wire_string_def)
  moreover have "length (wire_attrs attrs) < 100" by (rule wire_attrs_length)
  ultimately show ?thesis
    using served [where packet = "\<lambda>i. Open \<lparr>open_id = i, open_filename = filename, open_pflags = flags,
        open_attrs = attrs\<rparr>" and into = Handle and h = h
        and res = "h_open H (rs_next_req_id s) filename flags (norm_attrs attrs) h", OF assms(1)]
      assms(2,3,4) r
    by (cases r) (auto simp: raw_open_def reply_defs request_defs fits_open_def wire_open_def
        norm_open_def count_handle_def call_frame_def)
qed

lemma close_served:
  assumes "idle s" and "string_fits handle" and "length handle < 2 ^ 30"
    and "\<And>x. fst (h_close H (rs_next_req_id s) handle h) = Ok x \<Longrightarrow> sendable (Status x)"
  shows "\<exists>s' result. raw_close (loopback H) handle (s, h)
      = (into_status result,
         (if \<exists>st. result = Status st \<and> status_status_code st = SC_Ok
          then s'\<lparr>rs_handles := (if rs_handles s > 0 then rs_handles s - 1 else rs_handles s)\<rparr> else s'),
         snd (h_close H (rs_next_req_id s) handle h))
    \<and> call_frame s s'
    \<and> result = (case fst (h_close H (rs_next_req_id s) handle h) of Ok x \<Rightarrow> Status x
        | Err e \<Rightarrow> packet_error (rs_next_req_id s) (h_into_status H e))"
proof -
  obtain r h' where r: "h_close H (rs_next_req_id s) handle h = (r, h')"
    by (cases "h_close H (rs_next_req_id s) handle h")
  define result where "result = (case r of Ok x \<Rightarrow> Status x
      | Err e \<Rightarrow> packet_error (rs_next_req_id s) (h_into_status H e))"
  obtain st where st: "result = Status st"
    by (cases r) (auto simp: result_def packet_error_def packet_status_def)
  have "\<exists>s'. request (loopback H) (\<lambda>i. Close \<lparr>close_id = i, close_handle = handle\<rparr>) (s, h)
      = (Ok result, s', h') \<and> call_frame s s'"
    using served [where packet = "\<lambda>i. Close \<lparr>close_id = i, close_handle = handle\<rparr>" and into = Status
        and h = h and res = "h_close H (rs_next_req_id s) handle h", OF assms(1)] assms(2,3,4) r
    by (cases r) (auto simp: request_defs fits_close_def wire_close_def result_def)
  then obtain s' where "request (loopback H) (\<lambda>i. Close \<lparr>close_id = i, close_handle = handle\<rparr>) (s, h)
      = (Ok result, s', h')" and frame: "call_frame s s'"
    by blast
  moreover from frame have "rs_handles s' = rs_handles s" by (simp add: call_frame_def)
  ultimately have "raw_close (loopback H) handle (s, h) = (into_status result,
      (if \<exists>st. result = Status st \<and> status_status_code st = SC_Ok
       then s'\<lparr>rs_handles := (if rs_handles s > 0 then rs_handles s - 1 else rs_handles s)\<rparr> else s'), h')"
    by (cases s') (auto simp: raw_close_def uncount_handle_def st)
  with frame show ?thesis using r result_def by auto
qed

lemma stat_served:
  assumes "idle s" and "string_fits path" and "length path < 2 ^ 30"
  shows "\<exists>s'. raw_stat (loopback H) path (s, h)
      = (map_ok (\<lambda>x. x\<lparr>attrs_reply_attrs := norm_attrs (attrs_reply_attrs x)\<rparr>)
           (map_err (status_error H (rs_next_req_id s)) (fst (h_stat H (rs_next_req_id s) path h))),
         s', snd (h_stat H (rs_next_req_id s) path h))
    \<and> call_frame s s'"
proof -
  obtain r h' where r: "h_stat H (rs_next_req_id s) path h = (r, h')"
    by (cases "h_stat H (rs_next_req_id s) path h")
  have "sendable (Attrs x)" for x
    using wire_attrs_length [of "attrs_reply_attrs x"]
    by (simp add: sendable_def frame_fits_def packet_body_def wire_attrs_reply_def fits_attrs_reply_def)
  then show ?thesis
    using served [where packet = "\<lambda>i. Stat \<lparr>stat_id = i, stat_path = path\<rparr>" and into = Attrs
        and h = h and res = "h_stat H (rs_next_req_id s) path h", OF assms(1)] assms(2,3) r
    by (cases r) (auto simp: raw_stat_def reply_defs request_defs fits_stat_def wire_stat_def
        norm_attrs_reply_def)
qed

lemma opendir_served:
  assumes "idle s" and "string_fits path" and "length path < 2 ^ 30" and "\<not> handle_limit_reached s"
    and "\<And>x. fst (h_opendir H (rs_next_req_id s) path h) = Ok x \<Longrightarrow>
        string_fits (handle_handle x) \<and> length (handle_handle x) < 2 ^ 30"
  shows "\<exists>s'. raw_opendir (loopback H) path (s, h)
      = (map_err (status_error H (rs_next_req_id s)) (fst (h_opendir H (rs_next_req_id s) path h)),
         (if is_ok (fst (h_opendir H (rs_next_req_id s) path h))
          then s'\<lparr>rs_handles := rs_handles s + 1\<rparr> else s'),
         snd (h_opendir H (rs_next_req_id s) path h))
    \<and> call_frame s s'"
proof -
  obtain r h' where r: "h_opendir H (rs_next_req_id s) path h = (r, h')"
    by (cases "h_opendir H (rs_next_req_id s) path h")
  have "sendable (Handle x)" if "r = Ok x" for x
    using assms(5) r that by (simp add: sendable_def fits_handle_def frame_fits_def
        packet_body_def wire_handle_def wire_string_def)
  then show ?thesis
    using served [where packet = "\<lambda>i. OpenDir \<lparr>opendir_id = i, opendir_path = path\<rparr>" and into = Handle
        and h = h and res = "h_opendir H (rs_next_req_id s) path h", OF assms(1)] assms(2,3,4) r
    by (cases r) (auto simp: raw_opendir_def reply_defs request_defs fits_opendir_def
        wire_opendir_def count_handle_def call_frame_def)
qed

lemma readdir_served:
  assumes "idle s" and "string_fits handle" and "length handle < 2 ^ 30"
    and "\<And>x. fst (h_readdir H (rs_next_req_id s) handle h) = Ok x \<Longrightarrow> sendable (Name x)"
  shows "\<exists>s'. raw_readdir (loopback H) handle (s, h)
      = (map_ok norm_name
           (map_err (status_error H (rs_next_req_id s)) (fst (h_readdir H (rs_next_req_id s) handle h))),
         s', snd (h_readdir H (rs_next_req_id s) handle h))
    \<and> call_frame s s'"
proof -
  obtain r h' where r: "h_readdir H (rs_next_req_id s) handle h = (r, h')"
    by (cases "h_readdir H (rs_next_req_id s) handle h")
  then show ?thesis
    using served [where packet = "\<lambda>i. ReadDir \<lparr>readdir_id = i, readdir_handle = handle\<rparr>" and into = Name
        and h = h and res = "h_readdir H (rs_next_req_id s) handle h", OF assms(1)] assms(2,3,4)
    by (cases r) (auto simp: raw_readdir_def reply_defs request_defs fits_readdir_def wire_readdir_def)
qed

lemma write_served:
  assumes "idle s" and "string_fits handle" and "length handle < 2 ^ 30" and "length data < 2 ^ 30"
    and "\<And>n. lim_write_len (rs_limits s) = Some n \<Longrightarrow> length data \<le> unat n"
    and "\<And>x. fst (h_write H (rs_next_req_id s) handle offset data h) = Ok x \<Longrightarrow> sendable (Status x)"
  shows "\<exists>s'. raw_write (loopback H) handle offset data (s, h)
      = (into_status (case fst (h_write H (rs_next_req_id s) handle offset data h) of Ok x \<Rightarrow> Status x
           | Err e \<Rightarrow> packet_error (rs_next_req_id s) (h_into_status H e)),
         s', snd (h_write H (rs_next_req_id s) handle offset data h))
    \<and> call_frame s s'"
proof -
  obtain r h' where r: "h_write H (rs_next_req_id s) handle offset data h = (r, h')"
    by (cases "h_write H (rs_next_req_id s) handle offset data h")
  have "\<not> (case lim_write_len (rs_limits s) of None \<Rightarrow> False | Some n \<Rightarrow> length data > unat n)"
    using assms(5) by (auto split: option.splits simp: leD)
  then show ?thesis
    using served [where packet = "\<lambda>i. Write \<lparr>write_id = i, write_handle = handle, write_offset = offset,
        write_data = data\<rparr>" and into = Status and h = h
        and res = "h_write H (rs_next_req_id s) handle offset data h", OF assms(1)] assms(2,3,4,6) r
    by (cases r) (auto simp: raw_write_def request_defs fits_write_def wire_write_def wire_bytes_def
        bytes_fit_def packet_error_def packet_status_def)
qed

end

section \<open>The version exchange\<close>

definition connected :: "raw_session \<Rightarrow> bool" where
  "connected s \<longleftrightarrow> session_ok s [] \<and> rs_tx s = [] \<and> \<not> rs_tx_closed s \<and> rs_version s = None
     \<and> rs_requests s = []"

lemma connected_new: "connected raw_new"
  by (simp add: connected_def raw_new_def session_ok_def)

lemma init_exchange:
  assumes "connected s" and proc: "process_request H (Init init_new) h = (p, h')" and "sendable p"
  defines "s2 \<equiv> s\<lparr>rs_channels := rs_channels s + 1,
      rs_receivers := insert (rs_channels s) (rs_receivers s),
      rs_requests := [(None, rs_channels s)], rs_tx := []\<rparr>"
  shows "raw_init (loopback H) (s, h) =
    (case end_send None (rs_channels s) (snd (execute_handler (packet_body p) inner_handler s2)) of
       (Err e, s') \<Rightarrow> (Err e, s', h')
     | (Ok result, s') \<Rightarrow>
         (case result of Version version \<Rightarrow> Ok version | _ \<Rightarrow> Err CE_UnexpectedPacket, s', h'))"
proof -
  note C = assms(1) [unfolded connected_def]
  define s1 where "s1 = s2\<lparr>rs_tx := [frame (packet_body (Init init_new))]\<rparr>"
  have begin_s1: "begin_send None (Init init_new) s = (Ok (rs_channels s), s1)"
    using C by (simp add: begin_send_def bytes_of_packet_frame tx_send_def s1_def s2_def Let_def)
  have fits: "packet_fits (Init init_new)" "frame_fits (packet_body (Init init_new))"
    by (simp_all add: fits_init_def init_new_def string_map_fits_def frame_fits_def packet_body_def
        wire_init_def wire_entries_def)
  have "takeWhile (\<lambda>data. data \<noteq> []) (rs_tx s1) = [frame (packet_body (Init init_new))]"
    by (simp add: s1_def frame_nonempty)
  then have "loopback H c t (s1, h) = (snd (execute_handler (packet_body p) inner_handler s2), h')" for c t
    using proc assms(3) packet_try_from_body [OF fits(1)] fits(2)
    by (simp add: loopback_eq Let_def frame_bodies_one sendable_def serve_Cons respond_def s1_def s2_def)
  then show ?thesis
    by (simp add: raw_init_def send_def begin_s1 and_then_def split: prod.split result.split)
qed

lemma process_init: "process_request H (Init init_new) h = into_wrap H 0 Version (h_init H VERSION [] h)"
  by (simp add: process_request_def packet_request_id_def init_new_def)

lemma init_served:
  assumes "connected s" and "h_init H VERSION [] h = (Ok v, h')" and "sendable (Version v)"
  shows "\<exists>s'. raw_init (loopback H) (s, h) = (Ok v, s', h') \<and> idle s'
    \<and> rs_version s' = Some (version_version v) \<and> rs_next_req_id s' = rs_next_req_id s
    \<and> rs_handles s' = rs_handles s \<and> rs_limits s' = rs_limits s"
proof -
  note C = assms(1) [unfolded connected_def]
  define c where "c = rs_channels s"
  define s2 where "s2 = s\<lparr>rs_channels := rs_channels s + 1,
      rs_receivers := insert (rs_channels s) (rs_receivers s),
      rs_requests := [(None, rs_channels s)], rs_tx := []\<rparr>"
  have proc: "process_request H (Init init_new) h = (Version v, h')"
    by (simp add: process_init assms(2) into_wrap_def)
  have inbox: "rs_inbox s c = None" using session_okD(6,7) C by (fastforce simp: c_def)
  have exec: "snd (execute_handler (packet_body (Version v)) inner_handler s2)
      = s2\<lparr>rs_requests := [], rs_inbox := (rs_inbox s)(c := Some (Ok (Version v))),
          rs_version := Some (version_version v)\<rparr>" (is "_ = ?s3")
    using packet_try_from_body [of "Version v"] assms(3) C inbox
    by (simp add: sendable_def execute_handler_def inner_methods inner_version_def session_reply_def
        try_send_def client_into_wrap_def s2_def c_def)
  have "session_ok (s\<lparr>rs_requests := [], rs_channels := Suc c,
      rs_receivers := rs_receivers s - {c}, rs_inbox := (rs_inbox s)(c := None)\<rparr>) []"
    using C by (auto simp: session_ok_def c_def less_Suc_eq)
  then have "idle (drop_receiver c ?s3)"
    using C by (simp add: idle_def drop_receiver_def s2_def c_def session_ok_def)
  moreover have "end_send None c ?s3 = (Ok (Version v), drop_receiver c ?s3)"
    by (simp add: end_send_def)
  ultimately show ?thesis
    using init_exchange [OF assms(1) proc assms(3), folded s2_def] exec
    by (auto simp: c_def drop_receiver_def s2_def)
qed

lemma init_refused:
  assumes "connected s" and "h_init H VERSION [] h = (Err e, h')"
  shows "\<exists>s'. raw_init (loopback H) (s, h) = (Err CE_Timeout, s', h')"
proof -
  note C = assms(1) [unfolded connected_def]
  define s2 where "s2 = s\<lparr>rs_channels := rs_channels s + 1,
      rs_receivers := insert (rs_channels s) (rs_receivers s),
      rs_requests := [(None, rs_channels s)], rs_tx := []\<rparr>"
  define p where "p = packet_error 0 (h_into_status H e)"
  have proc: "process_request H (Init init_new) h = (p, h')"
    by (simp add: process_init assms(2) into_wrap_def p_def)
  have inbox: "rs_inbox s (rs_channels s) = None" using session_okD(6,7) C by fastforce
  have "snd (execute_handler (packet_body p) inner_handler s2) = s2"
    using packet_try_from_body [of p] sendable_error [of 0 "h_into_status H e"]
    by (simp add: sendable_def execute_handler_def inner_methods session_reply_def
        client_into_wrap_def s2_def p_def packet_error_def packet_status_def)
  then show ?thesis
    using init_exchange [OF assms(1) proc, folded s2_def] sendable_error inbox
    by (simp add: p_def end_send_def has_sender_def s2_def client_error_of_elapsed_def Let_def)
qed

section \<open>Properties of client and server together\<close>

text \<open>C5: A call reaches the handler and its answer comes back: on an idle session, a request of any
  kind sent to the crate's own server returns what the handler's method makes of the request as it
  was sent (half-given attribute pairs completed), and leaves the session idle with the next id.\<close>

theorem remote_call_answered:
  assumes "echo_handler H" and "idle s" and "is_request (packet (rs_next_req_id s))"
    and "packet_request_id (packet (rs_next_req_id s)) = rs_next_req_id s"
    and "sendable (packet (rs_next_req_id s))"
    and "sendable (fst (process_request H (norm_packet (packet (rs_next_req_id s))) h))"
  shows "\<exists>s'. request (loopback H) packet (s, h)
      = (Ok (norm_packet (fst (process_request H (norm_packet (packet (rs_next_req_id s))) h))), s',
         snd (process_request H (norm_packet (packet (rs_next_req_id s))) h))
    \<and> call_frame s s'"
  by (rule echo_handler.request_served [where packet = packet, OF assms(1,2) refl assms(3,4,5,6)])

text \<open>An idle session, for the examples: the state right after the version exchange.\<close>

definition session_ready :: raw_session where
  "session_ready = raw_new\<lparr>rs_version := Some 3\<rparr>"

lemma idle_ready: "idle session_ready"
  by (simp add: idle_def session_ready_def raw_new_def session_ok_def)

lemma ready_simps [simp]:
  "rs_next_req_id session_ready = 1" "rs_handles session_ready = 0"
  "rs_limits session_ready = limits_default"
  by (simp_all add: session_ready_def raw_new_def)

theorem remote_call_answered_witness:
  "\<exists>s'. request (loopback (example_handler decimal))
        (\<lambda>i. RealPath \<lparr>realpath_id = i, realpath_path = lit ''.''\<rparr>) (session_ready, example_default)
      = (Ok (norm_packet (fst (process_request (example_handler decimal)
            (norm_packet (RealPath \<lparr>realpath_id = rs_next_req_id session_ready, realpath_path = lit ''.''\<rparr>))
            example_default))), s',
         snd (process_request (example_handler decimal)
            (norm_packet (RealPath \<lparr>realpath_id = rs_next_req_id session_ready, realpath_path = lit ''.''\<rparr>))
            example_default))
    \<and> call_frame session_ready s'"
proof (rule remote_call_answered [OF example_echo.echo_handler_axioms idle_ready])
  have v: "valid_utf8 (lit ''.'')" "valid_utf8 (lit ''/'')" "valid_utf8 (lit '''')"
    by (simp_all add: valid_utf8_ascii lit_def)
  show "sendable (RealPath \<lparr>realpath_id = rs_next_req_id session_ready, realpath_path = lit ''.''\<rparr>)"
    using v by (simp add: sendable_def fits_realpath_def string_fits_def frame_fits_def packet_body_def
        wire_realpath_def wire_string_def lit_def)
  show "sendable (fst (process_request (example_handler decimal)
      (norm_packet (RealPath \<lparr>realpath_id = rs_next_req_id session_ready, realpath_path = lit ''.''\<rparr>))
      example_default))"
    using v wire_attrs_length [of attrs_default]
    by (simp add: process_request_def packet_request_id_def into_wrap_def example_realpath_def
        sendable_def fits_name_def files_fit_def fits_file_def string_fits_def file_dummy_def
        frame_fits_def packet_body_def wire_name_def wire_vec_def wire_file_def wire_string_def lit_def)
qed (simp_all add: packet_request_id_def)

text \<open> Reading remotely is reading: the result of a read is the handler's data, or its error as a
  status error with the handler's code, and the handler gets the handle, offset and length asked
  for.\<close>

theorem remote_read:
  assumes "echo_handler H" and "idle s" and "string_fits handle" and "length handle < 2 ^ 30"
    and "\<And>r. lim_read_len (rs_limits s) = Some r \<Longrightarrow> ucast n \<le> r"
    and "\<And>d. fst (h_read H (rs_next_req_id s) handle offset n h) = Ok d \<Longrightarrow> length (data_data d) < 2 ^ 31"
  shows "\<exists>s'. raw_read (loopback H) handle offset n (s, h)
      = (map_err (status_error H (rs_next_req_id s))
           (fst (h_read H (rs_next_req_id s) handle offset n h)), s',
         snd (h_read H (rs_next_req_id s) handle offset n h))
    \<and> call_frame s s'"
  using echo_handler.read_served [OF assms] by blast

theorem remote_read_witness:
  "\<exists>s'. raw_read (loopback (example_handler decimal)) (lit ''/'') 0 16 (session_ready, example_default)
      = (map_err (status_error (example_handler decimal) (rs_next_req_id session_ready))
           (fst (h_read (example_handler decimal) (rs_next_req_id session_ready) (lit ''/'') 0 16
              example_default)), s',
         snd (h_read (example_handler decimal) (rs_next_req_id session_ready) (lit ''/'') 0 16
            example_default))
    \<and> call_frame session_ready s'"
  by (rule remote_read [OF example_echo.echo_handler_axioms idle_ready])
    (simp_all add: string_fits_def valid_utf8_ascii lit_def limits_default_def
      example_handler_def default_handler_def)

text \<open> Opening remotely counts handles: within the limit an open returns the handler's handle and
  counts it; the count grows by exactly one on success and not at all on an error.\<close>

theorem remote_open:
  assumes "echo_handler H" and "idle s" and "string_fits filename" and "length filename < 2 ^ 30"
    and "\<not> handle_limit_reached s"
    and "\<And>x. fst (h_open H (rs_next_req_id s) filename flags (norm_attrs attrs) h) = Ok x \<Longrightarrow>
        string_fits (handle_handle x) \<and> length (handle_handle x) < 2 ^ 30"
  shows "\<exists>s'. raw_open (loopback H) filename flags attrs (s, h)
      = (map_err (status_error H (rs_next_req_id s))
           (fst (h_open H (rs_next_req_id s) filename flags (norm_attrs attrs) h)),
         (if is_ok (fst (h_open H (rs_next_req_id s) filename flags (norm_attrs attrs) h))
          then s'\<lparr>rs_handles := rs_handles s + 1\<rparr> else s'),
         snd (h_open H (rs_next_req_id s) filename flags (norm_attrs attrs) h))
    \<and> call_frame s s'"
  using echo_handler.open_served [OF assms] by blast

theorem remote_open_witness:
  "\<exists>s'. raw_open (loopback (example_handler decimal)) (lit ''foo'') OPEN_READ attrs_empty
        (session_ready, example_default)
      = (map_err (status_error (example_handler decimal) (rs_next_req_id session_ready))
           (fst (h_open (example_handler decimal) (rs_next_req_id session_ready) (lit ''foo'') OPEN_READ
              (norm_attrs attrs_empty) example_default)),
         (if is_ok (fst (h_open (example_handler decimal) (rs_next_req_id session_ready) (lit ''foo'')
              OPEN_READ (norm_attrs attrs_empty) example_default))
          then s'\<lparr>rs_handles := rs_handles session_ready + 1\<rparr> else s'),
         snd (h_open (example_handler decimal) (rs_next_req_id session_ready) (lit ''foo'') OPEN_READ
            (norm_attrs attrs_empty) example_default))
    \<and> call_frame session_ready s'"
  by (rule remote_open [OF example_echo.echo_handler_axioms idle_ready])
    (simp_all add: string_fits_def valid_utf8_ascii lit_def limits_default_def handle_limit_reached_def
      example_handler_def default_handler_def)

text \<open> The version exchange: against a server whose handler accepts the initialization the client
  gets the handler's version packet and can make calls afterwards.\<close>

theorem version_exchange:
  assumes "connected s" and "h_init H VERSION [] h = (Ok v, h')" and "sendable (Version v)"
  shows "\<exists>s'. raw_init (loopback H) (s, h) = (Ok v, s', h') \<and> idle s'
    \<and> rs_version s' = Some (version_version v)"
  using init_served [OF assms] by blast

theorem version_exchange_witness:
  "\<exists>s'. raw_init (loopback (example_handler decimal)) (raw_new, example_default)
      = (Ok version_new, s', example_default\<lparr>ex_version := Some VERSION\<rparr>) \<and> idle s'
    \<and> rs_version s' = Some (version_version version_new)"
  by (rule version_exchange [OF connected_new])
    (simp_all add: example_init_def example_default_def sendable_def fits_version_def version_new_def
      string_map_fits_def frame_fits_def packet_body_def wire_version_def wire_entries_def)

text \<open>C31: A refused initialization is never reported: the server answers it with a status under id 0,
  which matches no call, so the client only notices when its time is over.\<close>

theorem refused_init_times_out:
  assumes "connected s" and "h_init H VERSION [] h = (Err e, h')"
  shows "\<exists>s'. raw_init (loopback H) (s, h) = (Err CE_Timeout, s', h')"
  using assms by (rule init_refused)

theorem refused_init_times_out_witness:
  "\<exists>s'. raw_init (loopback (example_handler decimal)) (raw_new, example_default\<lparr>ex_version := Some 3\<rparr>)
      = (Err CE_Timeout, s', example_default\<lparr>ex_version := Some 3\<rparr>)"
  by (rule refused_init_times_out [OF connected_new]) (simp add: example_init_def)

end
