(* ===== verification/Calls.thy ===== *)
theory Calls
  imports EndToEnd
begin

text \<open>
  The remaining calls of the raw session, answered by the crate's own server: what a call with a
  status, attributes or names as its reply returns for an outcome of the handler's method, and
  from that one fact per method, which is the outcome itself.
\<close>

definition status_reply :: "('h, 'e) handler \<Rightarrow> u32 \<Rightarrow> (status_msg, 'e) result \<Rightarrow> (status_msg, client_error) result" where
  "status_reply H i r =
     into_status (case r of Ok st \<Rightarrow> Status st | Err e \<Rightarrow> packet_error i (h_into_status H e))"

definition attrs_reply :: "('h, 'e) handler \<Rightarrow> u32 \<Rightarrow> (attrs_reply_msg, 'e) result \<Rightarrow> (attrs_reply_msg, client_error) result" where
  "attrs_reply H i r = map_ok norm_attrs_reply (map_err (status_error H i) r)"

definition name_reply :: "('h, 'e) handler \<Rightarrow> u32 \<Rightarrow> (name_msg, 'e) result \<Rightarrow> (name_msg, client_error) result" where
  "name_reply H i r = map_ok norm_name (map_err (status_error H i) r)"

lemma sendable_attrs: "sendable (Attrs x)"
  using wire_attrs_length [of "attrs_reply_attrs x"]
  by (simp add: sendable_def frame_fits_def packet_body_def wire_attrs_reply_def fits_attrs_reply_def)

lemma status_reply_ok: "status_status_code st = SC_Ok \<Longrightarrow> status_reply H i (Ok st) = Ok st"
  by (simp add: status_reply_def into_status_def)

lemma status_reply_err: "h_into_status H e \<noteq> SC_Ok \<Longrightarrow> status_reply H i (Err e) = Err (status_error H i e)"
  by (simp add: status_reply_def into_status_def packet_error_def packet_status_def status_error_def
      client_error_of_status_def)

definition extended_answer :: "('h, 'e) handler \<Rightarrow> u32 \<Rightarrow> (packet, 'e) result \<Rightarrow> packet" where
  "extended_answer H i r =
     (case r of Ok p \<Rightarrow> norm_packet p | Err e \<Rightarrow> packet_error i (h_into_status H e))"

lemma extension_names:
  "string_fits EXT_HARDLINK" "length EXT_HARDLINK < 2 ^ 10"
  "string_fits EXT_FSYNC" "length EXT_FSYNC < 2 ^ 10"
  "string_fits EXT_STATVFS" "length EXT_STATVFS < 2 ^ 10"
  "string_fits EXT_LIMITS" "length EXT_LIMITS < 2 ^ 10"
  by (simp_all add: string_fits_def valid_utf8_ascii lit_def EXT_HARDLINK_def EXT_FSYNC_def EXT_STATVFS_def
      EXT_LIMITS_def)

context echo_handler
begin

lemma status_call:
  fixes res :: "(status_msg, 'e) result \<times> 'h"
  assumes "idle s" and "is_request (packet (rs_next_req_id s))"
    and "packet_request_id (packet (rs_next_req_id s)) = rs_next_req_id s"
    and "sendable (packet (rs_next_req_id s))"
    and "process_request H (norm_packet (packet (rs_next_req_id s))) h
        = into_wrap H (rs_next_req_id s) Status res"
    and "\<And>x. fst res = Ok x \<Longrightarrow> sendable (Status x)"
  shows "\<exists>s'. and_then (request (loopback H) packet (s, h)) (\<lambda>result sw. (into_status result, sw))
      = (status_reply H (rs_next_req_id s) (fst res), s', snd res) \<and> call_frame s s'"
  using served [where packet = packet and h = h, OF assms]
  by (cases "fst res") (auto simp: status_reply_def)

lemma attrs_call:
  fixes res :: "(attrs_reply_msg, 'e) result \<times> 'h"
  assumes "idle s" and "is_request (packet (rs_next_req_id s))"
    and "packet_request_id (packet (rs_next_req_id s)) = rs_next_req_id s"
    and "sendable (packet (rs_next_req_id s))"
    and "process_request H (norm_packet (packet (rs_next_req_id s))) h
        = into_wrap H (rs_next_req_id s) Attrs res"
  shows "\<exists>s'. and_then (request (loopback H) packet (s, h)) (\<lambda>result sw. (into_with_status as_attrs result, sw))
      = (attrs_reply H (rs_next_req_id s) (fst res), s', snd res) \<and> call_frame s s'"
  using served [where packet = packet and h = h, OF assms sendable_attrs]
  by (cases "fst res") (auto simp: attrs_reply_def reply_defs)

lemma name_call:
  fixes res :: "(name_msg, 'e) result \<times> 'h"
  assumes "idle s" and "is_request (packet (rs_next_req_id s))"
    and "packet_request_id (packet (rs_next_req_id s)) = rs_next_req_id s"
    and "sendable (packet (rs_next_req_id s))"
    and "process_request H (norm_packet (packet (rs_next_req_id s))) h
        = into_wrap H (rs_next_req_id s) Name res"
    and "\<And>x. fst res = Ok x \<Longrightarrow> sendable (Name x)"
  shows "\<exists>s'. and_then (request (loopback H) packet (s, h)) (\<lambda>result sw. (into_with_status as_name result, sw))
      = (name_reply H (rs_next_req_id s) (fst res), s', snd res) \<and> call_frame s s'"
  using served [where packet = packet and h = h, OF assms]
  by (cases "fst res") (auto simp: name_reply_def reply_defs)

lemma fstat_served:
  assumes "idle s" and "string_fits handle" and "length handle < 2 ^ 30"
  shows "\<exists>s'. raw_fstat (loopback H) handle (s, h)
      = (attrs_reply H (rs_next_req_id s) (fst (h_fstat H (rs_next_req_id s) handle h)), s',
         snd (h_fstat H (rs_next_req_id s) handle h)) \<and> call_frame s s'"
  unfolding raw_fstat_def
  by (rule attrs_call) (use assms in \<open>simp_all add: request_defs fits_fstat_def wire_fstat_def\<close>)

lemma lstat_served:
  assumes "idle s" and "string_fits path" and "length path < 2 ^ 30"
  shows "\<exists>s'. raw_lstat (loopback H) path (s, h)
      = (attrs_reply H (rs_next_req_id s) (fst (h_lstat H (rs_next_req_id s) path h)), s',
         snd (h_lstat H (rs_next_req_id s) path h)) \<and> call_frame s s'"
  unfolding raw_lstat_def
  by (rule attrs_call) (use assms in \<open>simp_all add: request_defs fits_lstat_def wire_lstat_def\<close>)

lemma realpath_served:
  assumes "idle s" and "string_fits path" and "length path < 2 ^ 30"
    and "\<And>x. fst (h_realpath H (rs_next_req_id s) path h) = Ok x \<Longrightarrow> sendable (Name x)"
  shows "\<exists>s'. raw_realpath (loopback H) path (s, h)
      = (name_reply H (rs_next_req_id s) (fst (h_realpath H (rs_next_req_id s) path h)), s',
         snd (h_realpath H (rs_next_req_id s) path h)) \<and> call_frame s s'"
  unfolding raw_realpath_def
  by (rule name_call) (use assms in \<open>simp_all add: request_defs fits_realpath_def wire_realpath_def\<close>)

lemma mkdir_served:
  assumes "idle s" and "string_fits path" and "length path < 2 ^ 30"
    and "\<And>x. fst (h_mkdir H (rs_next_req_id s) path (norm_attrs attrs) h) = Ok x \<Longrightarrow> sendable (Status x)"
  shows "\<exists>s'. raw_mkdir (loopback H) path attrs (s, h)
      = (status_reply H (rs_next_req_id s) (fst (h_mkdir H (rs_next_req_id s) path (norm_attrs attrs) h)), s',
         snd (h_mkdir H (rs_next_req_id s) path (norm_attrs attrs) h)) \<and> call_frame s s'"
  unfolding raw_mkdir_def
  by (rule status_call) (use assms wire_attrs_length [of attrs] in
    \<open>simp_all add: request_defs fits_mkdir_def wire_mkdir_def norm_mkdir_def\<close>)

lemma symlink_served:
  assumes "idle s" and "string_fits path" and "length path < 2 ^ 30"
    and "string_fits target" and "length target < 2 ^ 30"
    and "\<And>x. fst (h_symlink H (rs_next_req_id s) path target h) = Ok x \<Longrightarrow> sendable (Status x)"
  shows "\<exists>s'. raw_symlink (loopback H) path target (s, h)
      = (status_reply H (rs_next_req_id s) (fst (h_symlink H (rs_next_req_id s) path target h)), s',
         snd (h_symlink H (rs_next_req_id s) path target h)) \<and> call_frame s s'"
  unfolding raw_symlink_def
  by (rule status_call) (use assms in \<open>simp_all add: request_defs fits_symlink_def wire_symlink_def\<close>)

lemma remove_served:
  assumes "idle s" and "string_fits filename" and "length filename < 2 ^ 30"
    and "\<And>x. fst (h_remove H (rs_next_req_id s) filename h) = Ok x \<Longrightarrow> sendable (Status x)"
  shows "\<exists>s'. raw_remove (loopback H) filename (s, h)
      = (status_reply H (rs_next_req_id s) (fst (h_remove H (rs_next_req_id s) filename h)), s',
         snd (h_remove H (rs_next_req_id s) filename h)) \<and> call_frame s s'"
  unfolding raw_remove_def
  by (rule status_call) (use assms in \<open>simp_all add: request_defs fits_remove_def wire_remove_def\<close>)

lemma rmdir_served:
  assumes "idle s" and "string_fits path" and "length path < 2 ^ 30"
    and "\<And>x. fst (h_rmdir H (rs_next_req_id s) path h) = Ok x \<Longrightarrow> sendable (Status x)"
  shows "\<exists>s'. raw_rmdir (loopback H) path (s, h)
      = (status_reply H (rs_next_req_id s) (fst (h_rmdir H (rs_next_req_id s) path h)), s',
         snd (h_rmdir H (rs_next_req_id s) path h)) \<and> call_frame s s'"
  unfolding raw_rmdir_def
  by (rule status_call) (use assms in \<open>simp_all add: request_defs fits_rmdir_def wire_rmdir_def\<close>)

lemma rename_served:
  assumes "idle s" and "string_fits oldpath" and "length oldpath < 2 ^ 30"
    and "string_fits newpath" and "length newpath < 2 ^ 30"
    and "\<And>x. fst (h_rename H (rs_next_req_id s) oldpath newpath h) = Ok x \<Longrightarrow> sendable (Status x)"
  shows "\<exists>s'. raw_rename (loopback H) oldpath newpath (s, h)
      = (status_reply H (rs_next_req_id s) (fst (h_rename H (rs_next_req_id s) oldpath newpath h)), s',
         snd (h_rename H (rs_next_req_id s) oldpath newpath h)) \<and> call_frame s s'"
  unfolding raw_rename_def
  by (rule status_call) (use assms in \<open>simp_all add: request_defs fits_rename_def wire_rename_def\<close>)

lemma setstat_served:
  assumes "idle s" and "string_fits path" and "length path < 2 ^ 30"
    and "\<And>x. fst (h_setstat H (rs_next_req_id s) path (norm_attrs attrs) h) = Ok x \<Longrightarrow> sendable (Status x)"
  shows "\<exists>s'. raw_setstat (loopback H) path attrs (s, h)
      = (status_reply H (rs_next_req_id s) (fst (h_setstat H (rs_next_req_id s) path (norm_attrs attrs) h)), s',
         snd (h_setstat H (rs_next_req_id s) path (norm_attrs attrs) h)) \<and> call_frame s s'"
  unfolding raw_setstat_def
  by (rule status_call) (use assms wire_attrs_length [of attrs] in
    \<open>simp_all add: request_defs fits_setstat_def wire_setstat_def norm_setstat_def\<close>)

lemma fsetstat_served:
  assumes "idle s" and "string_fits handle" and "length handle < 2 ^ 30"
    and "\<And>x. fst (h_fsetstat H (rs_next_req_id s) handle (norm_attrs attrs) h) = Ok x \<Longrightarrow> sendable (Status x)"
  shows "\<exists>s'. raw_fsetstat (loopback H) handle attrs (s, h)
      = (status_reply H (rs_next_req_id s) (fst (h_fsetstat H (rs_next_req_id s) handle (norm_attrs attrs) h)), s',
         snd (h_fsetstat H (rs_next_req_id s) handle (norm_attrs attrs) h)) \<and> call_frame s s'"
  unfolding raw_fsetstat_def
  by (rule status_call) (use assms wire_attrs_length [of attrs] in
    \<open>simp_all add: request_defs fits_fsetstat_def wire_fsetstat_def norm_fsetstat_def\<close>)

lemma readlink_served:
  assumes "idle s" and "string_fits path" and "length path < 2 ^ 30"
    and "\<And>x. fst (h_readlink H (rs_next_req_id s) path h) = Ok x \<Longrightarrow> sendable (Name x)"
  shows "\<exists>s'. raw_readlink (loopback H) path (s, h)
      = (name_reply H (rs_next_req_id s) (fst (h_readlink H (rs_next_req_id s) path h)), s',
         snd (h_readlink H (rs_next_req_id s) path h)) \<and> call_frame s s'"
  unfolding raw_readlink_def
  by (rule name_call) (use assms in \<open>simp_all add: request_defs fits_readlink_def wire_readlink_def\<close>)

section \<open>Extensions\<close>

text \<open>An extended request carries the payload of its struct and is answered by a packet of any kind.\<close>

lemma extended_served:
  assumes "idle s" and "string_fits name" and "length name < 2 ^ 10" and "length data < 2 ^ 31"
    and "\<And>p. fst (h_extended H (rs_next_req_id s) name data h) = Ok p \<Longrightarrow> sendable p"
  shows "\<exists>s'. raw_extended (loopback H) name data (s, h)
      = (Ok (case fst (h_extended H (rs_next_req_id s) name data h) of Ok p \<Rightarrow> norm_packet p
             | Err e \<Rightarrow> packet_error (rs_next_req_id s) (h_into_status H e)), s',
         snd (h_extended H (rs_next_req_id s) name data h)) \<and> call_frame s s'"
  unfolding raw_extended_def
  by (rule served [where into = "\<lambda>p. p"])
    (use assms in \<open>simp_all add: request_defs fits_extended_def wire_extended_def id_def\<close>)

lemma hardlink_served:
  assumes "idle s" and "length oldpath < 2 ^ 29" and "length newpath < 2 ^ 29"
    and "\<And>p. fst (h_extended H (rs_next_req_id s) EXT_HARDLINK (wire_string oldpath @ wire_string newpath) h) = Ok p
      \<Longrightarrow> sendable p"
  shows "\<exists>s'. raw_hardlink (loopback H) oldpath newpath (s, h)
      = (into_status (extended_answer H (rs_next_req_id s)
           (fst (h_extended H (rs_next_req_id s) EXT_HARDLINK (wire_string oldpath @ wire_string newpath) h))), s',
         snd (h_extended H (rs_next_req_id s) EXT_HARDLINK (wire_string oldpath @ wire_string newpath) h))
    \<and> call_frame s s'"
proof -
  have "length (wire_string oldpath @ wire_string newpath) < 2 ^ 31" using assms(2,3) by (simp add: wire_string_def)
  from extended_served [where data = "wire_string oldpath @ wire_string newpath" and h = h, OF assms(1) extension_names(1,2) this assms(4)]
  show ?thesis
    by (auto simp: raw_hardlink_def with_payload_def hardlink_codec.message.to_bytes_law wire_hardlink_def
        extended_answer_def)
qed

lemma fsync_served:
  assumes "idle s" and "length handle < 2 ^ 30"
    and "\<And>p. fst (h_extended H (rs_next_req_id s) EXT_FSYNC (wire_string handle) h) = Ok p \<Longrightarrow> sendable p"
  shows "\<exists>s'. raw_fsync (loopback H) handle (s, h)
      = (into_status (extended_answer H (rs_next_req_id s)
           (fst (h_extended H (rs_next_req_id s) EXT_FSYNC (wire_string handle) h))), s',
         snd (h_extended H (rs_next_req_id s) EXT_FSYNC (wire_string handle) h)) \<and> call_frame s s'"
proof -
  have "length (wire_string handle) < 2 ^ 31" using assms(2) by (simp add: wire_string_def)
  from extended_served [where data = "wire_string handle" and h = h, OF assms(1) extension_names(3,4) this assms(3)]
  show ?thesis
    by (auto simp: raw_fsync_def with_payload_def fsync_codec.message.to_bytes_law wire_fsync_def
        extended_answer_def)
qed

lemma statvfs_served:
  assumes "idle s" and "length path < 2 ^ 30"
    and "\<And>p. fst (h_extended H (rs_next_req_id s) EXT_STATVFS (wire_string path) h) = Ok p \<Longrightarrow> sendable p"
  shows "\<exists>s'. raw_statvfs (loopback H) path (s, h)
      = (reply_data de_statvfs (extended_answer H (rs_next_req_id s)
           (fst (h_extended H (rs_next_req_id s) EXT_STATVFS (wire_string path) h))), s',
         snd (h_extended H (rs_next_req_id s) EXT_STATVFS (wire_string path) h)) \<and> call_frame s s'"
proof -
  have "length (wire_string path) < 2 ^ 31" using assms(2) by (simp add: wire_string_def)
  from extended_served [where data = "wire_string path" and h = h, OF assms(1) extension_names(5,6) this assms(3)]
  show ?thesis
    by (auto simp: raw_statvfs_def with_payload_def statvfs_request_codec.message.to_bytes_law wire_statvfs_request_def
        extended_answer_def)
qed

end

end
