(* ===== verification/Files.thy ===== *)
theory Files
  imports RawSession
begin

text \<open>
  \<^verbatim>\<open>src/client/fs/\<close>: an open remote file with its poll-based reads, writes, seeks, flush and
  shutdown, and the directory iterator. A future is what it captured when it was made; polling it
  asks an \<open>answer\<close> function for the outcome of the request it waits on, \<^const>\<open>None\<close> while there is
  none. Polling an async block that has finished panics, as does \<^verbatim>\<open>put_slice\<close> on a buffer that is
  too short; a panic is an outcome of its own. An I/O error made here is its message.
\<close>

datatype 'a poll = Pending | Ready 'a | Panicked

type_synonym file_error = msg
type_synonym 'a answer = "('a, client_error) result option"

record extensions =
  ext_hardlink :: bool
  ext_fsync :: bool
  ext_statvfs :: bool
  ext_limits :: "limits option"

definition MAX_READ_LENGTH :: u64 where "MAX_READ_LENGTH = 261120"

definition MAX_WRITE_LENGTH :: u64 where "MAX_WRITE_LENGTH = 261120"

type_synonym i64 = "64 word"

datatype seek_from = SeekStart u64 | SeekEnd i64 | SeekCurrent i64

record read_future =
  rf_handle :: bytes
  rf_offset :: u64
  rf_len :: u32

record write_future =
  wf_handle :: bytes
  wf_offset :: u64
  wf_data :: bytes

datatype seek_future = SeekRunning bytes seek_from i64 | SeekFinished

record remote_file =
  fl_handle :: bytes
  fl_read :: "read_future option"
  fl_seek :: "seek_future option"
  fl_write :: "write_future option"
  fl_flush :: "bytes option"
  fl_shutdown :: "bytes option"
  fl_pos :: u64
  fl_closed :: bool
  fl_extensions :: extensions

definition file_open :: "bytes \<Rightarrow> extensions \<Rightarrow> remote_file" where
  "file_open handle extensions =
     \<lparr>fl_handle = handle, fl_read = None, fl_seek = None, fl_write = None, fl_flush = None,
      fl_shutdown = None, fl_pos = 0, fl_closed = False, fl_extensions = extensions\<rparr>"

section \<open>Plain requests on a file\<close>

definition file_metadata ::
  "'w waits \<Rightarrow> remote_file \<Rightarrow> raw_session \<times> 'w
     \<Rightarrow> (file_attributes, client_error) result \<times> raw_session \<times> 'w" where
  "file_metadata W f sw =
     and_then (raw_fstat W (fl_handle f) sw) (\<lambda>reply sw. (Ok (attrs_reply_attrs reply), sw))"

definition file_set_metadata ::
  "'w waits \<Rightarrow> remote_file \<Rightarrow> file_attributes \<Rightarrow> raw_session \<times> 'w
     \<Rightarrow> (unit, client_error) result \<times> raw_session \<times> 'w" where
  "file_set_metadata W f metadata sw =
     (case raw_fsetstat W (fl_handle f) metadata sw of (r, sw) \<Rightarrow> (map_ok (\<lambda>_. ()) r, sw))"

definition file_sync_all ::
  "'w waits \<Rightarrow> remote_file \<Rightarrow> raw_session \<times> 'w \<Rightarrow> (unit, client_error) result \<times> raw_session \<times> 'w" where
  "file_sync_all W f sw =
     (if \<not> ext_fsync (fl_extensions f) then (Ok (), sw)
      else (case raw_fsync W (fl_handle f) sw of (r, sw) \<Rightarrow> (map_ok (\<lambda>_. ()) r, sw)))"

text \<open>
  Dropping a file that was not shut down spawns a task that closes its handle, whose result nobody
  sees: \<open>file_drop\<close> is the handle of the task, \<open>drop_task\<close> its run, which may come at any later time.
  Outside a runtime, which no code of this repository is, nothing would be spawned.
\<close>

definition file_drop :: "remote_file \<Rightarrow> bytes option" where
  "file_drop f = (if fl_closed f then None else Some (fl_handle f))"

definition drop_task :: "'w waits \<Rightarrow> bytes \<Rightarrow> raw_session \<times> 'w \<Rightarrow> raw_session \<times> 'w" where
  "drop_task W handle sw = snd (raw_close W handle sw)"

section \<open>Reading\<close>

definition limit_or :: "(limits \<Rightarrow> u64 option) \<Rightarrow> u64 \<Rightarrow> extensions \<Rightarrow> u64" where
  "limit_or sel fallback e =
     (case ext_limits e of
        None \<Rightarrow> fallback
      | Some l \<Rightarrow> (case sel l of None \<Rightarrow> fallback | Some n \<Rightarrow> n))"

definition start_read :: "nat \<Rightarrow> remote_file \<Rightarrow> read_future \<times> remote_file" where
  "start_read remaining f =
     (case fl_read f of
        Some fut \<Rightarrow> (fut, f)
      | None \<Rightarrow>
          let max_read_len = unat (limit_or lim_read_len MAX_READ_LENGTH (fl_extensions f));
              len = (if remaining > max_read_len then max_read_len else remaining);
              fut = \<lparr>rf_handle = fl_handle f, rf_offset = fl_pos f, rf_len = of_nat len\<rparr>
          in (fut, f\<lparr>fl_read := Some fut\<rparr>))"

definition read_outcome :: "(data_msg, client_error) result \<Rightarrow> (bytes option, file_error) result" where
  "read_outcome result =
     (case result of
        Ok data \<Rightarrow> Ok (Some (data_data data))
      | Err (CE_Status status) \<Rightarrow>
          if status_status_code status = SC_Eof then Ok None
          else Err (display_client_error (CE_Status status))
      | Err e \<Rightarrow> Err (display_client_error e))"

text \<open>What a ready outcome does to the file; \<open>Ok\<close> is the bytes put into the buffer.\<close>

definition finish_read ::
  "nat \<Rightarrow> (data_msg, client_error) result \<Rightarrow> remote_file \<Rightarrow> (bytes, file_error) result poll \<times> remote_file" where
  "finish_read remaining result f =
     (let f = f\<lparr>fl_read := None\<rparr>
      in case read_outcome result of
           Err e \<Rightarrow> (Ready (Err e), f)
         | Ok None \<Rightarrow> (Ready (Ok []), f)
         | Ok (Some data) \<Rightarrow>
             let f = f\<lparr>fl_pos := fl_pos f + of_nat (length data)\<rparr>
             in if length data > remaining then (Panicked, f) else (Ready (Ok data), f))"

definition poll_read ::
  "(read_future \<Rightarrow> data_msg answer) \<Rightarrow> nat \<Rightarrow> remote_file \<Rightarrow> (bytes, file_error) result poll \<times> remote_file" where
  "poll_read answer remaining f =
     (case start_read remaining f of (fut, f) \<Rightarrow>
        (case answer fut of
           None \<Rightarrow> (Pending, f)
         | Some result \<Rightarrow> finish_read remaining result f))"

section \<open>Seeking\<close>

definition start_seek :: "seek_from \<Rightarrow> remote_file \<Rightarrow> (unit, file_error) result \<times> remote_file" where
  "start_seek position f =
     (case fl_seek f of
        Some _ \<Rightarrow>
          (Err [Lit ''other file operation is pending, call poll_complete before start_seek''], f)
      | None \<Rightarrow> (Ok (), f\<lparr>fl_seek := Some (SeekRunning (fl_handle f) position (fl_pos f))\<rparr>))"

definition checked_position :: "i64 \<Rightarrow> (u64, file_error) result" where
  "checked_position new_pos =
     (if sint new_pos < 0 then Err [Lit ''cannot move file pointer before the beginning'']
      else Ok new_pos)"

text \<open>The seek block: \<^const>\<open>None\<close> while it waits for the file's size. Sums wrap in 64 bits.\<close>

definition seek_outcome ::
  "(bytes \<Rightarrow> attrs_reply_msg answer) \<Rightarrow> bytes \<Rightarrow> seek_from \<Rightarrow> i64 \<Rightarrow> (u64, file_error) result option" where
  "seek_outcome answer handle position cur_pos =
     (case position of
        SeekStart pos \<Rightarrow> Some (checked_position pos)
      | SeekCurrent pos \<Rightarrow> Some (checked_position (cur_pos + pos))
      | SeekEnd pos \<Rightarrow>
          (case answer handle of
             None \<Rightarrow> None
           | Some (Err e) \<Rightarrow> Some (Err (display_client_error e))
           | Some (Ok result) \<Rightarrow>
               (case attr_size (attrs_reply_attrs result) of
                  Some sz \<Rightarrow> Some (checked_position (sz + pos))
                | None \<Rightarrow> Some (Err [Lit ''file size unknown'']))))"

definition poll_complete ::
  "(bytes \<Rightarrow> attrs_reply_msg answer) \<Rightarrow> remote_file \<Rightarrow> (u64, file_error) result poll \<times> remote_file" where
  "poll_complete answer f =
     (case fl_seek f of
        None \<Rightarrow> (Ready (Ok (fl_pos f)), f)
      | Some SeekFinished \<Rightarrow> (Panicked, f)
      | Some (SeekRunning handle position cur_pos) \<Rightarrow>
          (case seek_outcome answer handle position cur_pos of
             None \<Rightarrow> (Pending, f)
           | Some (Err e) \<Rightarrow> (Ready (Err e), f\<lparr>fl_seek := Some SeekFinished\<rparr>)
           | Some (Ok pos) \<Rightarrow> (Ready (Ok pos), f\<lparr>fl_pos := pos, fl_seek := None\<rparr>)))"

section \<open>Writing, flushing and shutting down\<close>

definition start_write :: "bytes \<Rightarrow> remote_file \<Rightarrow> write_future \<times> remote_file" where
  "start_write buf f =
     (case fl_write f of
        Some fut \<Rightarrow> (fut, f)
      | None \<Rightarrow>
          let max_write_len = unat (limit_or lim_write_len MAX_WRITE_LENGTH (fl_extensions f));
              len = (if length buf > max_write_len then max_write_len else length buf);
              fut = \<lparr>wf_handle = fl_handle f, wf_offset = fl_pos f, wf_data = take len buf\<rparr>
          in (fut, f\<lparr>fl_write := Some fut\<rparr>))"

definition finish_write ::
  "write_future \<Rightarrow> (status_msg, client_error) result \<Rightarrow> remote_file \<Rightarrow> (nat, file_error) result \<times> remote_file" where
  "finish_write fut result f =
     (let f = f\<lparr>fl_write := None\<rparr>
      in case result of
           Err e \<Rightarrow> (Err (display_client_error e), f)
         | Ok _ \<Rightarrow>
             let len = length (wf_data fut)
             in (Ok len, f\<lparr>fl_pos := fl_pos f + of_nat len\<rparr>))"

definition poll_write ::
  "(write_future \<Rightarrow> status_msg answer) \<Rightarrow> bytes \<Rightarrow> remote_file \<Rightarrow> (nat, file_error) result poll \<times> remote_file" where
  "poll_write answer buf f =
     (case start_write buf f of (fut, f) \<Rightarrow>
        (case answer fut of
           None \<Rightarrow> (Pending, f)
         | Some result \<Rightarrow> (case finish_write fut result f of (r, f) \<Rightarrow> (Ready r, f))))"

definition poll_flush ::
  "(bytes \<Rightarrow> status_msg answer) \<Rightarrow> remote_file \<Rightarrow> (unit, file_error) result poll \<times> remote_file" where
  "poll_flush answer f =
     (if \<not> ext_fsync (fl_extensions f) then (Ready (Ok ()), f)
      else
        let handle = (case fl_flush f of Some handle \<Rightarrow> handle | None \<Rightarrow> fl_handle f)
        in (case answer handle of
              None \<Rightarrow> (Pending, f\<lparr>fl_flush := Some handle\<rparr>)
            | Some result \<Rightarrow>
                (Ready (map_ok (\<lambda>_. ()) (map_err display_client_error result)),
                 f\<lparr>fl_flush := None\<rparr>)))"

definition poll_shutdown ::
  "(bytes \<Rightarrow> status_msg answer) \<Rightarrow> remote_file \<Rightarrow> (unit, file_error) result poll \<times> remote_file" where
  "poll_shutdown answer f =
     (let handle = (case fl_shutdown f of Some handle \<Rightarrow> handle | None \<Rightarrow> fl_handle f)
      in (case answer handle of
            None \<Rightarrow> (Pending, f\<lparr>fl_shutdown := Some handle\<rparr>)
          | Some result \<Rightarrow>
              (Ready (map_ok (\<lambda>_. ()) (map_err display_client_error result)),
               f\<lparr>fl_shutdown := None, fl_closed := True\<rparr>)))"

section \<open>Directory entries\<close>

record dir_entry =
  de_file :: bytes
  de_metadata :: file_attributes

definition entry_file_name :: "dir_entry \<Rightarrow> bytes" where
  "entry_file_name e = de_file e"

definition entry_file_type :: "dir_entry \<Rightarrow> file_type" where
  "entry_file_type e = attrs_file_type (de_metadata e)"

definition entry_metadata :: "dir_entry \<Rightarrow> file_attributes" where
  "entry_metadata e = de_metadata e"

text \<open>The iterator skips the entries for the directory itself and its parent.\<close>

fun read_dir_next :: "(bytes \<times> file_attributes) list \<Rightarrow> dir_entry option \<times> (bytes \<times> file_attributes) list" where
  "read_dir_next [] = (None, [])"
| "read_dir_next (entry # entries) =
     (if fst entry = lit ''.'' \<or> fst entry = lit ''..'' then read_dir_next entries
      else (Some \<lparr>de_file = fst entry, de_metadata = snd entry\<rparr>, entries))"

lemma read_dir_next_shorter:
  "read_dir_next entries = (Some e, rest) \<Longrightarrow> length rest < length entries"
  by (induction entries) (auto split: if_splits)

text \<open>All entries an iteration sees.\<close>

function read_dir_all :: "(bytes \<times> file_attributes) list \<Rightarrow> dir_entry list" where
  "read_dir_all entries =
     (case read_dir_next entries of
        (None, _) \<Rightarrow> []
      | (Some e, rest) \<Rightarrow> e # read_dir_all rest)"
  by pat_completeness auto
termination
  by (relation "measure length") (auto dest: read_dir_next_shorter [OF sym])

declare read_dir_all.simps [simp del]

section \<open>Awaited reads and writes\<close>

text \<open>
  The async methods of the I/O traits poll until they are ready: one call of the session's
  method, whose result the file takes over. \<open>read_to_end\<close> and \<open>write_all\<close> are the loops of the I/O
  library that \<^verbatim>\<open>SftpSession::read\<close> and \<^verbatim>\<open>SftpSession::write\<close> call, as documented: read until
  nothing is read, write until everything is taken, where \<open>room i\<close> is the space the caller's buffer
  has at the \<open>i\<close>-th read. A read may never end, so the loop is partial.
\<close>

type_synonym ('a, 'w) on_file =
  "remote_file \<Rightarrow> raw_session \<times> 'w \<Rightarrow> 'a \<times> remote_file \<times> raw_session \<times> 'w"

definition file_read :: "'w waits \<Rightarrow> nat \<Rightarrow> ((bytes, file_error) result poll, 'w) on_file" where
  "file_read W remaining f sw =
     (case start_read remaining f of (fut, f) \<Rightarrow>
        (case raw_read W (rf_handle fut) (rf_offset fut) (rf_len fut) sw of (result, sw) \<Rightarrow>
           (case finish_read remaining result f of (r, f) \<Rightarrow> (r, f, sw))))"

definition file_write :: "'w waits \<Rightarrow> bytes \<Rightarrow> ((nat, file_error) result, 'w) on_file" where
  "file_write W buf f sw =
     (case start_write buf f of (fut, f) \<Rightarrow>
        (case raw_write W (wf_handle fut) (wf_offset fut) (wf_data fut) sw of (result, sw) \<Rightarrow>
           (case finish_write fut result f of (r, f) \<Rightarrow> (r, f, sw))))"

partial_function (option) read_to_end ::
  "'w waits \<Rightarrow> (nat \<Rightarrow> nat) \<Rightarrow> nat \<Rightarrow> bytes \<Rightarrow> remote_file \<Rightarrow> raw_session \<times> 'w
     \<Rightarrow> ((bytes, file_error) result poll \<times> remote_file \<times> raw_session \<times> 'w) option" where
  "read_to_end W room i buffer f sw =
     (case file_read W (room i) f sw of
        (Ready (Ok data), f, sw) \<Rightarrow>
          if data = [] then Some (Ready (Ok buffer), f, sw)
          else read_to_end W room (i + 1) (buffer @ data) f sw
      | (r, f, sw) \<Rightarrow> Some (r, f, sw))"

function write_all_file ::
  "'w waits \<Rightarrow> bytes \<Rightarrow> ((unit, file_error) result, 'w) on_file" where
  "write_all_file W buf f sw =
     (if buf = [] then (Ok (), f, sw)
      else
        (case file_write W buf f sw of
           (Err e, f, sw) \<Rightarrow> (Err e, f, sw)
         | (Ok n, f, sw) \<Rightarrow>
             if n = 0 then (Err [Lit ''failed to write whole buffer''], f, sw)
             else write_all_file W (drop n buf) f sw))"
  by pat_completeness auto
termination
  by (relation "measure (\<lambda>(W, buf, f, sw). length buf)") auto

declare write_all_file.simps [simp del]

text \<open>Awaiting is polling with an answer that is there.\<close>

lemma poll_read_ready:
  assumes "raw_read W (rf_handle (fst (start_read n f))) (rf_offset (fst (start_read n f)))
      (rf_len (fst (start_read n f))) sw = (result, sw')"
  shows "file_read W n f sw = (case poll_read (\<lambda>_. Some result) n f of (r, f) \<Rightarrow> (r, f, sw'))"
  using assms
  by (cases "start_read n f"; cases "finish_read n result (snd (start_read n f))")
    (simp add: file_read_def poll_read_def)

section \<open>Reading a whole file\<close>

text \<open>
  What is asked of the peer: on states with \<open>I\<close>, a read of \<open>n > 0\<close> bytes answers a non-empty front
  part of the content from the offset, of at most \<open>n\<close> bytes, or the end-of-file status once the
  offset is at the end. Short reads are allowed.
\<close>

definition serves_content ::
  "'w waits \<Rightarrow> (raw_session \<times> 'w \<Rightarrow> bool) \<Rightarrow> bytes \<Rightarrow> bytes \<Rightarrow> bool" where
  "serves_content W I handle content \<longleftrightarrow>
     (\<forall>sw off n. I sw \<longrightarrow> 0 < n \<longrightarrow> unat off \<le> length content \<longrightarrow>
        (\<exists>r sw'. raw_read W handle off n sw = (r, sw') \<and> I sw' \<and>
           (if unat off = length content
            then \<exists>st. r = Err (CE_Status st) \<and> status_status_code st = SC_Eof
            else \<exists>d k. r = Ok d \<and> data_data d = take k (drop (unat off) content)
                   \<and> 0 < k \<and> k \<le> unat n)))"

lemma serves_contentD:
  assumes "serves_content W I handle content" and "I sw" and "0 < n" and "unat off \<le> length content"
  shows "\<exists>r sw'. raw_read W handle off n sw = (r, sw') \<and> I sw' \<and>
    (if unat off = length content
     then \<exists>st. r = Err (CE_Status st) \<and> status_status_code st = SC_Eof
     else \<exists>d k. r = Ok d \<and> data_data d = take k (drop (unat off) content) \<and> 0 < k \<and> k \<le> unat n)"
  using assms unfolding serves_content_def by blast

text \<open>The length of a read is the smaller of the buffer's room and the limit.\<close>

definition read_size :: "nat \<Rightarrow> extensions \<Rightarrow> nat" where
  "read_size room e = min room (unat (limit_or lim_read_len MAX_READ_LENGTH e))"

lemma start_read_idle:
  "fl_read f = None \<Longrightarrow> start_read room f =
     (let fut = \<lparr>rf_handle = fl_handle f, rf_offset = fl_pos f,
        rf_len = of_nat (read_size room (fl_extensions f))\<rparr> in (fut, f\<lparr>fl_read := Some fut\<rparr>))"
  by (simp add: start_read_def read_size_def Let_def min_def)

lemma file_read_content:
  assumes serves: "serves_content W I (fl_handle f) content" and "I sw" and idle: "fl_read f = None"
    and pos: "unat (fl_pos f) \<le> length content" and len: "length content < 2 ^ 63"
    and room: "0 < read_size room (fl_extensions f)" "read_size room (fl_extensions f) < 2 ^ 32"
  obtains k sw' where "file_read W room f sw
      = (Ready (Ok (take k (drop (unat (fl_pos f)) content))),
         f\<lparr>fl_pos := fl_pos f + of_nat (length (take k (drop (unat (fl_pos f)) content)))\<rparr>, sw')"
    "I sw'" "unat (fl_pos f) < length content \<longrightarrow> 0 < k"
proof -
  let ?n = "of_nat (read_size room (fl_extensions f)) :: u32"
  have n: "unat ?n = read_size room (fl_extensions f)" using room(2) by (simp add: unat_of_nat_u32)
  then have "0 < ?n" using room(1) by (simp add: word_less_nat_alt)
  from serves_contentD [OF serves \<open>I sw\<close> this pos]
  obtain r sw' where r: "raw_read W (fl_handle f) (fl_pos f) ?n sw = (r, sw')" "I sw'"
    and cases: "if unat (fl_pos f) = length content
      then \<exists>st. r = Err (CE_Status st) \<and> status_status_code st = SC_Eof
      else \<exists>d k. r = Ok d \<and> data_data d = take k (drop (unat (fl_pos f)) content)
         \<and> 0 < k \<and> k \<le> unat ?n"
    by blast
  have start: "start_read room f = (\<lparr>rf_handle = fl_handle f, rf_offset = fl_pos f, rf_len = ?n\<rparr>,
      f\<lparr>fl_read := Some \<lparr>rf_handle = fl_handle f, rf_offset = fl_pos f, rf_len = ?n\<rparr>\<rparr>)"
    by (simp add: start_read_idle [OF idle] Let_def)
  have same: "f\<lparr>fl_read := None\<rparr> = f" using idle by simp
  show thesis
  proof (cases "unat (fl_pos f) = length content")
    case True
    with cases obtain st where "r = Err (CE_Status st)" "status_status_code st = SC_Eof" by auto
    then have "file_read W room f sw = (Ready (Ok []), f, sw')"
      using r(1) start idle by (simp add: file_read_def finish_read_def read_outcome_def same)
    then show thesis using that [of 0 sw'] r(2) True by simp
  next
    case False
    with pos have lt: "unat (fl_pos f) < length content" by simp
    with cases obtain d k where d: "r = Ok d" "data_data d = take k (drop (unat (fl_pos f)) content)"
        "0 < k" "k \<le> unat ?n" by auto
    have "length (data_data d) \<le> room" using d(2,4) n by (simp add: read_size_def min.coboundedI2)
    then have "file_read W room f sw = (Ready (Ok (data_data d)),
        f\<lparr>fl_pos := fl_pos f + of_nat (length (data_data d))\<rparr>, sw')"
      using r(1) start d(1) idle by (simp add: file_read_def finish_read_def read_outcome_def Let_def)
    then show thesis using that [of k sw'] r(2) d(2,3) by simp
  qed
qed

lemma take_drop_rest:
  fixes xs :: "'a list"
  shows "take k (drop n xs) @ drop (n + length (take k (drop n xs))) xs = drop n xs"
proof -
  have "take k ys @ drop (length (take k ys)) ys = ys" for ys :: "'a list"
    by (cases "k \<le> length ys") simp_all
  from this [of "drop n xs"] show ?thesis by (simp add: add.commute del: length_take)
qed

lemma read_to_end_content:
  assumes serves: "serves_content W I (fl_handle f) content" and "I sw" and "fl_read f = None"
    and "unat (fl_pos f) \<le> length content" and "length content < 2 ^ 63"
    and "\<And>i. 0 < read_size (room i) (fl_extensions f) \<and> read_size (room i) (fl_extensions f) < 2 ^ 32"
  shows "\<exists>sw'. read_to_end W room i buffer f sw
      = Some (Ready (Ok (buffer @ drop (unat (fl_pos f)) content)),
          f\<lparr>fl_pos := of_nat (length content)\<rparr>, sw') \<and> I sw'"
  using assms
proof (induction "length content - unat (fl_pos f)" arbitrary: i buffer f sw rule: less_induct)
  case less
  from less.prems obtain k sw1 where step: "file_read W (room i) f sw
      = (Ready (Ok (take k (drop (unat (fl_pos f)) content))),
         f\<lparr>fl_pos := fl_pos f + of_nat (length (take k (drop (unat (fl_pos f)) content)))\<rparr>, sw1)"
      "I sw1" "unat (fl_pos f) < length content \<longrightarrow> 0 < k"
    using file_read_content [of W I f content sw "room i"] by blast
  let ?data = "take k (drop (unat (fl_pos f)) content)"
  let ?f = "f\<lparr>fl_pos := fl_pos f + of_nat (length ?data)\<rparr>"
  show ?case
  proof (cases "?data = []")
    case True
    then have all: "unat (fl_pos f) = length content" using step(3) less.prems(4) by auto
    moreover have "fl_pos f = of_nat (length content)" unfolding all [symmetric] by simp
    ultimately show ?thesis
      using step True by (simp add: read_to_end.simps [of W room i buffer f sw])
  next
    case False
    have len: "length ?data \<le> length content - unat (fl_pos f)" by simp
    then have "unat (fl_pos f) + length ?data < 2 ^ 64" using less.prems(5) less.prems(4) by simp
    then have pos: "unat (fl_pos ?f) = unat (fl_pos f) + length ?data"
      by (simp add: unat_word_ariths unat_of_nat)
    have "\<exists>sw'. read_to_end W room (i + 1) (buffer @ ?data) ?f sw1
        = Some (Ready (Ok ((buffer @ ?data) @ drop (unat (fl_pos ?f)) content)),
            ?f\<lparr>fl_pos := of_nat (length content)\<rparr>, sw') \<and> I sw'"
      using False less.prems step(2) pos len
      by (intro less.hyps) auto
    moreover have "?data @ drop (unat (fl_pos ?f)) content = drop (unat (fl_pos f)) content"
      unfolding pos by (rule take_drop_rest)
    ultimately show ?thesis
      using step False by (simp add: read_to_end.simps [of W room i buffer f sw])
  qed
qed

section \<open>Writing a whole buffer\<close>

text \<open>The content after a write: a gap before the offset is filled with zeros.\<close>

definition overwrite :: "bytes \<Rightarrow> nat \<Rightarrow> bytes \<Rightarrow> bytes" where
  "overwrite content off data =
     take off content @ replicate (off - length content) 0 @ data @ drop (off + length data) content"

lemma overwrite_Nil [simp]: "off \<le> length content \<Longrightarrow> overwrite content off [] = content"
  by (simp add: overwrite_def)

lemma length_overwrite: "length (overwrite content off d) = max (length content) (off + length d)"
  by (simp add: overwrite_def)

lemma overwrite_overwrite:
  "overwrite (overwrite content off d) (off + length d) d' = overwrite content off (d @ d')"
proof -
  let ?front = "take off content @ replicate (off - length content) 0"
  have front: "length ?front = off" by simp
  have "overwrite content off d = (?front @ d) @ drop (off + length d) content"
    by (simp add: overwrite_def)
  moreover have "length (?front @ d) = off + length d" using front by simp
  ultimately have "take (off + length d) (overwrite content off d) = ?front @ d"
    and "drop (off + length d + length d') (overwrite content off d)
      = drop (off + length d + length d') content"
    by (simp_all add: add.commute add.left_commute)
  then show ?thesis
    by (simp add: overwrite_def [of _ "off + length d"] length_overwrite)
      (simp add: overwrite_def add.assoc)
qed

text \<open>
  What is asked of the peer: on states with \<open>I\<close> a write of some data succeeds and overwrites
  the content \<open>stored\<close> at the offset, extending it if need be.
\<close>

definition accepts_writes ::
  "'w waits \<Rightarrow> (raw_session \<times> 'w \<Rightarrow> bool) \<Rightarrow> bytes \<Rightarrow> nat \<Rightarrow> (raw_session \<times> 'w \<Rightarrow> bytes) \<Rightarrow> bool" where
  "accepts_writes W I handle chunk stored \<longleftrightarrow>
     (\<forall>sw off data. I sw \<longrightarrow> data \<noteq> [] \<longrightarrow> length data \<le> chunk \<longrightarrow>
        (\<exists>st sw'. raw_write W handle off data sw = (Ok st, sw') \<and> I sw'
           \<and> stored sw' = overwrite (stored sw) (unat off) data))"

definition write_size :: "bytes \<Rightarrow> extensions \<Rightarrow> nat" where
  "write_size buf e = min (length buf) (unat (limit_or lim_write_len MAX_WRITE_LENGTH e))"

lemma start_write_idle:
  "fl_write f = None \<Longrightarrow> start_write buf f =
     (let fut = \<lparr>wf_handle = fl_handle f, wf_offset = fl_pos f,
        wf_data = take (write_size buf (fl_extensions f)) buf\<rparr> in (fut, f\<lparr>fl_write := Some fut\<rparr>))"
  by (simp add: start_write_def write_size_def Let_def min_def)

lemma file_write_stored:
  assumes accepts: "accepts_writes W I (fl_handle f) chunk stored" and "I sw" and idle: "fl_write f = None"
    and "buf \<noteq> []"
    and limit: "0 < limit_or lim_write_len MAX_WRITE_LENGTH (fl_extensions f)"
    and chunk: "write_size buf (fl_extensions f) \<le> chunk"
  shows "\<exists>sw'. file_write W buf f sw = (Ok (write_size buf (fl_extensions f)),
      f\<lparr>fl_pos := fl_pos f + of_nat (write_size buf (fl_extensions f))\<rparr>, sw') \<and> I sw'
    \<and> stored sw' = overwrite (stored sw) (unat (fl_pos f)) (take (write_size buf (fl_extensions f)) buf)
    \<and> 0 < write_size buf (fl_extensions f)"
proof -
  let ?n = "write_size buf (fl_extensions f)"
  have n: "0 < ?n" "?n \<le> length buf"
    using \<open>buf \<noteq> []\<close> limit by (simp_all add: write_size_def word_less_nat_alt)
  have "take ?n buf \<noteq> []" "length (take ?n buf) \<le> chunk" using n chunk by auto
  with accepts \<open>I sw\<close> obtain st sw' where "raw_write W (fl_handle f) (fl_pos f) (take ?n buf) sw
      = (Ok st, sw')" "I sw'" "stored sw' = overwrite (stored sw) (unat (fl_pos f)) (take ?n buf)"
    unfolding accepts_writes_def by blast
  moreover have "f\<lparr>fl_write := None\<rparr> = f" using idle by simp
  ultimately show ?thesis
    using n by (simp add: file_write_def start_write_idle [OF idle] finish_write_def Let_def)
qed

lemma write_all_stored:
  assumes accepts: "accepts_writes W I (fl_handle f) chunk stored" and "I sw" and "fl_write f = None"
    and "unat (fl_pos f) \<le> length (stored sw)" and "unat (fl_pos f) + length buf < 2 ^ 63"
    and "0 < limit_or lim_write_len MAX_WRITE_LENGTH (fl_extensions f)"
    and "unat (limit_or lim_write_len MAX_WRITE_LENGTH (fl_extensions f)) \<le> chunk"
  shows "\<exists>sw'. write_all_file W buf f sw
      = (Ok (), f\<lparr>fl_pos := fl_pos f + of_nat (length buf)\<rparr>, sw') \<and> I sw'
    \<and> stored sw' = overwrite (stored sw) (unat (fl_pos f)) buf"
  using assms
proof (induction "length buf" arbitrary: buf f sw rule: less_induct)
  case less
  show ?case
  proof (cases "buf = []")
    case True
    then show ?thesis
      using less.prems(2,4) by (intro exI [of _ sw]) (simp add: write_all_file.simps [of W "[]"])
  next
    case False
    let ?n = "write_size buf (fl_extensions f)"
    have "?n \<le> chunk" using less.prems(7) by (simp add: write_size_def min.coboundedI2)
    from file_write_stored [OF less.prems(1-3) False less.prems(6) this]
    obtain sw1 where w: "file_write W buf f sw = (Ok ?n, f\<lparr>fl_pos := fl_pos f + of_nat ?n\<rparr>, sw1)"
        "I sw1" "stored sw1 = overwrite (stored sw) (unat (fl_pos f)) (take ?n buf)" "0 < ?n"
      by blast
    let ?f = "f\<lparr>fl_pos := fl_pos f + of_nat ?n\<rparr>"
    have n: "?n \<le> length buf" by (simp add: write_size_def)
    have pos: "unat (fl_pos ?f) = unat (fl_pos f) + ?n"
      using less.prems(5) n by (simp add: unat_word_ariths unat_of_nat)
    have "\<exists>sw'. write_all_file W (drop ?n buf) ?f sw1
        = (Ok (), ?f\<lparr>fl_pos := fl_pos ?f + of_nat (length (drop ?n buf))\<rparr>, sw') \<and> I sw'
      \<and> stored sw' = overwrite (stored sw1) (unat (fl_pos ?f)) (drop ?n buf)"
      using less.prems w False pos n length_overwrite [of "stored sw" "unat (fl_pos f)" "take ?n buf"]
      by (intro less.hyps) auto
    moreover have "overwrite (stored sw1) (unat (fl_pos ?f)) (drop ?n buf)
        = overwrite (stored sw) (unat (fl_pos f)) buf"
      using overwrite_overwrite [of "stored sw" "unat (fl_pos f)" "take ?n buf" "drop ?n buf"] n
      unfolding w(3) pos by simp
    moreover have "fl_pos ?f + of_nat (length (drop ?n buf)) = fl_pos f + of_nat (length buf)"
      using n by (simp flip: of_nat_add add: add.assoc)
    ultimately show ?thesis
      using w(1,4) False by (auto simp: write_all_file.simps [of W buf])
  qed
qed

section \<open>Properties of files and directories\<close>

text \<open>A freshly opened file of a server without extensions, for the examples.\<close>

definition plain_file :: remote_file where
  "plain_file = file_open [1]
     \<lparr>ext_hardlink = False, ext_fsync = False, ext_statvfs = False, ext_limits = None\<rparr>"

definition seek_target :: "seek_from \<Rightarrow> u64 \<Rightarrow> u64 \<Rightarrow> i64" where
  "seek_target position pos sz =
     (case position of SeekStart p \<Rightarrow> p | SeekCurrent d \<Rightarrow> pos + d | SeekEnd d \<Rightarrow> sz + d)"

text \<open>A read that is polled again while its request is under way is the same request: the handle,
  offset and length of the first poll stay, whatever buffer later polls bring, and nothing else of
  the file changes.\<close>

theorem pending_read_resumes:
  assumes "poll_read answer n f = (Pending, f')"
  shows "fst (start_read m f') = fst (start_read n f) \<and> f' = f\<lparr>fl_read := Some (fst (start_read n f))\<rparr>"
  using assms
  by (auto simp: poll_read_def start_read_def finish_read_def Let_def split: option.splits result.splits
      prod.splits if_splits)

theorem pending_read_resumes_witness:
  "fst (start_read 9 (plain_file\<lparr>fl_read := Some \<lparr>rf_handle = [1], rf_offset = 0, rf_len = 4\<rparr>\<rparr>))
     = fst (start_read 4 plain_file)
   \<and> plain_file
        \<lparr>fl_read := Some \<lparr>rf_handle = [1], rf_offset = 0, rf_len = 4\<rparr>\<rparr>
     = plain_file
        \<lparr>fl_read := Some (fst (start_read 4 plain_file))\<rparr>"
  by (rule pending_read_resumes [where answer = "\<lambda>_. None"])
    (simp add: poll_read_def start_read_def plain_file_def file_open_def limit_or_def MAX_READ_LENGTH_def
      Let_def)

text \<open>C27: A file asks for what the caller's buffer and the server's limits allow, no more and no less: a
  read has the length of the buffer cut to the read length the server announced, or to 255 KiB
  where it announced none, a write takes the data up to the write length, or 255 KiB, both at the
  file's position; and without an announced write length, and with a handle of at most the 256
  bytes of the draft, the whole frame of the write is within 256 KiB.\<close>

theorem file_requests_within_limits:
  assumes "fl_read f = None" and "fl_write f = None" and "room < 2 ^ 32"
  shows "unat (rf_len (fst (start_read room f))) = min room
        (case Option.bind (ext_limits (fl_extensions f)) lim_read_len of None \<Rightarrow> 261120 | Some n \<Rightarrow> unat n)
    \<and> rf_offset (fst (start_read room f)) = fl_pos f
    \<and> wf_data (fst (start_write buf f)) = take
        (case Option.bind (ext_limits (fl_extensions f)) lim_write_len of None \<Rightarrow> 261120 | Some n \<Rightarrow> unat n) buf
    \<and> wf_offset (fst (start_write buf f)) = fl_pos f
    \<and> (Option.bind (ext_limits (fl_extensions f)) lim_write_len = None \<and> length (fl_handle f) \<le> 256 \<longrightarrow>
        length (frame (packet_body (Write \<lparr>write_id = i, write_handle = wf_handle (fst (start_write buf f)),
          write_offset = wf_offset (fst (start_write buf f)), write_data = wf_data (fst (start_write buf f))\<rparr>)))
        \<le> 262144)"
proof -
  have limit: "unat (limit_or sel d e) = (case Option.bind (ext_limits e) sel of None \<Rightarrow> unat d | Some n \<Rightarrow> unat n)"
    for sel d e by (simp add: limit_or_def split: option.splits)
  have small: "unat (of_nat (min room m) :: u32) = min room m" for m
    using assms(3) by (simp add: unat_of_nat_u32)
  have cut: "take (min (length buf) m) buf = take m buf" for m by (simp add: min_def)
  have frame: "m \<le> 256 \<Longrightarrow> m + min (length buf) 261120 \<le> 262119" for m by simp
  show ?thesis
    using assms(1,2)
    by (simp add: cut frame start_read_idle start_write_idle read_size_def write_size_def limit small Let_def
        MAX_READ_LENGTH_def MAX_WRITE_LENGTH_def frame_def packet_body_def wire_write_def wire_string_def
        wire_bytes_def split: option.splits)
qed

theorem file_requests_within_limits_witness:
  "unat (rf_len (fst (start_read 300000 plain_file))) = 261120
    \<and> wf_data (fst (start_write (replicate 300000 7) plain_file)) = take 261120 (replicate 300000 7)
    \<and> length (frame (packet_body (Write \<lparr>write_id = 5,
          write_handle = wf_handle (fst (start_write (replicate 300000 7) plain_file)),
          write_offset = wf_offset (fst (start_write (replicate 300000 7) plain_file)),
          write_data = wf_data (fst (start_write (replicate 300000 7) plain_file))\<rparr>))) \<le> 262144"
proof -
  have plain: "fl_read plain_file = None" "fl_write plain_file = None" "length (fl_handle plain_file) \<le> 256"
      "Option.bind (ext_limits (fl_extensions plain_file)) sel = None" for sel
    by (simp_all add: plain_file_def file_open_def)
  have "(300000 :: nat) < 2 ^ 32" "min 300000 261120 = (261120 :: nat)" by simp_all
  with file_requests_within_limits [OF plain(1,2) this(1), of "replicate 300000 7" 5,
      unfolded plain(4) option.case] plain(3)
  show ?thesis by metis
qed

text \<open> Seeking: from the start, the current position or the end the new position is the sum as a
  signed 64-bit number, a negative one is refused, and only a successful seek moves the file.\<close>

theorem seek_moves_to_target:
  assumes "fl_seek f = None" and "answer (fl_handle f) = Some (Ok reply)"
    and "attr_size (attrs_reply_attrs reply) = Some sz"
  shows "fst (start_seek position f) = Ok ()
    \<and> (case poll_complete answer (snd (start_seek position f)) of (r, f') \<Rightarrow>
         if sint (seek_target position (fl_pos f) sz) < 0
         then r = Ready (Err [Lit ''cannot move file pointer before the beginning'']) \<and> fl_pos f' = fl_pos f
         else r = Ready (Ok (seek_target position (fl_pos f) sz))
           \<and> f' = f\<lparr>fl_pos := seek_target position (fl_pos f) sz\<rparr>)"
  using assms
  by (cases position) (simp_all add: start_seek_def poll_complete_def seek_outcome_def
      checked_position_def seek_target_def)

theorem seek_moves_to_target_witness:
  "fst (start_seek (SeekEnd (-2)) plain_file) = Ok ()
    \<and> (case poll_complete (\<lambda>_. Some (Ok \<lparr>attrs_reply_id = 1,
            attrs_reply_attrs = attrs_empty\<lparr>attr_size := Some 10\<rparr>\<rparr>))
          (snd (start_seek (SeekEnd (-2)) plain_file)) of (r, f') \<Rightarrow>
         if sint (seek_target (SeekEnd (-2)) (fl_pos plain_file) 10) < 0
         then r = Ready (Err [Lit ''cannot move file pointer before the beginning''])
           \<and> fl_pos f' = fl_pos plain_file
         else r = Ready (Ok (seek_target (SeekEnd (-2)) (fl_pos plain_file) 10))
           \<and> f' = plain_file\<lparr>fl_pos := seek_target (SeekEnd (-2)) (fl_pos plain_file) 10\<rparr>)"
  by (rule seek_moves_to_target [where reply = "\<lparr>attrs_reply_id = 1,
      attrs_reply_attrs = attrs_empty\<lparr>attr_size := Some 10\<rparr>\<rparr>"]) (simp_all add: plain_file_def file_open_def)

text \<open>C34: A failed seek jams the file: after \<open>poll_complete\<close> has returned an error, every later
  \<open>start_seek\<close> is refused and the next \<open>poll_complete\<close> panics.\<close>

theorem failed_seek_jams:
  assumes "poll_complete answer f = (Ready (Err e), f')"
  shows "(\<exists>m. start_seek position f' = (Err m, f')) \<and> poll_complete answer' f' = (Panicked, f')"
  using assms
  by (auto simp: poll_complete_def start_seek_def split: option.splits seek_future.splits result.splits)

theorem failed_seek_jams_witness:
  "(\<exists>m. start_seek (SeekStart 0) (plain_file\<lparr>fl_seek := Some SeekFinished\<rparr>)
      = (Err m, plain_file\<lparr>fl_seek := Some SeekFinished\<rparr>))
   \<and> poll_complete (\<lambda>_. None) (plain_file\<lparr>fl_seek := Some SeekFinished\<rparr>)
      = (Panicked, plain_file\<lparr>fl_seek := Some SeekFinished\<rparr>)"
  by (rule failed_seek_jams [where f = "plain_file\<lparr>fl_seek := Some (SeekRunning [1] (SeekCurrent (-1)) 0)\<rparr>"
      and answer = "\<lambda>_. None" and e = "[Lit ''cannot move file pointer before the beginning'']"])
    (simp add: poll_complete_def seek_outcome_def checked_position_def plain_file_def file_open_def)

text \<open>C35: A server that answers a read with more bytes than asked for makes the client panic: with room
  for \<open>n\<close> bytes, any longer answer ends the poll in a panic.\<close>

theorem oversized_read_panics:
  assumes "answer (fst (start_read n f)) = Some (Ok d)" and "n < length (data_data d)"
  shows "fst (poll_read answer n f) = Panicked"
  using assms
  by (cases "start_read n f") (simp add: poll_read_def finish_read_def read_outcome_def Let_def)

theorem oversized_read_panics_witness:
  "fst (poll_read (\<lambda>_. Some (Ok \<lparr>data_id = 1, data_data = [1, 2]\<rparr>)) 1 plain_file) = Panicked"
  by (rule oversized_read_panics [where d = "\<lparr>data_id = 1, data_data = [1, 2]\<rparr>"]) simp_all

text \<open>C36: A shutdown whose close request failed still counts as closed: the error is returned, and
  dropping the file afterwards spawns no task to close its handle, which stays open unless the
  caller shuts the file down once more; that asks again to close the same handle.\<close>

theorem failed_shutdown_forgets_handle:
  assumes "fl_shutdown f = None" and "answer (fl_handle f) = Some (Err e)"
  shows "\<exists>f'. poll_shutdown answer f = (Ready (Err (display_client_error e)), f') \<and> file_drop f' = None
    \<and> (\<forall>later. poll_shutdown later f' = (case later (fl_handle f) of
          None \<Rightarrow> (Pending, f'\<lparr>fl_shutdown := Some (fl_handle f)\<rparr>)
        | Some r \<Rightarrow> (Ready (map_ok (\<lambda>_. ()) (map_err display_client_error r)), f')))"
  using assms by (cases f) (simp add: poll_shutdown_def file_drop_def Let_def split: option.split)

theorem failed_shutdown_forgets_handle_witness:
  "\<exists>f'. poll_shutdown (\<lambda>_. Some (Err CE_Timeout)) plain_file = (Ready (Err (display_client_error CE_Timeout)), f')
    \<and> file_drop f' = None
    \<and> (\<forall>later. poll_shutdown later f' = (case later (fl_handle plain_file) of
          None \<Rightarrow> (Pending, f'\<lparr>fl_shutdown := Some (fl_handle plain_file)\<rparr>)
        | Some r \<Rightarrow> (Ready (map_ok (\<lambda>_. ()) (map_err display_client_error r)), f')))"
  by (rule failed_shutdown_forgets_handle) (simp_all add: plain_file_def file_open_def)

lemma read_dir_all_Nil: "read_dir_all [] = []"
  by (simp add: read_dir_all.simps)

lemma read_dir_all_Cons:
  "read_dir_all (entry # entries) =
     (if fst entry = lit ''.'' \<or> fst entry = lit ''..'' then read_dir_all entries
      else \<lparr>de_file = fst entry, de_metadata = snd entry\<rparr> # read_dir_all entries)"
  by (subst (1 2) read_dir_all.simps) (simp add: read_dir_all.simps [of entries])

text \<open>Iterating over a directory yields its entries in order, without the directory itself and its
  parent, and ends.\<close>

theorem read_dir_iterates:
  "read_dir_all entries =
     map (\<lambda>(name, attrs). \<lparr>de_file = name, de_metadata = attrs\<rparr>)
       (filter (\<lambda>(name, attrs). name \<noteq> lit ''.'' \<and> name \<noteq> lit ''..'') entries)"
  by (induction entries) (auto simp: read_dir_all_Nil read_dir_all_Cons)

end
