(* ===== verification/FilePeer.thy ===== *)
theory FilePeer
  imports Calls Files
begin

text \<open>
  What the client's file relies on: a peer that keeps the content of one open file. \<open>file_server\<close> is
  the contract of a handler on the server's side, \<open>file_peer\<close> the one of the world the client waits
  on; the crate's own server turns the first into the second. A reference handler with one file
  meets the contract.

  A sequence of reads, writes and seeks on a remote file is then one on a local file: the abstract
  file \<open>local_step\<close> is its content and a position, reads may be short, writes may be partial.
\<close>

section \<open>Awaited seeks\<close>

text \<open>
  The seek of the I/O library waits for a seek that is under way, starts its own and waits for
  that. Only a seek from the end asks the server.
\<close>

definition await_seek :: "'w waits \<Rightarrow> ((u64, file_error) result poll, 'w) on_file" where
  "await_seek W f sw =
     (case fl_seek f of
        Some (SeekRunning handle (SeekEnd d) cur) \<Rightarrow>
          (case raw_fstat W handle sw of (result, sw) \<Rightarrow>
             (case poll_complete (\<lambda>_. Some result) f of (r, f) \<Rightarrow> (r, f, sw)))
      | _ \<Rightarrow> (case poll_complete (\<lambda>_. None) f of (r, f) \<Rightarrow> (r, f, sw)))"

definition file_seek :: "'w waits \<Rightarrow> seek_from \<Rightarrow> ((u64, file_error) result poll, 'w) on_file" where
  "file_seek W position f sw =
     (case await_seek W f sw of
        (Ready (Ok _), f, sw) \<Rightarrow>
          (case start_seek position f of
             (Err e, f) \<Rightarrow> (Ready (Err e), f, sw)
           | (Ok _, f) \<Rightarrow> await_seek W f sw)
      | r \<Rightarrow> r)"

section \<open>The contracts\<close>

locale file_peer =
  fixes W :: "'w waits" and I :: "raw_session \<times> 'w \<Rightarrow> bool" and handle :: bytes and chunk :: nat
    and stored :: "raw_session \<times> 'w \<Rightarrow> bytes"
  assumes read_law: "I sw \<Longrightarrow> 0 < n \<Longrightarrow> \<exists>r sw'. raw_read W handle off n sw = (r, sw') \<and> I sw'
      \<and> stored sw' = stored sw
      \<and> (if length (stored sw) \<le> unat off
         then \<exists>st. r = Err (CE_Status st) \<and> status_status_code st = SC_Eof
         else \<exists>d k. r = Ok d \<and> data_data d = take k (drop (unat off) (stored sw))
                \<and> 0 < k \<and> k \<le> unat n)"
    and write_law: "I sw \<Longrightarrow> data \<noteq> [] \<Longrightarrow> length data \<le> chunk \<Longrightarrow>
      \<exists>st sw'. raw_write W handle off data sw = (Ok st, sw') \<and> I sw'
        \<and> stored sw' = overwrite (stored sw) (unat off) data"
    and fstat_law: "I sw \<Longrightarrow> \<exists>a sw'. raw_fstat W handle sw = (Ok a, sw') \<and> I sw'
      \<and> stored sw' = stored sw \<and> attr_size (attrs_reply_attrs a) = Some (of_nat (length (stored sw)))"
begin

lemma serves: "serves_content W (\<lambda>sw. I sw \<and> stored sw = content) handle content"
  unfolding serves_content_def
proof (intro allI impI)
  fix sw and off :: u64 and n :: u32
  assume sw: "I sw \<and> stored sw = content" and n: "0 < n" and off: "unat off \<le> length content"
  from read_law [of sw n off] sw n off show "\<exists>r sw'. raw_read W handle off n sw = (r, sw')
      \<and> (I sw' \<and> stored sw' = content)
      \<and> (if unat off = length content
         then \<exists>st. r = Err (CE_Status st) \<and> status_status_code st = SC_Eof
         else \<exists>d k. r = Ok d \<and> data_data d = take k (drop (unat off) content) \<and> 0 < k \<and> k \<le> unat n)"
    by (auto split: if_splits)
qed

lemma accepts: "accepts_writes W I handle chunk stored"
  unfolding accepts_writes_def using write_law by blast

end

text \<open>
  The server's side, for a handler \<open>H\<close> whose state holds the content; \<open>good\<close> are the states in which
  the handle is open.
\<close>

locale file_server = echo_handler H
  for H :: "('h, 'e) handler" +
  fixes handle :: bytes and content :: "'h \<Rightarrow> bytes" and good :: "'h \<Rightarrow> bool"
  assumes handle_fits: "string_fits handle" "length handle < 2 ^ 30"
    and h_read_law: "good h \<Longrightarrow> 0 < n \<Longrightarrow> \<exists>r h'. h_read H i handle off n h = (r, h') \<and> good h'
      \<and> content h' = content h
      \<and> (if length (content h) \<le> unat off then \<exists>e. r = Err e \<and> h_into_status H e = SC_Eof
         else \<exists>d k. r = Ok d \<and> data_data d = take k (drop (unat off) (content h))
                \<and> 0 < k \<and> k \<le> unat n \<and> k < 2 ^ 31)"
    and h_write_law: "good h \<Longrightarrow> \<exists>st h'. h_write H i handle off data h = (Ok st, h') \<and> good h'
      \<and> status_status_code st = SC_Ok \<and> sendable (Status st)
      \<and> content h' = overwrite (content h) (unat off) data"
    and h_fstat_law: "good h \<Longrightarrow> \<exists>a h'. h_fstat H i handle h = (Ok a, h') \<and> good h' \<and> content h' = content h
      \<and> attr_size (attrs_reply_attrs a) = Some (of_nat (length (content h)))"

text \<open>States in which calls go through: an idle session without limits.\<close>

definition unlimited :: "raw_session \<Rightarrow> bool" where
  "unlimited s \<longleftrightarrow> idle s \<and> rs_limits s = limits_default"

lemma call_frame_unlimited: "call_frame s s' \<Longrightarrow> unlimited s \<Longrightarrow> unlimited s'"
  by (simp add: call_frame_def unlimited_def)

lemma norm_attrs_size: "attr_size (norm_attrs a) = attr_size a"
  by (simp add: norm_attrs_def)

context file_server
begin

lemma peer_reads:
  assumes "unlimited s" and "good h" and "0 < n"
  shows "\<exists>r s' h'. raw_read (loopback H) handle off n (s, h) = (r, s', h') \<and> unlimited s' \<and> good h'
    \<and> content h' = content h
    \<and> (if length (content h) \<le> unat off
       then \<exists>st. r = Err (CE_Status st) \<and> status_status_code st = SC_Eof
       else \<exists>d k. r = Ok d \<and> data_data d = take k (drop (unat off) (content h)) \<and> 0 < k \<and> k \<le> unat n)"
proof -
  from h_read_law [OF assms(2,3), of "rs_next_req_id s" off]
  obtain r h' where r: "h_read H (rs_next_req_id s) handle off n h = (r, h')" "content h' = content h" "good h'"
    and cases: "if length (content h) \<le> unat off then \<exists>e. r = Err e \<and> h_into_status H e = SC_Eof
      else \<exists>d k. r = Ok d \<and> data_data d = take k (drop (unat off) (content h))
        \<and> 0 < k \<and> k \<le> unat n \<and> k < 2 ^ 31" by blast
  have "length (data_data d) < 2 ^ 31" if "r = Ok d" for d
    using cases that by (auto split: if_splits)
  then obtain s' where s': "raw_read (loopback H) handle off n (s, h)
      = (map_err (status_error H (rs_next_req_id s)) r, s', h')" "call_frame s s'"
    using read_served [of s handle n off h] assms(1) handle_fits r(1)
    by (auto simp: unlimited_def limits_default_def)
  from cases s'(1) r(2,3) call_frame_unlimited [OF s'(2) assms(1)] show ?thesis
    by (auto simp: status_error_def split: if_splits)
qed

lemma peer_writes:
  assumes "unlimited s" and "good h" and "length data < 2 ^ 30"
  shows "\<exists>st s' h'. raw_write (loopback H) handle off data (s, h) = (Ok st, s', h') \<and> unlimited s' \<and> good h'
    \<and> content h' = overwrite (content h) (unat off) data"
proof -
  from h_write_law [OF assms(2), of "rs_next_req_id s" off data] obtain st h'
    where w: "h_write H (rs_next_req_id s) handle off data h = (Ok st, h')" "good h'"
      "status_status_code st = SC_Ok" "sendable (Status st)"
      "content h' = overwrite (content h) (unat off) data" by blast
  then obtain s' where "raw_write (loopback H) handle off data (s, h)
      = (into_status (Status st), s', h')" "call_frame s s'"
    using write_served [of s handle data off h] assms handle_fits
    by (auto simp: unlimited_def limits_default_def)
  then show ?thesis
    using w call_frame_unlimited [OF _ assms(1)] by (auto simp: into_status_def)
qed

lemma peer_fstat:
  assumes "unlimited s" and "good h"
  shows "\<exists>a s' h'. raw_fstat (loopback H) handle (s, h) = (Ok a, s', h') \<and> unlimited s' \<and> good h'
    \<and> content h' = content h \<and> attr_size (attrs_reply_attrs a) = Some (of_nat (length (content h)))"
proof -
  from h_fstat_law [OF assms(2), of "rs_next_req_id s"] obtain a h'
    where a: "h_fstat H (rs_next_req_id s) handle h = (Ok a, h')" "good h'" "content h' = content h"
      "attr_size (attrs_reply_attrs a) = Some (of_nat (length (content h)))" by blast
  then obtain s' where "raw_fstat (loopback H) handle (s, h)
      = (Ok (norm_attrs_reply a), s', h')" "call_frame s s'"
    using fstat_served [of s handle h] assms handle_fits
    by (auto simp: unlimited_def attrs_reply_def)
  then show ?thesis
    using a call_frame_unlimited [OF _ assms(1)] by (auto simp: norm_attrs_reply_def norm_attrs_size)
qed

end

sublocale file_server \<subseteq> peer: file_peer "loopback H" "\<lambda>sw. unlimited (fst sw) \<and> good (snd sw)" handle "2 ^ 29"
    "\<lambda>sw. content (snd sw)"
proof unfold_locales
  fix sw :: "raw_session \<times> 'h" and n :: u32 and off :: u64
  assume "unlimited (fst sw) \<and> good (snd sw)" and "0 < n"
  then show "\<exists>r sw'. raw_read (loopback H) handle off n sw = (r, sw') \<and> (unlimited (fst sw') \<and> good (snd sw'))
      \<and> content (snd sw') = content (snd sw)
      \<and> (if length (content (snd sw)) \<le> unat off
         then \<exists>st. r = Err (CE_Status st) \<and> status_status_code st = SC_Eof
         else \<exists>d k. r = Ok d \<and> data_data d = take k (drop (unat off) (content (snd sw)))
                \<and> 0 < k \<and> k \<le> unat n)"
    using peer_reads [of "fst sw" "snd sw" n off] by fastforce
next
  fix sw :: "raw_session \<times> 'h" and data :: bytes and off :: u64
  assume "unlimited (fst sw) \<and> good (snd sw)" and "length data \<le> 2 ^ 29"
  then show "\<exists>st sw'. raw_write (loopback H) handle off data sw = (Ok st, sw') \<and> (unlimited (fst sw') \<and> good (snd sw'))
      \<and> content (snd sw') = overwrite (content (snd sw)) (unat off) data"
    using peer_writes [of "fst sw" "snd sw" data off] by fastforce
next
  fix sw :: "raw_session \<times> 'h"
  assume "unlimited (fst sw) \<and> good (snd sw)"
  then show "\<exists>a sw'. raw_fstat (loopback H) handle sw = (Ok a, sw') \<and> (unlimited (fst sw') \<and> good (snd sw'))
      \<and> content (snd sw') = content (snd sw)
      \<and> attr_size (attrs_reply_attrs a) = Some (of_nat (length (content (snd sw))))"
    using peer_fstat [of "fst sw" "snd sw"] by fastforce
qed

context file_server
begin

lemma is_peer: "file_peer (loopback H) (\<lambda>sw. unlimited (fst sw) \<and> good (snd sw)) handle (2 ^ 29)
    (\<lambda>sw. content (snd sw))"
  by (rule peer.file_peer_axioms)

end

section \<open>A reference handler with one file\<close>

text \<open>
  Its state is the content of one file, which every handle names and opening
  with the truncate flag empties. Reads answer a part of up to
  \<open>2^18\<close> bytes or the end-of-file status, writes overwrite and extend.
\<close>

definition ok_status :: "u32 \<Rightarrow> status_msg" where
  "ok_status i = \<lparr>status_id = i, status_status_code = SC_Ok, status_error_message = [],
     status_language_tag = []\<rparr>"

definition one_file_read ::
  "u32 \<Rightarrow> bytes \<Rightarrow> u64 \<Rightarrow> u32 \<Rightarrow> bytes \<Rightarrow> (data_msg, status_code) result \<times> bytes" where
  "one_file_read i handle off n h =
     (if length h \<le> unat off then (Err SC_Eof, h)
      else (Ok \<lparr>data_id = i, data_data = take (min (unat n) 262144) (drop (unat off) h)\<rparr>, h))"

definition one_file_open ::
  "u32 \<Rightarrow> bytes \<Rightarrow> u32 \<Rightarrow> file_attributes \<Rightarrow> bytes \<Rightarrow> (handle_msg, status_code) result \<times> bytes" where
  "one_file_open i name flags attrs h =
     (Ok \<lparr>handle_id = i, handle_handle = name\<rparr>, if flags AND OPEN_TRUNCATE = 0 then h else [])"

definition one_file_handler :: "(bytes, status_code) handler" where
  "one_file_handler = (default_handler (\<lambda>code. code) (\<lambda>h. SC_OpUnsupported))
     \<lparr>h_open := one_file_open,
      h_close := (\<lambda>i handle h. (Ok (ok_status i), h)),
      h_remove := (\<lambda>i name h. (Ok (ok_status i), h)),
      h_read := one_file_read,
      h_write := (\<lambda>i handle off data h. (Ok (ok_status i), overwrite h (unat off) data)),
      h_fstat := (\<lambda>i handle h. (Ok \<lparr>attrs_reply_id = i,
        attrs_reply_attrs = attrs_empty\<lparr>attr_size := Some (of_nat (length h))\<rparr>\<rparr>, h))\<rparr>"

lemma one_file_methods [simp]:
  "h_into_status one_file_handler = (\<lambda>code. code)"
  "h_open one_file_handler = one_file_open"
  "h_close one_file_handler = (\<lambda>i handle h. (Ok (ok_status i), h))"
  "h_remove one_file_handler = (\<lambda>i name h. (Ok (ok_status i), h))"
  "h_read one_file_handler = one_file_read"
  "h_write one_file_handler = (\<lambda>i handle off data h. (Ok (ok_status i), overwrite h (unat off) data))"
  "h_fstat one_file_handler = (\<lambda>i handle h. (Ok \<lparr>attrs_reply_id = i,
     attrs_reply_attrs = attrs_empty\<lparr>attr_size := Some (of_nat (length h))\<rparr>\<rparr>, h))"
  by (simp_all add: one_file_handler_def default_handler_def)

lemma sendable_ok_status: "sendable (Status (ok_status i))"
  by (simp add: sendable_def ok_status_def fits_status_def string_fits_def frame_fits_def
      packet_body_def wire_status_def wire_string_def)

lemma one_file_read_part:
  assumes "0 < n"
  shows "\<exists>r h'. h_read one_file_handler i handle off n h = (r, h') \<and> h' = h
    \<and> (if length h \<le> unat off then \<exists>e. r = Err e \<and> h_into_status one_file_handler e = SC_Eof
       else \<exists>d k. r = Ok d \<and> data_data d = take k (drop (unat off) h) \<and> 0 < k \<and> k \<le> unat n \<and> k < 2 ^ 31)"
proof (cases "length h \<le> unat off")
  case False
  have "0 < unat n" using assms by (simp add: word_less_nat_alt)
  then show ?thesis using False
    by (auto simp: one_file_read_def intro!: exI [of _ "min (unat n) 262144"])
qed (simp add: one_file_read_def)

lemma one_file_server:
  assumes "string_fits handle" and "length handle < 2 ^ 30"
  shows "file_server one_file_handler handle (\<lambda>h. h) (\<lambda>h. True)"
proof unfold_locales
  fix n :: u32 and i off and h :: bytes
  assume "0 < n"
  then show "\<exists>r h'. h_read one_file_handler i handle off n h = (r, h') \<and> True \<and> h' = h
      \<and> (if length h \<le> unat off then \<exists>e. r = Err e \<and> h_into_status one_file_handler e = SC_Eof
         else \<exists>d k. r = Ok d \<and> data_data d = take k (drop (unat off) h)
                \<and> 0 < k \<and> k \<le> unat n \<and> k < 2 ^ 31)"
    using one_file_read_part by simp
qed (use assms in \<open>auto simp: one_file_handler_def default_handler_def one_file_open_def one_file_read_def
       sendable_ok_status\<close>, auto simp: ok_status_def split: if_splits)

interpretation one_file: file_server one_file_handler "[65]" "\<lambda>h. h" "\<lambda>h. True"
  by (rule one_file_server) (simp_all add: string_fits_def valid_utf8_ascii)

end
