(* ===== verification/Session.thy ===== *)
theory Session
  imports FilePeer
begin

text \<open>
  \<^verbatim>\<open>src/client/session.rs\<close>: the high-level session, a raw session with the extensions the server
  announced. The raw session is in the state that is passed along, so a method takes only the
  extensions \<open>e\<close> where it uses them. A method that loops until the server says so may not return,
  and is partial.
\<close>

section \<open>Creating a session\<close>

definition announces :: "version_msg \<Rightarrow> bytes \<Rightarrow> bytes \<Rightarrow> bool" where
  "announces version name revision \<longleftrightarrow> map_of (version_extensions version) name = Some revision"

definition sftp_new_opts ::
  "'w waits \<Rightarrow> u64 option \<Rightarrow> raw_session \<times> 'w \<Rightarrow> (extensions, client_error) result \<times> raw_session \<times> 'w" where
  "sftp_new_opts W timeout sw =
     (let sw = (case timeout of None \<Rightarrow> sw | Some secs \<Rightarrow> apfst (set_timeout secs) sw);
          r = and_then (raw_init W sw) (\<lambda>version sw.
            let extensions = \<lparr>ext_hardlink = announces version EXT_HARDLINK (lit ''1''),
                  ext_fsync = announces version EXT_FSYNC (lit ''1''),
                  ext_statvfs = announces version EXT_STATVFS (lit ''2''),
                  ext_limits = None\<rparr>
            in if announces version EXT_LIMITS (lit ''1'') then
                 and_then (raw_limits W sw) (\<lambda>l sw.
                   let limits = limits_of_extension l
                   in (Ok (extensions\<lparr>ext_limits := Some limits\<rparr>), apfst (set_limits limits) sw))
               else (Ok extensions, sw))
      in case r of
           (Ok extensions, sw) \<Rightarrow> (Ok extensions, sw)
         | (Err e, sw) \<Rightarrow> (Err e, apfst drop_session sw))"

definition sftp_new ::
  "'w waits \<Rightarrow> raw_session \<times> 'w \<Rightarrow> (extensions, client_error) result \<times> raw_session \<times> 'w" where
  "sftp_new W sw = sftp_new_opts W None sw"

definition sftp_set_timeout :: "u64 \<Rightarrow> raw_session \<Rightarrow> raw_session" where
  "sftp_set_timeout secs s = set_timeout secs s"

definition sftp_close :: "raw_session \<Rightarrow> (unit, client_error) result \<times> raw_session" where
  "sftp_close s = close_session s"

section \<open>Files\<close>

definition sftp_open_with_flags_and_attributes ::
  "'w waits \<Rightarrow> extensions \<Rightarrow> bytes \<Rightarrow> u32 \<Rightarrow> file_attributes \<Rightarrow> raw_session \<times> 'w
     \<Rightarrow> (remote_file, client_error) result \<times> raw_session \<times> 'w" where
  "sftp_open_with_flags_and_attributes W e filename flags attributes sw =
     and_then (raw_open W filename flags attributes sw) (\<lambda>reply sw.
       (Ok (file_open (handle_handle reply) e), sw))"

definition sftp_open_with_flags ::
  "'w waits \<Rightarrow> extensions \<Rightarrow> bytes \<Rightarrow> u32 \<Rightarrow> raw_session \<times> 'w
     \<Rightarrow> (remote_file, client_error) result \<times> raw_session \<times> 'w" where
  "sftp_open_with_flags W e filename flags sw =
     sftp_open_with_flags_and_attributes W e filename flags attrs_empty sw"

definition sftp_open ::
  "'w waits \<Rightarrow> extensions \<Rightarrow> bytes \<Rightarrow> raw_session \<times> 'w
     \<Rightarrow> (remote_file, client_error) result \<times> raw_session \<times> 'w" where
  "sftp_open W e filename sw = sftp_open_with_flags W e filename OPEN_READ sw"

definition sftp_create ::
  "'w waits \<Rightarrow> extensions \<Rightarrow> bytes \<Rightarrow> raw_session \<times> 'w
     \<Rightarrow> (remote_file, client_error) result \<times> raw_session \<times> 'w" where
  "sftp_create W e filename sw =
     sftp_open_with_flags W e filename (OPEN_CREATE OR OPEN_TRUNCATE OR OPEN_WRITE) sw"

text \<open>
  An I/O error becomes a client error by its text. The file is dropped at the end: the answer has
  the handle a task of its own will close.
\<close>

definition poll_result ::
  "('a, file_error) result poll \<Rightarrow> ('b, client_error) result poll \<Rightarrow> ('a \<Rightarrow> 'b) \<Rightarrow> ('b, client_error) result poll" where
  "poll_result r panicked f =
     (case r of
        Ready x \<Rightarrow> Ready (map_ok f (map_err CE_IO x))
      | _ \<Rightarrow> panicked)"

definition sftp_read ::
  "'w waits \<Rightarrow> (nat \<Rightarrow> nat) \<Rightarrow> extensions \<Rightarrow> bytes \<Rightarrow> raw_session \<times> 'w
     \<Rightarrow> ((bytes, client_error) result poll \<times> bytes option \<times> raw_session \<times> 'w) option" where
  "sftp_read W room e path sw =
     (case sftp_open W e path sw of
        (Err err, sw) \<Rightarrow> Some (Ready (Err err), None, sw)
      | (Ok f, sw) \<Rightarrow>
          (case read_to_end W room 0 [] f sw of
             None \<Rightarrow> None
           | Some (r, f, sw) \<Rightarrow> Some (poll_result r Panicked (\<lambda>data. data), file_drop f, sw)))"

definition sftp_write ::
  "'w waits \<Rightarrow> extensions \<Rightarrow> bytes \<Rightarrow> bytes \<Rightarrow> raw_session \<times> 'w
     \<Rightarrow> (unit, client_error) result \<times> bytes option \<times> raw_session \<times> 'w" where
  "sftp_write W e path data sw =
     (case sftp_open_with_flags W e path OPEN_WRITE sw of
        (Err err, sw) \<Rightarrow> (Err err, None, sw)
      | (Ok f, sw) \<Rightarrow>
          (case write_all_file W data f sw of (r, f, sw) \<Rightarrow> (map_err CE_IO r, file_drop f, sw)))"

section \<open>Names and metadata\<close>

definition first_name :: "name_msg \<Rightarrow> (bytes, client_error) result" where
  "first_name reply =
     (case name_files reply of
        file # _ \<Rightarrow> Ok (file_filename file)
      | [] \<Rightarrow> Err (CE_UnexpectedBehavior [Lit ''no file'']))"

definition sftp_canonicalize ::
  "'w waits \<Rightarrow> bytes \<Rightarrow> raw_session \<times> 'w \<Rightarrow> (bytes, client_error) result \<times> raw_session \<times> 'w" where
  "sftp_canonicalize W path sw =
     and_then (raw_realpath W path sw) (\<lambda>reply sw. (first_name reply, sw))"

definition sftp_read_link ::
  "'w waits \<Rightarrow> bytes \<Rightarrow> raw_session \<times> 'w \<Rightarrow> (bytes, client_error) result \<times> raw_session \<times> 'w" where
  "sftp_read_link W path sw =
     and_then (raw_readlink W path sw) (\<lambda>reply sw. (first_name reply, sw))"

definition discard ::
  "('a, client_error) result \<times> 's \<Rightarrow> (unit, client_error) result \<times> 's" where
  "discard r = (case r of (r, s) \<Rightarrow> (map_ok (\<lambda>_. ()) r, s))"

definition sftp_create_dir ::
  "'w waits \<Rightarrow> bytes \<Rightarrow> raw_session \<times> 'w \<Rightarrow> (unit, client_error) result \<times> raw_session \<times> 'w" where
  "sftp_create_dir W path sw = discard (raw_mkdir W path attrs_empty sw)"

definition sftp_remove_dir ::
  "'w waits \<Rightarrow> bytes \<Rightarrow> raw_session \<times> 'w \<Rightarrow> (unit, client_error) result \<times> raw_session \<times> 'w" where
  "sftp_remove_dir W path sw = discard (raw_rmdir W path sw)"

definition sftp_remove_file ::
  "'w waits \<Rightarrow> bytes \<Rightarrow> raw_session \<times> 'w \<Rightarrow> (unit, client_error) result \<times> raw_session \<times> 'w" where
  "sftp_remove_file W filename sw = discard (raw_remove W filename sw)"

definition sftp_rename ::
  "'w waits \<Rightarrow> bytes \<Rightarrow> bytes \<Rightarrow> raw_session \<times> 'w \<Rightarrow> (unit, client_error) result \<times> raw_session \<times> 'w" where
  "sftp_rename W oldpath newpath sw = discard (raw_rename W oldpath newpath sw)"

definition sftp_symlink ::
  "'w waits \<Rightarrow> bytes \<Rightarrow> bytes \<Rightarrow> raw_session \<times> 'w \<Rightarrow> (unit, client_error) result \<times> raw_session \<times> 'w" where
  "sftp_symlink W path target sw = discard (raw_symlink W path target sw)"

definition sftp_metadata ::
  "'w waits \<Rightarrow> bytes \<Rightarrow> raw_session \<times> 'w
     \<Rightarrow> (file_attributes, client_error) result \<times> raw_session \<times> 'w" where
  "sftp_metadata W path sw =
     and_then (raw_stat W path sw) (\<lambda>reply sw. (Ok (attrs_reply_attrs reply), sw))"

definition sftp_symlink_metadata ::
  "'w waits \<Rightarrow> bytes \<Rightarrow> raw_session \<times> 'w
     \<Rightarrow> (file_attributes, client_error) result \<times> raw_session \<times> 'w" where
  "sftp_symlink_metadata W path sw =
     and_then (raw_lstat W path sw) (\<lambda>reply sw. (Ok (attrs_reply_attrs reply), sw))"

definition sftp_set_metadata ::
  "'w waits \<Rightarrow> bytes \<Rightarrow> file_attributes \<Rightarrow> raw_session \<times> 'w
     \<Rightarrow> (unit, client_error) result \<times> raw_session \<times> 'w" where
  "sftp_set_metadata W path metadata sw = discard (raw_setstat W path metadata sw)"

definition sftp_try_exists ::
  "'w waits \<Rightarrow> bytes \<Rightarrow> raw_session \<times> 'w \<Rightarrow> (bool, client_error) result \<times> raw_session \<times> 'w" where
  "sftp_try_exists W path sw =
     (case sftp_metadata W path sw of
        (Ok _, sw) \<Rightarrow> (Ok True, sw)
      | (Err (CE_Status status), sw) \<Rightarrow>
          (if status_status_code status = SC_NoSuchFile then Ok False else Err (CE_Status status), sw)
      | (Err error, sw) \<Rightarrow> (Err error, sw))"

definition sftp_hardlink ::
  "'w waits \<Rightarrow> extensions \<Rightarrow> bytes \<Rightarrow> bytes \<Rightarrow> raw_session \<times> 'w
     \<Rightarrow> (bool, client_error) result \<times> raw_session \<times> 'w" where
  "sftp_hardlink W e oldpath newpath sw =
     (if \<not> ext_hardlink e then (Ok False, sw)
      else (case raw_hardlink W oldpath newpath sw of (r, sw) \<Rightarrow> (map_ok (\<lambda>_. True) r, sw)))"

definition sftp_fs_info ::
  "'w waits \<Rightarrow> extensions \<Rightarrow> bytes \<Rightarrow> raw_session \<times> 'w
     \<Rightarrow> (statvfs_msg option, client_error) result \<times> raw_session \<times> 'w" where
  "sftp_fs_info W e path sw =
     (if \<not> ext_statvfs e then (Ok None, sw)
      else (case raw_statvfs W path sw of (r, sw) \<Rightarrow> (map_ok Some r, sw)))"

section \<open>Listing a directory\<close>

type_synonym entries = "(bytes \<times> file_attributes) list"

partial_function (option) read_dir_loop ::
  "'w waits \<Rightarrow> bytes \<Rightarrow> entries \<Rightarrow> raw_session \<times> 'w
     \<Rightarrow> ((entries, client_error) result \<times> raw_session \<times> 'w) option" where
  "read_dir_loop W handle files sw =
     (case raw_readdir W handle sw of
        (Ok name, sw) \<Rightarrow>
          read_dir_loop W handle (map (\<lambda>f. (file_filename f, file_attrs f)) (name_files name) @ files) sw
      | (Err err, sw) \<Rightarrow>
          Some (case err of
             CE_Status status \<Rightarrow>
               if status_status_code status = SC_Eof then (Ok files, sw) else (Err err, sw)
           | _ \<Rightarrow> (Err err, sw)))"

definition sftp_read_dir ::
  "'w waits \<Rightarrow> bytes \<Rightarrow> raw_session \<times> 'w
     \<Rightarrow> ((entries, client_error) result \<times> raw_session \<times> 'w) option" where
  "sftp_read_dir W path sw =
     (case raw_opendir W path sw of
        (Err err, sw) \<Rightarrow> Some (Err err, sw)
      | (Ok reply, sw) \<Rightarrow>
          let handle = handle_handle reply
          in (case read_dir_loop W handle [] sw of
                None \<Rightarrow> None
              | Some (Err err, sw) \<Rightarrow> Some (Err err, sw)
              | Some (Ok files, sw) \<Rightarrow>
                  Some (and_then (raw_close W handle sw) (\<lambda>_ sw. (Ok files, sw)))))"

section \<open>The reference handler, opened\<close>

lemma one_file_opens:
  assumes "unlimited s" and "string_fits path" and "length path < 2 ^ 30"
  shows "\<exists>s'. raw_open (loopback one_file_handler) path flags attrs (s, h)
      = (Ok \<lparr>handle_id = rs_next_req_id s, handle_handle = path\<rparr>, s',
         if flags AND OPEN_TRUNCATE = 0 then h else []) \<and> unlimited s'"
proof -
  have "\<exists>s'. raw_open (loopback one_file_handler) path flags attrs (s, h)
      = (Ok \<lparr>handle_id = rs_next_req_id s, handle_handle = path\<rparr>, s'\<lparr>rs_handles := rs_handles s + 1\<rparr>,
         if flags AND OPEN_TRUNCATE = 0 then h else []) \<and> call_frame s s'"
    using one_file.open_served [of s path flags attrs h] assms
    by (auto simp: unlimited_def handle_limit_reached_def limits_default_def one_file_open_def)
  then show ?thesis
    using assms(1) by (auto simp: unlimited_def call_frame_def idle_def session_ok_def)
qed

lemma plain_flags [simp]:
  "OPEN_READ AND OPEN_TRUNCATE = 0" "OPEN_WRITE AND OPEN_TRUNCATE = 0"
  by (simp_all add: OPEN_READ_def OPEN_WRITE_def OPEN_TRUNCATE_def)

section \<open>Whole files\<close>

lemma sftp_read_content:
  assumes "raw_open W path OPEN_READ attrs_empty sw = (Ok reply, sw1)" and "I sw1"
    and "serves_content W I (handle_handle reply) content" and "length content < 2 ^ 63"
    and "\<And>i. 0 < read_size (room i) e \<and> read_size (room i) e < 2 ^ 32"
  shows "\<exists>sw'. sftp_read W room e path sw
      = Some (Ready (Ok content), Some (handle_handle reply), sw') \<and> I sw'"
proof -
  let ?f = "file_open (handle_handle reply) e"
  have "\<exists>sw'. read_to_end W room 0 [] ?f sw1 = Some (Ready (Ok ([] @ drop (unat (fl_pos ?f)) content)),
      ?f\<lparr>fl_pos := of_nat (length content)\<rparr>, sw') \<and> I sw'"
    using assms(2-) by (intro read_to_end_content) (simp_all add: file_open_def)
  then show ?thesis
    using assms(1)
    by (auto simp: sftp_read_def sftp_open_def sftp_open_with_flags_def
        sftp_open_with_flags_and_attributes_def poll_result_def file_drop_def file_open_def)
qed

lemma sftp_write_stored:
  assumes "raw_open W path OPEN_WRITE attrs_empty sw = (Ok reply, sw1)" and "I sw1"
    and "accepts_writes W I (handle_handle reply) chunk stored" and "length data < 2 ^ 63"
    and "0 < limit_or lim_write_len MAX_WRITE_LENGTH e"
    and "unat (limit_or lim_write_len MAX_WRITE_LENGTH e) \<le> chunk"
  shows "\<exists>sw'. sftp_write W e path data sw = (Ok (), Some (handle_handle reply), sw') \<and> I sw'
    \<and> stored sw' = overwrite (stored sw1) 0 data"
proof -
  let ?f = "file_open (handle_handle reply) e"
  have "\<exists>sw'. write_all_file W data ?f sw1
      = (Ok (), ?f\<lparr>fl_pos := fl_pos ?f + of_nat (length data)\<rparr>, sw') \<and> I sw'
    \<and> stored sw' = overwrite (stored sw1) (unat (fl_pos ?f)) data"
    using assms(2-) by (intro write_all_stored) (simp_all add: file_open_def)
  then show ?thesis
    using assms(1)
    by (auto simp: sftp_write_def sftp_open_with_flags_def sftp_open_with_flags_and_attributes_def
        file_drop_def file_open_def)
qed

section \<open>Properties of the high-level session\<close>

text \<open>C8: Reading a file to its end returns its content: against any peer that serves the content, with
  reads as short as it likes and buffers of any size, \<open>SftpSession::read\<close> ends, returns exactly
  the content, and leaves the handle to be closed.\<close>

theorem read_returns_content:
  assumes "raw_open W path OPEN_READ attrs_empty sw = (Ok reply, sw1)" and "I sw1"
    and "serves_content W I (handle_handle reply) content" and "length content < 2 ^ 63"
    and "\<And>i. 0 < read_size (room i) e \<and> read_size (room i) e < 2 ^ 32"
  shows "\<exists>sw'. sftp_read W room e path sw
      = Some (Ready (Ok content), Some (handle_handle reply), sw') \<and> I sw'"
  by (rule sftp_read_content [OF assms])

theorem read_returns_content_witness:
  "\<exists>sw'. sftp_read (loopback one_file_handler) (\<lambda>i. 2)
      \<lparr>ext_hardlink = False, ext_fsync = False, ext_statvfs = False, ext_limits = None\<rparr>
      [65] (session_ready, [1, 2, 3, 4, 5])
      = Some (Ready (Ok [1, 2, 3, 4, 5]), Some [65], sw')
    \<and> (unlimited (fst sw') \<and> snd sw' = [1, 2, 3, 4, 5])"
proof -
  have "unlimited session_ready" by (simp add: unlimited_def idle_ready)
  moreover have path: "string_fits [65]" by (simp add: string_fits_def valid_utf8_ascii)
  ultimately obtain s1 where "raw_open (loopback one_file_handler) [65] OPEN_READ attrs_empty
      (session_ready, [1, 2, 3, 4, 5])
      = (Ok \<lparr>handle_id = rs_next_req_id session_ready, handle_handle = [65]\<rparr>, s1, [1, 2, 3, 4, 5])"
      "unlimited s1"
    using one_file_opens [of session_ready "[65]" OPEN_READ attrs_empty "[1, 2, 3, 4, 5]"] by auto
  note opened = this
  show ?thesis
  proof (rule read_returns_content [OF opened(1), unfolded handle_msg.simps])
    show "unlimited (fst (s1, [1, 2, 3, 4, 5])) \<and> snd (s1, [1, 2, 3, 4, 5]) = [1, 2, 3, 4, 5]"
      using opened(2) by simp
    show "serves_content (loopback one_file_handler)
        (\<lambda>sw. unlimited (fst sw) \<and> snd sw = [1, 2, 3, 4, 5]) [65] [1, 2, 3, 4, 5]"
      using one_file.peer.serves [of "[1, 2, 3, 4, 5]"] by simp
  qed (simp_all add: read_size_def limit_or_def MAX_READ_LENGTH_def)
qed

text \<open>C9: Writing a buffer stores it: against any peer that accepts writes up to the write limit,
  \<open>SftpSession::write\<close> ends without an error and the stored content is the old one overwritten from
  the start with the data, which the client has cut into pieces within the limit.\<close>

theorem write_stores_data:
  assumes "raw_open W path OPEN_WRITE attrs_empty sw = (Ok reply, sw1)" and "I sw1"
    and "accepts_writes W I (handle_handle reply) chunk stored" and "length data < 2 ^ 63"
    and "0 < limit_or lim_write_len MAX_WRITE_LENGTH e"
    and "unat (limit_or lim_write_len MAX_WRITE_LENGTH e) \<le> chunk"
  shows "\<exists>sw'. sftp_write W e path data sw = (Ok (), Some (handle_handle reply), sw') \<and> I sw'
    \<and> stored sw' = overwrite (stored sw1) 0 data"
  by (rule sftp_write_stored [OF assms])

theorem write_stores_data_witness:
  "\<exists>sw'. sftp_write (loopback one_file_handler)
      \<lparr>ext_hardlink = False, ext_fsync = False, ext_statvfs = False, ext_limits = None\<rparr>
      [65] [7, 8] (session_ready, [1, 2, 3]) = (Ok (), Some [65], sw') \<and> unlimited (fst sw')
    \<and> snd sw' = overwrite (snd (session_ready, [1, 2, 3])) 0 [7, 8]"
proof -
  have "unlimited session_ready" by (simp add: unlimited_def idle_ready)
  moreover have path: "string_fits [65]" by (simp add: string_fits_def valid_utf8_ascii)
  ultimately obtain s1 where "raw_open (loopback one_file_handler) [65] OPEN_WRITE attrs_empty
      (session_ready, [1, 2, 3])
      = (Ok \<lparr>handle_id = rs_next_req_id session_ready, handle_handle = [65]\<rparr>, s1, [1, 2, 3])"
      "unlimited s1"
    using one_file_opens [of session_ready "[65]" OPEN_WRITE attrs_empty "[1, 2, 3]"] by auto
  note opened = this
  have "\<exists>sw'. sftp_write (loopback one_file_handler)
      \<lparr>ext_hardlink = False, ext_fsync = False, ext_statvfs = False, ext_limits = None\<rparr>
      [65] [7, 8] (session_ready, [1, 2, 3]) = (Ok (), Some [65], sw') \<and> unlimited (fst sw')
    \<and> snd sw' = overwrite (snd (s1, [1, 2, 3])) 0 [7, 8]"
  proof (rule write_stores_data [OF opened(1), unfolded handle_msg.simps])
    show "unlimited (fst (s1, [1, 2, 3]))" using opened(2) by simp
    show "accepts_writes (loopback one_file_handler) (\<lambda>sw. unlimited (fst sw)) [65] (2 ^ 29) snd"
      using one_file.peer.accepts by simp
  qed (simp_all add: limit_or_def MAX_WRITE_LENGTH_def)
  then show ?thesis by simp
qed

text \<open> What is not announced is not sent: without the extension in the server's version packet a
  hard link, a file system query and a file sync answer at once and leave the session, and with it
  the connection, untouched.\<close>

theorem unannounced_extensions_unused:
  assumes "\<not> ext_hardlink e" and "\<not> ext_statvfs e" and "\<not> ext_fsync e"
  shows "sftp_hardlink W e old new sw = (Ok False, sw) \<and> sftp_fs_info W e path sw = (Ok None, sw)
    \<and> file_sync_all W (file_open handle e) sw = (Ok (), sw)"
  using assms by (simp add: sftp_hardlink_def sftp_fs_info_def file_sync_all_def file_open_def)

theorem unannounced_extensions_unused_witness:
  "sftp_hardlink (loopback one_file_handler) \<lparr>ext_hardlink = False, ext_fsync = False,
      ext_statvfs = False, ext_limits = None\<rparr> [1] [2] (raw_new, []) = (Ok False, raw_new, [])
   \<and> sftp_fs_info (loopback one_file_handler) \<lparr>ext_hardlink = False, ext_fsync = False,
      ext_statvfs = False, ext_limits = None\<rparr> [1] (raw_new, []) = (Ok None, raw_new, [])
   \<and> file_sync_all (loopback one_file_handler) (file_open [1] \<lparr>ext_hardlink = False, ext_fsync = False,
      ext_statvfs = False, ext_limits = None\<rparr>) (raw_new, []) = (Ok (), raw_new, [])"
  by (rule unannounced_extensions_unused) simp_all

end
