(* ===== verification/Listing.thy ===== *)
theory Listing
  imports Session
begin

text \<open>
  Listing a directory: what \<^verbatim>\<open>SftpSession::read_dir\<close> makes of the batches a server sends, that it
  keeps the handle open when a batch fails, and the listing of the example server, from the call of
  the client to the entries it returns.
\<close>

section \<open>Batches\<close>

definition batch_of :: "name_msg \<Rightarrow> entries" where
  "batch_of name = map (\<lambda>f. (file_filename f, file_attrs f)) (name_files name)"

text \<open>The peer answers a sequence of reads of the directory with these batches, then \<open>err\<close>.\<close>

inductive listing ::
  "'w waits \<Rightarrow> bytes \<Rightarrow> raw_session \<times> 'w \<Rightarrow> entries list \<Rightarrow> client_error \<Rightarrow> raw_session \<times> 'w \<Rightarrow> bool"
  for W handle where
  ends: "raw_readdir W handle sw = (Err err, sw') \<Longrightarrow> listing W handle sw [] err sw'"
| batch: "raw_readdir W handle sw = (Ok name, sw') \<Longrightarrow> listing W handle sw' batches err sw'' \<Longrightarrow>
    listing W handle sw (batch_of name # batches) err sw''"

definition is_eof :: "client_error \<Rightarrow> bool" where
  "is_eof err = (case err of CE_Status status \<Rightarrow> status_status_code status = SC_Eof | _ \<Rightarrow> False)"

lemma read_dir_loop_listing:
  assumes "listing W handle sw batches err sw'"
  shows "read_dir_loop W handle files sw
    = Some (if is_eof err then Ok (concat (rev batches) @ files) else Err err, sw')"
  using assms
proof (induction arbitrary: files)
  case (ends sw err sw')
  then show ?case
    by (auto simp: read_dir_loop.simps [of W handle files sw] is_eof_def split: client_error.splits)
next
  case (batch sw name sw' batches err sw'')
  then show ?case by (simp add: read_dir_loop.simps [of W handle files sw] batch_of_def)
qed

section \<open>The example server\<close>

lemma sendable_listing:
  assumes "valid_utf8 (fmt 0)" and "length (fmt 0) < 2 ^ 20"
  shows "sendable (Name \<lparr>name_id = i, name_files = [file_new fmt (lit ''foo'') attrs_default,
    file_new fmt (lit ''bar'') attrs_default]\<rparr>)"
proof -
  have long: "valid_utf8 (file_longname (file_new fmt name attrs_default))
      \<and> length (file_longname (file_new fmt name attrs_default)) < 2 ^ 21"
    if "name = lit ''foo'' \<or> name = lit ''bar''" for name
  proof -
    have name: "valid_utf8 name" "length name = 3" using that by (auto simp: valid_utf8_ascii lit_def)
    have "valid_utf8 (file_longname (file_new fmt name attrs_default))"
      using assms(1) name(1) by (intro long_name_valid) (simp_all add: attrs_default_def)
    moreover have "decimal 0 = [48]" by (simp add: decimal.simps [of 0])
    then have "length (file_longname (file_new fmt name attrs_default)) < 2 ^ 21"
      using assms(2) name(2)
      by (simp add: file_new_def file_longname_of_def Let_def attrs_default_def
          length_display_permissions lit_def)
    ultimately show ?thesis by simp
  qed
  have short: "valid_utf8 (lit ''foo'')" "valid_utf8 (lit ''bar'')" by (simp_all add: valid_utf8_ascii lit_def)
  have attrs: "length (wire_attrs attrs_default) < 100" by (rule wire_attrs_length)
  have names: "file_filename (file_new fmt name a) = name" "file_attrs (file_new fmt name a) = a" for name a
    by (simp_all add: file_new_def Let_def)
  show ?thesis
    using long [of "lit ''foo''"] long [of "lit ''bar''"] short attrs
    by (simp add: sendable_def fits_name_def files_fit_def fits_file_def string_fits_def names
        frame_fits_def packet_body_def wire_name_def wire_vec_def wire_file_def wire_string_def lit_def)
qed
section \<open>A scripted peer\<close>

text \<open>A peer that answers the requests with the packets of a script, one after the other.\<close>

definition scripted :: "packet list waits" where
  "scripted c timeout sw =
     (case sw of
        (s, []) \<Rightarrow> (s, [])
      | (s, p # ps) \<Rightarrow> (s\<lparr>rs_inbox := (rs_inbox s)(c := Some (Ok p))\<rparr>, ps))"

definition session_kept :: "raw_session \<Rightarrow> raw_session \<Rightarrow> bool" where
  "session_kept s s' \<longleftrightarrow> \<not> rs_tx_closed s' \<and> rs_handles s' = rs_handles s \<and> rs_limits s' = rs_limits s"

lemma scripted_request:
  assumes "\<not> rs_tx_closed s"
  obtains s' where "request scripted packet (s, p # ps) = (Ok p, s', ps)" "session_kept s s'"
proof -
  have "\<exists>s'. request scripted packet (s, p # ps) = (Ok p, s', ps) \<and> session_kept s s'"
    using assms by (simp add: request_def use_next_id_def send_def begin_send_def bytes_of_packet_frame
        tx_send_def scripted_def end_send_def drop_receiver_def session_kept_def Let_def)
  then show thesis using that by blast
qed

section \<open>Properties of listings\<close>

text \<open>C23: A listing returns all batches: when the server answers the reads of an opened directory with
  any batches and then the end-of-file status, and the close with success, \<open>read_dir\<close> ends and its
  entries are those of all batches, a later batch in front of an earlier one.\<close>

theorem read_dir_collects:
  assumes "raw_opendir W path sw = (Ok reply, sw1)"
    and "listing W (handle_handle reply) sw1 batches err sw2" and "is_eof err"
    and "raw_close W (handle_handle reply) sw2 = (Ok st, sw3)"
  shows "sftp_read_dir W path sw = Some (Ok (concat (rev batches)), sw3)"
  using assms read_dir_loop_listing [OF assms(2), of "[]"] by (simp add: sftp_read_dir_def Let_def)

text \<open>C33: A listing that fails leaks its handle: when a read of the directory is answered with any other
  error, \<open>read_dir\<close> returns it in the state right after that answer; no close request is sent and
  the session still counts the handle.\<close>

theorem failed_read_dir_leaks_handle:
  assumes "raw_opendir W path sw = (Ok reply, sw1)"
    and "listing W (handle_handle reply) sw1 batches err sw2" and "\<not> is_eof err"
  shows "sftp_read_dir W path sw = Some (Err err, sw2)"
  using assms read_dir_loop_listing [OF assms(2), of "[]"] by (simp add: sftp_read_dir_def Let_def)

lemma scripted_opendir:
  assumes "\<not> rs_tx_closed s" and "\<not> handle_limit_reached s"
  obtains s' where "raw_opendir scripted path (s, Handle x # ps) = (Ok x, s'\<lparr>rs_handles := rs_handles s' + 1\<rparr>, ps)"
    "session_kept s s'"
proof -
  obtain s' where "request scripted (\<lambda>i. OpenDir \<lparr>opendir_id = i, opendir_path = path\<rparr>) (s, Handle x # ps)
      = (Ok (Handle x), s', ps)" "session_kept s s'"
    by (rule scripted_request [OF assms(1)])
  then show thesis
    using that [of s'] assms(2) by (simp add: raw_opendir_def count_handle_def into_with_status_def)
qed

definition dir_handle :: handle_msg where
  "dir_handle = \<lparr>handle_id = 1, handle_handle = [65]\<rparr>"

definition denied :: status_msg where
  "denied = \<lparr>status_id = 2, status_status_code = SC_PermissionDenied, status_error_message = [],
     status_language_tag = []\<rparr>"

theorem failed_read_dir_leaks_handle_witness:
  "\<exists>s2. rs_handles s2 = 1
    \<and> sftp_read_dir scripted [47] (raw_new, [Handle dir_handle, Status denied])
      = Some (Err (CE_Status denied), s2, [])"
proof -
  obtain s1 where o: "raw_opendir scripted [47] (raw_new, [Handle dir_handle, Status denied])
      = (Ok dir_handle, s1\<lparr>rs_handles := rs_handles s1 + 1\<rparr>, [Status denied])" "session_kept raw_new s1"
    by (rule scripted_opendir [of raw_new]) (simp_all add: raw_new_def handle_limit_reached_def limits_default_def)
  let ?s = "s1\<lparr>rs_handles := rs_handles s1 + 1\<rparr>"
  have s: "\<not> rs_tx_closed ?s" "rs_handles ?s = 1" using o(2) by (simp_all add: session_kept_def raw_new_def)
  obtain s2 where r: "request scripted (\<lambda>i. ReadDir \<lparr>readdir_id = i, readdir_handle = [65]\<rparr>)
      (?s, [Status denied]) = (Ok (Status denied), s2, [])" "session_kept ?s s2"
    by (rule scripted_request [OF s(1)])
  then have "raw_readdir scripted [65] (?s, [Status denied]) = (Err (CE_Status denied), s2, [])"
    by (simp add: raw_readdir_def into_with_status_def client_error_of_status_def)
  then have "listing scripted (handle_handle dir_handle) (?s, [Status denied]) [] (CE_Status denied) (s2, [])"
    by (simp add: dir_handle_def listing.ends)
  from failed_read_dir_leaks_handle [OF o(1) this] have "sftp_read_dir scripted [47]
      (raw_new, [Handle dir_handle, Status denied]) = Some (Err (CE_Status denied), s2, [])"
    by (simp add: is_eof_def denied_def)
  moreover have "rs_handles s2 = 1" using r(2) s(2) by (simp add: session_kept_def)
  ultimately show ?thesis by blast
qed
section \<open>The listing of the example server\<close>

lemma idle_handles [simp]: "idle (s\<lparr>rs_handles := n\<rparr>) = idle s"
  by (simp add: idle_def session_ok_def)

definition example_entries :: entries where
  "example_entries = [(lit ''foo'', attrs_default), (lit ''bar'', attrs_default)]"

lemma root_fits: "string_fits (lit ''/'')" "length (lit ''/'') < 2 ^ 30"
  by (simp_all add: string_fits_def valid_utf8_ascii lit_def)

lemma norm_attrs_default: "norm_attrs attrs_default = attrs_default"
  by (rule norm_attrs_complete) (simp add: complete_attrs_def attrs_default_def)

lemma example_opens_dir:
  assumes "idle s" and "\<not> handle_limit_reached s"
  obtains s' where "raw_opendir (loopback (example_handler fmt)) (lit ''/'') (s, h)
      = (Ok \<lparr>handle_id = rs_next_req_id s, handle_handle = lit ''/''\<rparr>, s',
         h\<lparr>ex_root_dir_read_done := False\<rparr>)"
    "idle s'" "rs_handles s' = rs_handles s + 1" "rs_limits s' = rs_limits s"
proof -
  have "\<exists>s'. raw_opendir (loopback (example_handler fmt)) (lit ''/'') (s, h)
      = (Ok \<lparr>handle_id = rs_next_req_id s, handle_handle = lit ''/''\<rparr>,
         s'\<lparr>rs_handles := rs_handles s + 1\<rparr>, h\<lparr>ex_root_dir_read_done := False\<rparr>) \<and> call_frame s s'"
    using example_echo.opendir_served [of s "lit ''/''" fmt h] assms root_fits
    by (simp add: example_opendir_def)
  then obtain s' where s': "raw_opendir (loopback (example_handler fmt)) (lit ''/'') (s, h)
      = (Ok \<lparr>handle_id = rs_next_req_id s, handle_handle = lit ''/''\<rparr>,
         s'\<lparr>rs_handles := rs_handles s + 1\<rparr>, h\<lparr>ex_root_dir_read_done := False\<rparr>)" "call_frame s s'"
    by blast
  show thesis by (rule that [OF s'(1)]) (use s'(2) in \<open>simp_all add: call_frame_def\<close>)
qed

lemma example_reads_dir:
  assumes "idle s" and "valid_utf8 (fmt 0)" and "length (fmt 0) < 2 ^ 20" and "\<not> ex_root_dir_read_done h"
  obtains name s' where "raw_readdir (loopback (example_handler fmt)) (lit ''/'') (s, h)
      = (Ok name, s', h\<lparr>ex_root_dir_read_done := True\<rparr>)"
    "batch_of name = example_entries" "call_frame s s'"
proof -
  let ?name = "\<lparr>name_id = rs_next_req_id s, name_files = [file_new fmt (lit ''foo'') attrs_default,
      file_new fmt (lit ''bar'') attrs_default]\<rparr>"
  obtain s' where s': "raw_readdir (loopback (example_handler fmt)) (lit ''/'') (s, h)
      = (Ok (norm_name ?name), s', h\<lparr>ex_root_dir_read_done := True\<rparr>)" "call_frame s s'"
    using example_echo.readdir_served [of s "lit ''/''" fmt h] assms root_fits
      sendable_listing [where fmt = fmt, OF assms(2,3)]
    by (auto simp: example_readdir_def)
  show thesis
    by (rule that [OF s'(1) _ s'(2)]) (simp add: batch_of_def example_entries_def norm_name_def
        norm_file_def file_new_def norm_attrs_default Let_def)
qed

lemma example_dir_ends:
  assumes "idle s" and "ex_root_dir_read_done h"
  obtains err s' where "raw_readdir (loopback (example_handler fmt)) (lit ''/'') (s, h) = (Err err, s', h)"
    "is_eof err" "call_frame s s'"
proof -
  obtain s' where s': "raw_readdir (loopback (example_handler fmt)) (lit ''/'') (s, h)
      = (Err (status_error (example_handler fmt) (rs_next_req_id s) SC_Eof), s', h)" "call_frame s s'"
    using example_echo.readdir_served [of s "lit ''/''" fmt h] assms root_fits
    by (auto simp: example_readdir_def)
  show thesis by (rule that [OF s'(1) _ s'(2)]) (simp add: is_eof_def status_error_def)
qed

lemma example_closes:
  assumes "idle s" and "rs_handles s > 0"
  obtains st s' where "raw_close (loopback (example_handler fmt)) (lit ''/'') (s, h) = (Ok st, s', h)"
    "idle s'" "rs_handles s' = rs_handles s - 1"
proof -
  have st: "sendable (Status \<lparr>status_id = i, status_status_code = SC_Ok, status_error_message = lit ''Ok'',
      status_language_tag = lit ''en-US''\<rparr>)" for i
    by (simp add: sendable_def fits_status_def string_fits_def frame_fits_def valid_utf8_ascii
        packet_body_def wire_status_def wire_string_def lit_def)
  obtain s' where "raw_close (loopback (example_handler fmt)) (lit ''/'') (s, h)
      = (Ok \<lparr>status_id = rs_next_req_id s, status_status_code = SC_Ok, status_error_message = lit ''Ok'',
           status_language_tag = lit ''en-US''\<rparr>, s'\<lparr>rs_handles := rs_handles s - 1\<rparr>, h)" "call_frame s s'"
    using example_echo.close_served [of s "lit ''/''" fmt h] assms root_fits st
    by (auto simp: example_close_def into_status_def)
  then show thesis using that by (auto simp: call_frame_def)
qed

lemma example_listed:
  assumes "idle s" and "\<not> handle_limit_reached s" and "rs_handles s + 1 \<noteq> 0"
    and "valid_utf8 (fmt 0)" and "length (fmt 0) < 2 ^ 20"
  obtains i s1 h1 err s2 h2 st s3 where
    "raw_opendir (loopback (example_handler fmt)) (lit ''/'') (s, h)
       = (Ok \<lparr>handle_id = i, handle_handle = lit ''/''\<rparr>, s1, h1)"
    "listing (loopback (example_handler fmt)) (lit ''/'') (s1, h1) [example_entries] err (s2, h2)"
    "is_eof err"
    "raw_close (loopback (example_handler fmt)) (lit ''/'') (s2, h2) = (Ok st, s3, h2)"
    "idle s3" "rs_handles s3 = rs_handles s" "h2 = h\<lparr>ex_root_dir_read_done := True\<rparr>"
proof -
  obtain s1 where o: "raw_opendir (loopback (example_handler fmt)) (lit ''/'') (s, h)
      = (Ok \<lparr>handle_id = rs_next_req_id s, handle_handle = lit ''/''\<rparr>, s1,
         h\<lparr>ex_root_dir_read_done := False\<rparr>)" "idle s1" "rs_handles s1 = rs_handles s + 1"
    by (rule example_opens_dir [OF assms(1,2)])
  obtain name s2 where r: "raw_readdir (loopback (example_handler fmt)) (lit ''/'')
      (s1, h\<lparr>ex_root_dir_read_done := False\<rparr>) = (Ok name, s2, h\<lparr>ex_root_dir_read_done := True\<rparr>)"
      "batch_of name = example_entries" "call_frame s1 s2"
    by (rule example_reads_dir [where fmt = fmt, OF o(2) assms(4,5), of "h\<lparr>ex_root_dir_read_done := False\<rparr>"]) simp_all
  have "idle s2" using r(3) by (simp add: call_frame_def)
  then obtain err s3 where e: "raw_readdir (loopback (example_handler fmt)) (lit ''/'')
      (s2, h\<lparr>ex_root_dir_read_done := True\<rparr>) = (Err err, s3, h\<lparr>ex_root_dir_read_done := True\<rparr>)"
      "is_eof err" "call_frame s2 s3"
    by (rule example_dir_ends [where h = "h\<lparr>ex_root_dir_read_done := True\<rparr>"]) simp_all
  have s3: "idle s3" "rs_handles s3 = rs_handles s + 1" using e(3) r(3) o(3) by (simp_all add: call_frame_def)
  then have "rs_handles s3 > 0" using assms(3) by (simp add: word_gt_0)
  then obtain st s4 where c: "raw_close (loopback (example_handler fmt)) (lit ''/'')
      (s3, h\<lparr>ex_root_dir_read_done := True\<rparr>) = (Ok st, s4, h\<lparr>ex_root_dir_read_done := True\<rparr>)"
      "idle s4" "rs_handles s4 = rs_handles s3 - 1"
    by (rule example_closes [OF s3(1)])
  show thesis
    by (rule that [OF o(1) _ e(2) c(1)])
      (use listing.batch [OF r(1) listing.ends [OF e(1)]] r(2) c(2,3) s3(2) in simp_all)
qed

text \<open>C22: The example server can be listed by the library's own client: over the wire, \<open>read_dir\<close> of
  the root directory returns its two entries with their attributes, closes the handle, and leaves
  the session as it found it.\<close>

theorem example_server_listed:
  assumes "idle s" and "\<not> handle_limit_reached s" and "rs_handles s + 1 \<noteq> 0"
    and "valid_utf8 (fmt 0)" and "length (fmt 0) < 2 ^ 20"
  shows "\<exists>s'. sftp_read_dir (loopback (example_handler fmt)) (lit ''/'') (s, h)
      = Some (Ok example_entries, s', h\<lparr>ex_root_dir_read_done := True\<rparr>)
    \<and> idle s' \<and> rs_handles s' = rs_handles s"
proof -
  obtain i s1 h1 err s2 h2 st s3 where
    l: "raw_opendir (loopback (example_handler fmt)) (lit ''/'') (s, h)
       = (Ok \<lparr>handle_id = i, handle_handle = lit ''/''\<rparr>, s1, h1)"
    "listing (loopback (example_handler fmt)) (lit ''/'') (s1, h1) [example_entries] err (s2, h2)"
    "is_eof err"
    "raw_close (loopback (example_handler fmt)) (lit ''/'') (s2, h2) = (Ok st, s3, h2)"
    "idle s3" "rs_handles s3 = rs_handles s" "h2 = h\<lparr>ex_root_dir_read_done := True\<rparr>"
    by (rule example_listed [where fmt = fmt, OF assms])
  then show ?thesis
    using read_dir_loop_listing [OF l(2), of "[]"] by (auto simp: sftp_read_dir_def Let_def)
qed

theorem example_server_listed_witness:
  "\<exists>s'. sftp_read_dir (loopback (example_handler decimal)) (lit ''/'') (session_ready, example_default)
      = Some (Ok example_entries, s', example_default\<lparr>ex_root_dir_read_done := True\<rparr>)
    \<and> idle s' \<and> rs_handles s' = rs_handles session_ready"
  by (rule example_server_listed [where fmt = decimal, OF idle_ready])
    (simp_all add: handle_limit_reached_def limits_default_def decimal.simps [of 0] valid_utf8_ascii)

theorem read_dir_collects_witness:
  "\<exists>i s1 h1 err s2 h2 st s3.
     raw_opendir (loopback (example_handler decimal)) (lit ''/'') (session_ready, example_default)
       = (Ok \<lparr>handle_id = i, handle_handle = lit ''/''\<rparr>, s1, h1)
     \<and> listing (loopback (example_handler decimal)) (lit ''/'') (s1, h1) [example_entries] err (s2, h2)
     \<and> raw_close (loopback (example_handler decimal)) (lit ''/'') (s2, h2) = (Ok st, s3, h2)
     \<and> sftp_read_dir (loopback (example_handler decimal)) (lit ''/'') (session_ready, example_default)
       = Some (Ok (concat (rev [example_entries])), s3, h2)"
proof -
  have d: "\<not> handle_limit_reached session_ready" "rs_handles session_ready + 1 \<noteq> 0"
      "valid_utf8 (decimal 0)" "length (decimal 0) < 2 ^ 20"
    by (simp_all add: handle_limit_reached_def limits_default_def decimal.simps [of 0] valid_utf8_ascii)
  obtain i s1 h1 err s2 h2 st s3 where
    l: "raw_opendir (loopback (example_handler decimal)) (lit ''/'') (session_ready, example_default)
       = (Ok \<lparr>handle_id = i, handle_handle = lit ''/''\<rparr>, s1, h1)"
    "listing (loopback (example_handler decimal)) (lit ''/'') (s1, h1) [example_entries] err (s2, h2)"
    "is_eof err"
    "raw_close (loopback (example_handler decimal)) (lit ''/'') (s2, h2) = (Ok st, s3, h2)"
    by (rule example_listed [where fmt = decimal, OF idle_ready d])
  have "handle_handle \<lparr>handle_id = i, handle_handle = lit ''/''\<rparr> = lit ''/''" by simp
  from read_dir_collects [OF l(1), unfolded this, OF l(2,3,4)] l show ?thesis by blast
qed

end
