(* ===== verification/Negotiation.thy ===== *)
theory Negotiation
  imports Listing
begin

text \<open>
  The limits of the \<^verbatim>\<open>limits@openssh.com\<close> extension: a session that was created with them keeps them
  in two places, in the raw session, which refuses requests beyond them, and in the extensions that
  files look at. The two agree, so a file's own requests are never refused. The limit on open
  handles is checked before the request and counted after the reply, which is not atomic.
\<close>

section \<open>The two copies of the limits\<close>

definition limits_agree :: "extensions \<Rightarrow> raw_session \<Rightarrow> bool" where
  "limits_agree e s \<longleftrightarrow> rs_limits s = (case ext_limits e of None \<Rightarrow> limits_default | Some l \<Rightarrow> l)"

text \<open>Only the owner of a session sets its limits, so nothing changes them while a call waits.\<close>

definition keeps_limits :: "'w waits \<Rightarrow> bool" where
  "keeps_limits W \<longleftrightarrow> (\<forall>c t sw. rs_limits (fst (W c t sw)) = rs_limits (fst sw))"

lemma begin_send_limits: "begin_send rid p s = (r, s') \<Longrightarrow> rs_limits s' = rs_limits s"
  by (auto simp: begin_send_def tx_send_def drop_receiver_def Let_def split: if_splits result.splits prod.splits)

lemma end_send_limits: "end_send rid c s = (r, s') \<Longrightarrow> rs_limits s' = rs_limits s"
  by (auto simp: end_send_def drop_receiver_def Let_def split: option.splits)

lemma send_limits:
  assumes "keeps_limits W" and "send W rid p sw = (r, sw')"
  shows "rs_limits (fst sw') = rs_limits (fst sw)"
proof -
  obtain s w where sw: "sw = (s, w)" by (cases sw)
  obtain b s1 where b: "begin_send rid p s = (b, s1)" by (cases "begin_send rid p s")
  show ?thesis
  proof (cases b)
    case (Err e)
    then show ?thesis using assms(2) b begin_send_limits [OF b] by (auto simp: send_def sw)
  next
    case (Ok c)
    obtain s2 w2 where w: "W c (rs_timeout s1) (s1, w) = (s2, w2)" by (cases "W c (rs_timeout s1) (s1, w)")
    obtain r' s3 where e: "end_send rid c s2 = (r', s3)" by (cases "end_send rid c s2")
    have "rs_limits s2 = rs_limits s1"
      using assms(1) w unfolding keeps_limits_def by (metis fst_conv)
    then show ?thesis
      using assms(2) b Ok w e begin_send_limits [OF b] end_send_limits [OF e] by (auto simp: send_def sw)
  qed
qed

lemma raw_init_limits:
  assumes "keeps_limits W" and "raw_init W sw = (r, sw')"
  shows "rs_limits (fst sw') = rs_limits (fst sw)"
  using assms(2) send_limits [OF assms(1)]
  by (cases "send W None (Init init_new) sw"; cases "fst (send W None (Init init_new) sw)")
    (auto simp: raw_init_def)

lemma session_limits_agree:
  assumes "keeps_limits W" and "sftp_new_opts W timeout (raw_new, w) = (Ok e, sw)"
  shows "limits_agree e (fst sw)"
proof -
  define sw0 where "sw0 = (case timeout of None \<Rightarrow> (raw_new, w) | Some secs \<Rightarrow> (set_timeout secs raw_new, w))"
  have sw0: "rs_limits (fst sw0) = limits_default"
    by (simp add: sw0_def raw_new_def set_timeout_def split: option.split)
  obtain r sw1 where i: "raw_init W sw0 = (r, sw1)" by (cases "raw_init W sw0")
  have sw1: "rs_limits (fst sw1) = limits_default"
    using raw_init_limits [OF assms(1) i] sw0 by simp
  from assms(2) i sw1 show ?thesis
    by (cases r; cases timeout; cases "raw_limits W sw1"; cases "fst (raw_limits W sw1)")
      (auto simp: sftp_new_opts_def sw0_def limits_agree_def set_limits_def Let_def split: if_splits)
qed

text \<open>A server that announces limits: the script of a session's creation.\<close>

definition announced :: limits_msg where
  "announced = \<lparr>limits_max_packet_len = 0, limits_max_read_len = 100, limits_max_write_len = 50,
     limits_max_open_handles = 1\<rparr>"

definition announcing :: version_msg where
  "announcing = \<lparr>version_version = 3, version_extensions = [(EXT_LIMITS, lit ''1'')]\<rparr>"

definition announcement :: "packet list" where
  "announcement = [Version announcing,
     ExtendedReply \<lparr>extended_reply_id = 1, extended_reply_data = wire_limits announced\<rparr>]"

lemma keeps_limits_scripted: "keeps_limits scripted"
  by (auto simp: keeps_limits_def scripted_def split: prod.split list.split)

lemma scripted_send:
  assumes "\<not> rs_tx_closed s"
  obtains s' where "send scripted rid packet (s, p # ps) = (Ok p, s', ps)" "session_kept s s'"
proof -
  have "\<exists>s'. send scripted rid packet (s, p # ps) = (Ok p, s', ps) \<and> session_kept s s'"
    using assms by (simp add: send_def begin_send_def bytes_of_packet_frame
        tx_send_def scripted_def end_send_def drop_receiver_def session_kept_def Let_def)
  then show thesis using that by blast
qed

lemma announced_session:
  obtains s where "sftp_new scripted (raw_new, announcement)
      = (Ok \<lparr>ext_hardlink = False, ext_fsync = False, ext_statvfs = False,
             ext_limits = Some (limits_of_extension announced)\<rparr>, s, [])"
    "rs_limits s = limits_of_extension announced" "\<not> rs_tx_closed s" "rs_handles s = 0"
proof -
  let ?reply = "ExtendedReply \<lparr>extended_reply_id = 1, extended_reply_data = wire_limits announced\<rparr>"
  have "\<not> rs_tx_closed raw_new" by (simp add: raw_new_def)
  then obtain s1 where i: "send scripted None (Init init_new) (raw_new, announcement)
      = (Ok (Version announcing), s1, [?reply])" "session_kept raw_new s1"
    unfolding announcement_def by (rule scripted_send)
  have s1: "\<not> rs_tx_closed s1" "rs_handles s1 = 0" using i(2) by (simp_all add: session_kept_def raw_new_def)
  from s1(1) obtain s2 where l: "request scripted (\<lambda>i. Extended \<lparr>extended_id = i,
        extended_request = EXT_LIMITS, extended_data = []\<rparr>) (s1, [?reply]) = (Ok ?reply, s2, [])"
      "session_kept s1 s2"
    by (rule scripted_request)
  have parse: "de_limits (wire_limits announced) = Ok (announced, [])"
    using limits_codec.de_wire [of announced "[]"] by (simp add: fits_limits_def)
  have r: "raw_limits scripted (s1, [?reply]) = (Ok announced, s2, [])"
    using l(1) parse by (simp add: raw_limits_def raw_extended_def reply_data_def from_bytes_def)
  have a: "announces announcing EXT_LIMITS (lit ''1'')" "\<not> announces announcing EXT_HARDLINK x"
      "\<not> announces announcing EXT_FSYNC x" "\<not> announces announcing EXT_STATVFS x" for x
    by (simp_all add: announces_def announcing_def EXT_LIMITS_def EXT_HARDLINK_def EXT_FSYNC_def
        EXT_STATVFS_def lit_def)
  have "sftp_new scripted (raw_new, announcement)
      = (Ok \<lparr>ext_hardlink = False, ext_fsync = False, ext_statvfs = False,
             ext_limits = Some (limits_of_extension announced)\<rparr>,
         s2\<lparr>rs_limits := limits_of_extension announced\<rparr>, [])"
    using i(1) r a by (simp add: sftp_new_def sftp_new_opts_def raw_init_def set_limits_def Let_def)
  then show thesis
    by (rule that) (use l(2) s1 in \<open>simp_all add: session_kept_def\<close>)
qed

section \<open>Properties of limits\<close>

text \<open>C24: A session's own files stay within its limits: after \<open>new_opts\<close> has created a session, on any
  later state with the same limits, a read or write that one of its files starts is sent to the
  server and not refused by the raw session.\<close>

theorem files_respect_negotiated_limits:
  assumes "keeps_limits W" and "sftp_new_opts W timeout (raw_new, w) = (Ok e, s0, w0)"
    and "rs_limits s = rs_limits s0" and "fl_extensions f = e" and "fl_read f = None" and "fl_write f = None"
  shows "raw_read V handle offset (rf_len (fst (start_read room f))) (s, v)
      = and_then (request V (\<lambda>i. Read \<lparr>read_id = i, read_handle = handle, read_offset = offset,
          read_len = rf_len (fst (start_read room f))\<rparr>) (s, v))
        (\<lambda>result sw. (into_with_status as_data result, sw))
    \<and> raw_write V handle offset (wf_data (fst (start_write buf f))) (s, v)
      = and_then (request V (\<lambda>i. Write \<lparr>write_id = i, write_handle = handle, write_offset = offset,
          write_data = wf_data (fst (start_write buf f))\<rparr>) (s, v))
        (\<lambda>result sw. (into_status result, sw))"
proof -
  have agree: "rs_limits s = (case ext_limits e of None \<Rightarrow> limits_default | Some l \<Rightarrow> l)"
    using session_limits_agree [OF assms(1,2)] assms(3) by (simp add: limits_agree_def)
  have "\<not> ucast (of_nat (read_size room e) :: u32) > r" if "lim_read_len (rs_limits s) = Some r" for r
  proof -
    have "read_size room e \<le> unat r"
      using that agree by (auto simp: read_size_def limit_or_def limits_default_def split: option.splits)
    moreover have "unat (of_nat (read_size room e) :: u32) \<le> read_size room e"
      by (simp add: unat_of_nat)
    moreover have "unat (ucast x :: u64) = unat x" for x :: u32
    proof -
      have "unat x < 2 ^ LENGTH(32)" by (rule unsigned_less)
      then show ?thesis by (simp add: unsigned_ucast_eq take_bit_nat_eq_self)
    qed
    ultimately show ?thesis by (simp add: word_less_nat_alt not_less)
  qed
  moreover have "\<not> write_size buf e > unat n" if "lim_write_len (rs_limits s) = Some n" for n
    using that agree by (auto simp: write_size_def limit_or_def limits_default_def split: option.splits)
  ultimately show ?thesis
    using assms(4-6) by (auto simp: raw_read_def raw_write_def start_read_idle start_write_idle Let_def
        write_size_def split: option.splits)
qed
theorem files_respect_negotiated_limits_witness:
  "\<exists>s0. sftp_new_opts scripted None (raw_new, announcement)
      = (Ok \<lparr>ext_hardlink = False, ext_fsync = False, ext_statvfs = False,
             ext_limits = Some (limits_of_extension announced)\<rparr>, s0, [])
    \<and> raw_write scripted [65] 0 (wf_data (fst (start_write (replicate 60 7)
          (file_open [65] \<lparr>ext_hardlink = False, ext_fsync = False, ext_statvfs = False,
             ext_limits = Some (limits_of_extension announced)\<rparr>)))) (s0, [])
      = and_then (request scripted (\<lambda>i. Write \<lparr>write_id = i, write_handle = [65], write_offset = 0,
          write_data = wf_data (fst (start_write (replicate 60 7)
            (file_open [65] \<lparr>ext_hardlink = False, ext_fsync = False, ext_statvfs = False,
               ext_limits = Some (limits_of_extension announced)\<rparr>)))\<rparr>) (s0, []))
        (\<lambda>result sw. (into_status result, sw))"
proof -
  let ?e = "\<lparr>ext_hardlink = False, ext_fsync = False, ext_statvfs = False,
             ext_limits = Some (limits_of_extension announced)\<rparr>"
  obtain s0 where s0: "sftp_new scripted (raw_new, announcement) = (Ok ?e, s0, [])"
    by (rule announced_session)
  then have new: "sftp_new_opts scripted None (raw_new, announcement) = (Ok ?e, s0, [])"
    by (simp add: sftp_new_def)
  show ?thesis
    using files_respect_negotiated_limits [OF keeps_limits_scripted new refl, of "file_open [65] ?e"
        scripted "[65]" 0 0 "[]" "replicate 60 7"] new
    by (simp add: file_open_def)
qed

text \<open>C32: The limit on open handles can be passed: while an open waits for its reply another open is
  still let through, so with one handle left of the limit two calls succeed and the session counts
  one handle more than the server allows.\<close>

theorem handle_limit_not_atomic:
  assumes "\<not> rs_tx_closed s" and "lim_open_handles (rs_limits s) = Some (rs_handles s + 1)"
    and "rs_handles s < rs_handles s + 1"
  shows "\<exists>s1 s'. raw_open (\<lambda>c t sw. snd (raw_open scripted q g b (scripted c t sw))) p f a
        (s, [Handle x, Handle y]) = (Ok x, s', [])
    \<and> rs_handles s' = rs_handles s + 2 \<and> lim_open_handles (rs_limits s') = Some (rs_handles s + 1)
    \<and> raw_open scripted p f a (s, [Handle x, Handle y]) = (Ok x, s1, [Handle y])
    \<and> raw_open scripted q g b (s1, [Handle y])
      = (Err (CE_Limited [Lit ''handle limit reached'']), s1, [Handle y])"
  using assms
  by (simp add: raw_open_def handle_limit_reached_def request_def use_next_id_def send_def
      begin_send_def bytes_of_packet_frame tx_send_def scripted_def end_send_def drop_receiver_def
      count_handle_def into_with_status_def Let_def not_le)

theorem handle_limit_not_atomic_witness:
  "\<exists>s1 s'. raw_open (\<lambda>c t sw. snd (raw_open scripted [66] OPEN_READ attrs_empty (scripted c t sw)))
        [65] OPEN_READ attrs_empty
        (set_limits (limits_of_extension announced) raw_new, [Handle dir_handle, Handle dir_handle])
      = (Ok dir_handle, s', [])
    \<and> rs_handles s' = rs_handles (set_limits (limits_of_extension announced) raw_new) + 2
    \<and> lim_open_handles (rs_limits s') = Some (rs_handles (set_limits (limits_of_extension announced) raw_new) + 1)
    \<and> raw_open scripted [65] OPEN_READ attrs_empty
        (set_limits (limits_of_extension announced) raw_new, [Handle dir_handle, Handle dir_handle])
      = (Ok dir_handle, s1, [Handle dir_handle])
    \<and> raw_open scripted [66] OPEN_READ attrs_empty (s1, [Handle dir_handle])
      = (Err (CE_Limited [Lit ''handle limit reached'']), s1, [Handle dir_handle])"
  by (rule handle_limit_not_atomic)
    (simp_all add: set_limits_def raw_new_def limits_of_extension_def announced_def)

end
