(* ===== verification/ExampleSsh.thy ===== *)
theory ExampleSsh
  imports ExampleServer "HOL-Library.Multiset"
begin

text \<open>
  The SSH side of \<^verbatim>\<open>examples/server.rs\<close>: \<^verbatim>\<open>SshSession\<close> keeps the open channels of a connection by
  their id until one asks for the sftp subsystem, which starts the server on its stream. The SSH
  library is a parameter: the id and the stream of a channel, and the three methods of its session
  that the example calls. It calls the methods of the example one after the other; one that fails
  or panics is the last.
\<close>

section \<open>The connection\<close>

record ('i, 'ch, 'st, 's, 'x) ssh_library =
  lib_channel_id :: "'ch \<Rightarrow> 'i"
  lib_into_stream :: "'ch \<Rightarrow> 'st"
  lib_close :: "'i \<Rightarrow> 's \<Rightarrow> (unit, 'x) result \<times> 's"
  lib_channel_success :: "'i \<Rightarrow> 's \<Rightarrow> (unit, 'x) result \<times> 's"
  lib_channel_failure :: "'i \<Rightarrow> 's \<Rightarrow> (unit, 'x) result \<times> 's"

text \<open>\<^verbatim>\<open>clients\<close> of the session, the session of the library, and the tasks that serve a stream.\<close>

record ('i, 'ch, 'st, 's) ssh_connection =
  cn_clients :: "('i \<times> 'ch) list"
  cn_session :: 's
  cn_spawned :: "('st \<times> sftp_example) list"

definition new_client :: "'s \<Rightarrow> ('i, 'ch, 'st, 's) ssh_connection" where
  "new_client s = \<lparr>cn_clients = [], cn_session = s, cn_spawned = []\<rparr>"

text \<open>The \<^verbatim>\<open>unwrap\<close> of a missing channel is \<^const>\<open>None\<close>.\<close>

definition get_channel ::
  "'i \<Rightarrow> ('i, 'ch, 'st, 's) ssh_connection \<Rightarrow> 'ch option \<times> ('i, 'ch, 'st, 's) ssh_connection" where
  "get_channel i c =
     (map_of (cn_clients c) i, c\<lparr>cn_clients := AList.delete i (cn_clients c)\<rparr>)"

datatype 'a unwound = Returns 'a | Panics

type_synonym ('a, 'x, 'c) ssh_method = "'c \<Rightarrow> ('a, 'x) result unwound \<times> 'c"

definition auth_password ::
  "'auth \<Rightarrow> bytes \<Rightarrow> bytes \<Rightarrow> ('auth, 'x, ('i, 'ch, 'st, 's) ssh_connection) ssh_method" where
  "auth_password accept user password c = (Returns (Ok accept), c)"

definition auth_publickey ::
  "'auth \<Rightarrow> bytes \<Rightarrow> 'key \<Rightarrow> ('auth, 'x, ('i, 'ch, 'st, 's) ssh_connection) ssh_method" where
  "auth_publickey accept user public_key c = (Returns (Ok accept), c)"

definition channel_open_session ::
  "('i, 'ch, 'st, 's, 'x) ssh_library \<Rightarrow> 'ch \<Rightarrow> (bool, 'x, ('i, 'ch, 'st, 's) ssh_connection) ssh_method" where
  "channel_open_session L channel c =
     (Returns (Ok True),
      c\<lparr>cn_clients := AList.update (lib_channel_id L channel) channel (cn_clients c)\<rparr>)"

definition channel_eof ::
  "('i, 'ch, 'st, 's, 'x) ssh_library \<Rightarrow> 'i \<Rightarrow> (unit, 'x, ('i, 'ch, 'st, 's) ssh_connection) ssh_method" where
  "channel_eof L channel c =
     (case lib_close L channel (cn_session c) of
        (r, s) \<Rightarrow> (Returns r, c\<lparr>cn_session := s\<rparr>))"

definition subsystem_request ::
  "('i, 'ch, 'st, 's, 'x) ssh_library \<Rightarrow> 'i \<Rightarrow> bytes
     \<Rightarrow> (unit, 'x, ('i, 'ch, 'st, 's) ssh_connection) ssh_method" where
  "subsystem_request L channel_id name c =
     (if name = lit ''sftp'' then
        (case get_channel channel_id c of
           (None, c) \<Rightarrow> (Panics, c)
         | (Some channel, c) \<Rightarrow>
             (let sftp = example_default in
              case lib_channel_success L channel_id (cn_session c) of
                (Err e, s) \<Rightarrow> (Returns (Err e), c\<lparr>cn_session := s\<rparr>)
              | (Ok _, s) \<Rightarrow>
                  (Returns (Ok ()),
                   c\<lparr>cn_session := s, cn_spawned := cn_spawned c @ [(lib_into_stream L channel, sftp)]\<rparr>)))
      else
        (case lib_channel_failure L channel_id (cn_session c) of
           (r, s) \<Rightarrow> (Returns r, c\<lparr>cn_session := s\<rparr>)))"

section \<open>Runs of a connection\<close>

datatype ('i, 'ch) ssh_event =
    AuthPassword bytes bytes
  | AuthPublickey bytes bytes
  | ChannelOpen 'ch
  | ChannelEof 'i
  | SubsystemRequest 'i bytes

definition proceeds :: "('a, 'x) result unwound \<Rightarrow> bool" where
  "proceeds r = (case r of Returns (Ok _) \<Rightarrow> True | _ \<Rightarrow> False)"

fun ssh_step ::
  "('i, 'ch, 'st, 's, 'x) ssh_library \<Rightarrow> ('i, 'ch) ssh_event \<Rightarrow> ('i, 'ch, 'st, 's) ssh_connection
     \<Rightarrow> bool \<times> ('i, 'ch, 'st, 's) ssh_connection" where
  "ssh_step L (AuthPassword user password) c =
     apfst (proceeds :: (unit, 'x) result unwound \<Rightarrow> bool) (auth_password () user password c)"
| "ssh_step L (AuthPublickey user key) c =
     apfst (proceeds :: (unit, 'x) result unwound \<Rightarrow> bool) (auth_publickey () user key c)"
| "ssh_step L (ChannelOpen ch) c =
     apfst (proceeds :: (bool, 'x) result unwound \<Rightarrow> bool) (channel_open_session L ch c)"
| "ssh_step L (ChannelEof i) c =
     apfst (proceeds :: (unit, 'x) result unwound \<Rightarrow> bool) (channel_eof L i c)"
| "ssh_step L (SubsystemRequest i name) c =
     apfst (proceeds :: (unit, 'x) result unwound \<Rightarrow> bool) (subsystem_request L i name c)"

fun ssh_run ::
  "('i, 'ch, 'st, 's, 'x) ssh_library \<Rightarrow> ('i, 'ch) ssh_event list \<Rightarrow> ('i, 'ch, 'st, 's) ssh_connection
     \<Rightarrow> bool \<times> ('i, 'ch, 'st, 's) ssh_connection" where
  "ssh_run L [] c = (True, c)"
| "ssh_run L (e # es) c =
     (case ssh_step L e c of (True, c) \<Rightarrow> ssh_run L es c | (False, c) \<Rightarrow> (False, c))"

fun opened :: "('i, 'ch) ssh_event list \<Rightarrow> 'ch list" where
  "opened (ChannelOpen ch # es) = ch # opened es"
| "opened (e # es) = opened es"
| "opened [] = []"

section \<open>Where the channels are\<close>

text \<open>The streams of the stored channels and those that are served.\<close>

definition streams ::
  "('i, 'ch, 'st, 's, 'x) ssh_library \<Rightarrow> ('i, 'ch, 'st, 's) ssh_connection \<Rightarrow> 'st multiset" where
  "streams L c = image_mset (\<lambda>(i, ch). lib_into_stream L ch) (mset (cn_clients c))
     + image_mset fst (mset (cn_spawned c))"

definition fresh_tasks :: "('i, 'ch, 'st, 's) ssh_connection \<Rightarrow> bool" where
  "fresh_tasks c \<longleftrightarrow> list_all (\<lambda>(stream, h). h = example_default) (cn_spawned c)"

lemma other_methods_streams [simp]:
  "streams L (snd (auth_password a u p c)) = streams L c"
  "streams L (snd (auth_publickey a u k c)) = streams L c"
  "streams L (snd (channel_eof L i c)) = streams L c"
  by (simp_all add: streams_def auth_password_def auth_publickey_def channel_eof_def split: prod.splits)

lemma step_fresh_tasks: "fresh_tasks c \<Longrightarrow> fresh_tasks (snd (ssh_step L e c))"
  by (cases e) (auto simp: fresh_tasks_def auth_password_def auth_publickey_def channel_eof_def
      channel_open_session_def subsystem_request_def get_channel_def
      split: prod.splits option.splits result.splits)

lemma opened_Cons: "opened (e # es) = opened [e] @ opened es"
  by (cases e) simp_all

lemma run_Cons:
  "ssh_run L (e # es) c =
     (if fst (ssh_step L e c) then ssh_run L es (snd (ssh_step L e c)) else (False, snd (ssh_step L e c)))"
  by (simp split: prod.splits)

lemma run_fresh_tasks: "fresh_tasks c \<Longrightarrow> fresh_tasks (snd (ssh_run L es c))"
proof (induction es arbitrary: c)
  case (Cons e es)
  then show ?case by (simp only: run_Cons) (simp add: step_fresh_tasks)
qed simp

lemma delete_found_eq:
  "map_of m k = Some v \<Longrightarrow> distinct (map fst m) \<Longrightarrow> add_mset (k, v) (mset (AList.delete k m)) = mset m"
proof (induction m)
  case (Cons p m)
  then show ?case
    by (cases p) (auto simp: map_of_eq_None_iff add_mset_commute split: if_splits)
qed simp

text \<open>
  What a call drops: the channel that is replaced because its id is opened again, and the channel
  taken out for the server when the library's answer to the client fails.
\<close>

fun lost ::
  "('i, 'ch, 'st, 's, 'x) ssh_library \<Rightarrow> ('i, 'ch) ssh_event \<Rightarrow> ('i, 'ch, 'st, 's) ssh_connection \<Rightarrow> 'st multiset" where
  "lost L (ChannelOpen ch) c =
     (case map_of (cn_clients c) (lib_channel_id L ch) of
        Some old \<Rightarrow> {#lib_into_stream L old#} | None \<Rightarrow> {#})"
| "lost L (SubsystemRequest i name) c =
     (case map_of (cn_clients c) i of
        Some ch \<Rightarrow> (if name = lit ''sftp'' \<and> \<not> is_ok (fst (lib_channel_success L i (cn_session c)))
                    then {#lib_into_stream L ch#} else {#})
      | None \<Rightarrow> {#})"
| "lost L e c = {#}"

fun run_lost ::
  "('i, 'ch, 'st, 's, 'x) ssh_library \<Rightarrow> ('i, 'ch) ssh_event list \<Rightarrow> ('i, 'ch, 'st, 's) ssh_connection \<Rightarrow> 'st multiset" where
  "run_lost L [] c = {#}"
| "run_lost L (e # es) c =
     lost L e c + (case ssh_step L e c of (True, c) \<Rightarrow> run_lost L es c | (False, c) \<Rightarrow> {#})"

text \<open>The events of a run, up to the one whose method fails or panics.\<close>

fun handled ::
  "('i, 'ch, 'st, 's, 'x) ssh_library \<Rightarrow> ('i, 'ch) ssh_event list \<Rightarrow> ('i, 'ch, 'st, 's) ssh_connection
     \<Rightarrow> ('i, 'ch) ssh_event list" where
  "handled L [] c = []"
| "handled L (e # es) c = e # (case ssh_step L e c of (True, c) \<Rightarrow> handled L es c | (False, c) \<Rightarrow> [])"

lemma handled_all: "fst (ssh_run L es c) \<Longrightarrow> handled L es c = es"
  by (induction es arbitrary: c) (auto split: prod.splits bool.splits)

lemma update_accounts:
  "distinct (map fst m) \<Longrightarrow>
     mset (AList.update k v m) + (case map_of m k of Some old \<Rightarrow> {#(k, old)#} | None \<Rightarrow> {#}) = add_mset (k, v) (mset m)"
proof (induction m)
  case (Cons p m)
  then show ?case by (cases p) (auto simp: map_of_eq_None_iff split: option.splits)
qed simp

lemma step_lost:
  assumes "distinct (map fst (cn_clients c))"
  shows "streams L (snd (ssh_step L e c)) + lost L e c
    = streams L c + image_mset (lib_into_stream L) (mset (opened [e]))"
proof (cases e)
  case (ChannelOpen ch)
  let ?f = "\<lambda>(i, ch). lib_into_stream L ch"
  from arg_cong [OF update_accounts [OF assms, of "lib_channel_id L ch" ch], of "image_mset ?f"]
  show ?thesis
    by (auto simp: ChannelOpen streams_def channel_open_session_def split: option.splits)
next
  case (SubsystemRequest i name)
  show ?thesis
  proof (cases "map_of (cn_clients c) i")
    case None
    then have "AList.delete i (cn_clients c) = cn_clients c" by (simp add: map_of_eq_None_iff)
    then show ?thesis
      by (simp add: SubsystemRequest None subsystem_request_def get_channel_def streams_def split: prod.splits)
  next
    case (Some ch)
    have m: "mset (cn_clients c) = add_mset (i, ch) (mset (AList.delete i (cn_clients c)))"
      using delete_found_eq [OF Some assms] by simp
    obtain x s where "lib_channel_success L i (cn_session c) = (x, s)" by (cases "lib_channel_success L i (cn_session c)")
    then show ?thesis
      by (cases x) (simp_all add: SubsystemRequest Some subsystem_request_def get_channel_def streams_def m
          split: prod.splits)
  qed
qed simp_all

lemma step_distinct:
  "distinct (map fst (cn_clients c)) \<Longrightarrow> distinct (map fst (cn_clients (snd (ssh_step L e c))))"
  by (cases e) (auto simp: auth_password_def auth_publickey_def channel_eof_def channel_open_session_def
      subsystem_request_def get_channel_def AList.distinct_update AList.distinct_delete
      split: prod.splits option.splits result.splits)

lemma accounts_add:
  fixes F :: "'a multiset"
  assumes "F + R = S' + M2" and "S' + l = S + M1"
  shows "F + (l + R) = S + (M1 + M2)"
proof -
  have "F + (l + R) = (F + R) + l" by (simp add: ac_simps)
  also have "\<dots> = (S' + l) + M2" by (simp add: assms(1) ac_simps)
  finally show ?thesis by (simp add: assms(2) ac_simps)
qed

lemma run_lost_accounts:
  "distinct (map fst (cn_clients c)) \<Longrightarrow> streams L (snd (ssh_run L es c)) + run_lost L es c
    = streams L c + image_mset (lib_into_stream L) (mset (opened (handled L es c)))"
proof (induction es arbitrary: c)
  case (Cons e es)
  obtain b c' where s: "ssh_step L e c = (b, c')" by (cases "ssh_step L e c")
  have one: "streams L c' + lost L e c = streams L c + image_mset (lib_into_stream L) (mset (opened [e]))"
    using step_lost [OF Cons.prems, of L e] by (simp add: s)
  show ?case
  proof (cases b)
    case True
    have "distinct (map fst (cn_clients c'))" using step_distinct [OF Cons.prems, of L e] by (simp add: s)
    from accounts_add [OF Cons.IH [OF this] one] show ?thesis
      by (simp add: s True opened_Cons [of e "handled L es c'"])
  next
    case False
    then show ?thesis using one by (simp add: s)
  qed
qed (simp add: streams_def)

text \<open>The ids of the stored channels are distinct and none of them is about to be opened.\<close>

definition unopened ::
  "('i, 'ch, 'st, 's, 'x) ssh_library \<Rightarrow> 'ch list \<Rightarrow> ('i, 'ch, 'st, 's) ssh_connection \<Rightarrow> bool" where
  "unopened L chs c \<longleftrightarrow>
     distinct (map fst (cn_clients c) @ map (lib_channel_id L) chs)"

lemma update_absent: "k \<notin> fst ` set m \<Longrightarrow> AList.update k v m = m @ [(k, v)]"
  by (induction m) auto

lemma channel_open_accounts:
  assumes "unopened L (ch # chs) c"
  shows "streams L (snd (channel_open_session L ch c)) = add_mset (lib_into_stream L ch) (streams L c)
    \<and> unopened L chs (snd (channel_open_session L ch c))"
proof -
  have "AList.update (lib_channel_id L ch) ch (cn_clients c) = cn_clients c @ [(lib_channel_id L ch, ch)]"
    using assms by (intro update_absent) (auto simp: unopened_def)
  then show ?thesis using assms by (simp add: channel_open_session_def streams_def unopened_def)
qed

lemma subsystem_accounts:
  assumes "unopened L chs c" and "proceeds (fst (subsystem_request L i name c))"
  shows "streams L (snd (subsystem_request L i name c)) = streams L c
    \<and> unopened L chs (snd (subsystem_request L i name c))"
proof (cases "name = lit ''sftp''")
  case True
  then obtain ch where ch: "map_of (cn_clients c) i = Some ch"
    using assms(2) by (cases "map_of (cn_clients c) i")
      (auto simp: subsystem_request_def get_channel_def proceeds_def)
  then obtain s where ok: "lib_channel_success L i (cn_session c) = (Ok (), s)"
    using assms(2) True by (cases "lib_channel_success L i (cn_session c)")
      (auto simp: subsystem_request_def get_channel_def proceeds_def split: result.splits)
  have "mset (cn_clients c) = add_mset (i, ch) (mset (AList.delete i (cn_clients c)))"
    using delete_found_eq [OF ch] assms(1) by (simp add: unopened_def)
  moreover have "set (map fst (AList.delete i (cn_clients c))) \<subseteq> set (map fst (cn_clients c))"
    by (auto simp: AList.delete_keys)
  moreover have "distinct (map fst (AList.delete i (cn_clients c)))"
    using assms(1) by (simp add: unopened_def AList.distinct_delete)
  ultimately show ?thesis
    using assms(1) by (auto simp: subsystem_request_def get_channel_def True ch ok streams_def unopened_def)
next
  case False
  then show ?thesis using assms(1)
    by (auto simp: subsystem_request_def streams_def unopened_def split: prod.splits)
qed

lemma step_accounts:
  assumes "unopened L (opened [e] @ chs) c" and "fst (ssh_step L e c)"
  shows "streams L (snd (ssh_step L e c)) = streams L c + image_mset (lib_into_stream L) (mset (opened [e]))
    \<and> unopened L chs (snd (ssh_step L e c))"
  using assms
  by (cases e) (simp_all add: channel_open_accounts subsystem_accounts, simp_all add: unopened_def
      auth_password_def auth_publickey_def channel_eof_def split: prod.splits)

text \<open>So with distinct ids nothing is lost before the call that ends the run.\<close>

lemma unopened_distinct: "unopened L chs c \<Longrightarrow> distinct (map fst (cn_clients c))"
  by (simp add: unopened_def)

lemma run_loses_one:
  "unopened L (opened es) c \<Longrightarrow> size (run_lost L es c) \<le> (if fst (ssh_run L es c) then 0 else 1)"
proof (induction es arbitrary: c)
  case (Cons e es)
  obtain b c' where s: "ssh_step L e c = (b, c')" by (cases "ssh_step L e c")
  show ?case
  proof (cases b)
    case True
    have u: "unopened L (opened [e] @ opened es) c" using Cons.prems by (simp only: opened_Cons [of e es])
    have "unopened L (opened es) c'" "streams L c' + lost L e c = streams L c'"
      using step_accounts [OF u] step_lost [OF unopened_distinct [OF u], of L e] by (simp_all add: s True)
    then show ?thesis using Cons.IH [of c'] by (simp add: s True)
  next
    case False
    have "size (lost L e c) \<le> 1" by (cases e) (auto split: option.splits)
    then show ?thesis by (simp add: s False)
  qed
qed simp

section \<open>A channel that is gone\<close>

definition absent :: "'i \<Rightarrow> ('i, 'ch, 'st, 's) ssh_connection \<Rightarrow> bool" where
  "absent i c \<longleftrightarrow> map_of (cn_clients c) i = None"

lemma subsystem_absent:
  assumes "absent i c"
  shows "subsystem_request L i (lit ''sftp'') c = (Panics, c)"
proof -
  have "map_of (cn_clients c) i = None" using assms by (simp add: absent_def)
  moreover from this have "AList.delete i (cn_clients c) = cn_clients c" by (simp add: map_of_eq_None_iff)
  ultimately have "get_channel i c = (None, c)" by (simp add: get_channel_def)
  then show ?thesis by (simp add: subsystem_request_def)
qed

lemma subsystem_removes: "absent i (snd (subsystem_request L i (lit ''sftp'') c))"
  by (auto simp: absent_def subsystem_request_def get_channel_def AList.delete_conv
      split: prod.splits option.splits result.splits)

lemma step_absent:
  assumes "absent i c" and "i \<notin> lib_channel_id L ` set (opened [e])"
  shows "absent i (snd (ssh_step L e c))"
  using assms
  by (cases e) (auto simp: absent_def auth_password_def auth_publickey_def channel_eof_def
      channel_open_session_def subsystem_request_def get_channel_def AList.update_conv AList.delete_conv
      split: prod.splits option.splits result.splits)

lemma run_absent:
  "absent i c \<Longrightarrow> i \<notin> lib_channel_id L ` set (opened es) \<Longrightarrow> absent i (snd (ssh_run L es c))"
proof (induction es arbitrary: c)
  case (Cons e es)
  then have "i \<notin> lib_channel_id L ` set (opened [e])" "i \<notin> lib_channel_id L ` set (opened es)"
    by (auto simp: opened_Cons [of e es])
  with Cons show ?case by (simp only: run_Cons) (simp add: step_absent)
qed simp

section \<open>Properties of the connection\<close>

definition plain_library :: "(nat, nat \<times> pipe, pipe, nat list, unit) ssh_library" where
  "plain_library = \<lparr>lib_channel_id = fst, lib_into_stream = snd,
     lib_close = (\<lambda>i s. (Ok (), s)), lib_channel_success = (\<lambda>i s. (Ok (), s @ [i])),
     lib_channel_failure = (\<lambda>i s. (Ok (), s))\<rparr>"

text \<open>C37: On a connection of the example server every channel is accounted for. Whatever the client does, in
  whatever order and with whatever ids, until a method fails or panics or all is done: the streams
  that are served and those of the channels that wait are those of the channels opened, each as
  often as it was opened, but for the ones that were dropped, because their id was opened again
  while they waited or because the library refused to confirm their subsystem; so none is served
  twice. Every task starts with a session of its own. When no id is opened twice, no channel is
  lost unless a method failed or panicked, and then one at most.\<close>

theorem ssh_channels_served_once:
  "streams L (snd (ssh_run L es (new_client s))) + run_lost L es (new_client s)
     = image_mset (lib_into_stream L) (mset (opened (handled L es (new_client s))))
   \<and> (fst (ssh_run L es (new_client s)) \<longrightarrow> handled L es (new_client s) = es)
   \<and> fresh_tasks (snd (ssh_run L es (new_client s)))
   \<and> (distinct (map (lib_channel_id L) (opened es))
       \<longrightarrow> size (run_lost L es (new_client s)) \<le> (if fst (ssh_run L es (new_client s)) then 0 else 1))"
  using run_lost_accounts [of "new_client s" L es] run_fresh_tasks [of "new_client s" L es]
    run_loses_one [of L es "new_client s"] handled_all [of L es "new_client s"]
  by (simp add: streams_def fresh_tasks_def new_client_def unopened_def)

text \<open>A library that refuses to confirm channel 5.\<close>

definition picky_library :: "(nat, nat \<times> pipe, pipe, nat list, unit) ssh_library" where
  "picky_library = plain_library\<lparr>lib_channel_success := (\<lambda>i s. if i = 5 then (Err (), s) else (Ok (), s @ [i]))\<rparr>"

theorem ssh_channels_served_once_witness:
  "(let p = (\<lambda>n. \<lparr>pipe_in = [n], pipe_out = []\<rparr>);
        es = [ChannelOpen (3, p 1), ChannelOpen (4, p 2), ChannelOpen (5, p 3), SubsystemRequest 3 (lit ''sftp''),
          ChannelEof 4, SubsystemRequest 5 (lit ''sftp''), SubsystemRequest 4 (lit ''sftp'')];
        c = snd (ssh_run picky_library es (new_client []))
    in streams picky_library c + {#p 3#} = {#p 1, p 2, p 3#} \<and> map fst (cn_spawned c) = [p 1] \<and> fresh_tasks c
      \<and> size (run_lost picky_library es (new_client [])) = 1)"
proof -
  let ?p = "\<lambda>n. \<lparr>pipe_in = [n], pipe_out = []\<rparr> :: pipe"
  define es :: "(nat, nat \<times> pipe) ssh_event list" where
    "es = [ChannelOpen (3, ?p 1), ChannelOpen (4, ?p 2), ChannelOpen (5, ?p 3), SubsystemRequest 3 (lit ''sftp''),
      ChannelEof 4, SubsystemRequest 5 (lit ''sftp''), SubsystemRequest 4 (lit ''sftp'')]"
  note run = es_def picky_library_def plain_library_def subsystem_request_def get_channel_def channel_open_session_def
      channel_eof_def proceeds_def new_client_def lit_def
  have "run_lost picky_library es (new_client []) = {#?p 3#}" by (simp add: run)
  moreover have "opened (handled picky_library es (new_client [])) = [(3, ?p 1), (4, ?p 2), (5, ?p 3)]"
    by (simp add: run)
  moreover have "map fst (cn_spawned (snd (ssh_run picky_library es (new_client [])))) = [?p 1]" by (simp add: run)
  moreover have "lib_into_stream picky_library = snd" by (simp add: picky_library_def plain_library_def)
  ultimately show ?thesis
    using ssh_channels_served_once [of picky_library es "[]"] unfolding Let_def es_def [symmetric] by simp
qed

text \<open>Asking for the sftp subsystem a second time on the same channel makes the example server panic,
  whatever happens in between as long as no channel with that id is opened again.\<close>

theorem repeated_subsystem_panics:
  assumes "i \<notin> lib_channel_id L ` set (opened es)"
  shows "fst (subsystem_request L i (lit ''sftp'')
    (snd (ssh_run L es (snd (subsystem_request L i (lit ''sftp'') c))))) = Panics"
  using run_absent [OF subsystem_removes [of i L c] assms] by (simp only: subsystem_absent fst_conv)

theorem repeated_subsystem_panics_witness:
  "fst (subsystem_request plain_library 3 (lit ''sftp'')
     (snd (ssh_run plain_library [ChannelOpen (4, \<lparr>pipe_in = [], pipe_out = []\<rparr>)]
       (snd (subsystem_request plain_library 3 (lit ''sftp'')
         \<lparr>cn_clients = [(3, (3, \<lparr>pipe_in = [], pipe_out = []\<rparr>))], cn_session = [], cn_spawned = []\<rparr>)))))
   = Panics
   \<and> fst (subsystem_request plain_library 3 (lit ''sftp'')
        \<lparr>cn_clients = [(3, (3, \<lparr>pipe_in = [], pipe_out = []\<rparr>))], cn_session = [], cn_spawned = []\<rparr>)
     = Returns (Ok ())"
  by (rule conjI [OF repeated_subsystem_panics])
    (simp_all add: plain_library_def subsystem_request_def get_channel_def)

end
