(* ===== verification/Concurrent.thy ===== *)
theory Concurrent
  imports EndToEnd
begin

text \<open>
  Concurrent calls against the crate's own server: the tasks of one client, the bytes in flight in
  both directions, and the server's loop with a handler, all interleaved step by step. The ghost
  \<open>jw_sent\<close> lists the requests in the order in which they were queued. The calls behave as if the
  handler served the requests one at a time in that order.
\<close>

record 'h joint =
  jw_tasks :: task_state
  jw_up :: bytes
  jw_down :: bytes
  jw_handler :: 'h
  jw_sent :: "(u32 option \<times> packet) list"

definition joint_new :: "'h \<Rightarrow> 'h joint" where
  "joint_new h = \<lparr>jw_tasks = tasks_new, jw_up = [], jw_down = [], jw_handler = h, jw_sent = []\<rparr>"

text \<open>A call begins; the request is on record when it was queued.\<close>

definition joint_begins :: "u32 option \<Rightarrow> packet \<Rightarrow> task_state \<Rightarrow> 'h joint \<Rightarrow> 'h joint" where
  "joint_begins rid q ts w = w\<lparr>jw_tasks := call_begins rid q ts,
     jw_sent := jw_sent w @ (if rs_tx_closed (ts_session ts) then [] else [(rid, q)])\<rparr>"

definition with_session :: "(raw_session \<Rightarrow> raw_session) \<Rightarrow> 'h joint \<Rightarrow> 'h joint" where
  "with_session f w =
     w\<lparr>jw_tasks := (jw_tasks w)\<lparr>ts_session := f (ts_session (jw_tasks w))\<rparr>\<rparr>"

text \<open>
  Steps of the whole: the client's own as in \<^theory_text>\<open>Tasks\<close>, with requests that carry the id
  they are sent under; the write half puts the next data on the wire and stops at a close message;
  the server and the read half each handle one frame once it is complete.
\<close>

inductive joint_step :: "('h, 'e) handler \<Rightarrow> 'h joint \<Rightarrow> 'h joint \<Rightarrow> bool" for H where
  request: "use_next_id (ts_session (jw_tasks w)) = (rid, s) \<Longrightarrow> is_request q \<Longrightarrow>
    packet_request_id q = rid \<Longrightarrow>
    joint_step H w (joint_begins (Some rid) q
      ((jw_tasks w)\<lparr>ts_session := s, ts_started := ts_started (jw_tasks w) + 1\<rparr>) w)"
| initialize: "joint_step H w (joint_begins None (Init init_new)
      ((jw_tasks w)\<lparr>ts_inits := ts_inits (jw_tasks w) + 1\<rparr>) w)"
| return: "(c, rid) \<in> set (ts_waiting (jw_tasks w)) \<Longrightarrow>
    joint_step H w (w\<lparr>jw_tasks := call_ends c rid (jw_tasks w)\<rparr>)"
| transmit: "rs_tx (ts_session (jw_tasks w)) = data # rest \<Longrightarrow> data \<noteq> [] \<Longrightarrow>
    joint_step H w (with_session (rs_tx_update (\<lambda>_. rest)) (w\<lparr>jw_up := jw_up w @ data\<rparr>))"
| serve_one: "process_handler pipe_ops H \<lparr>pipe_in = jw_up w, pipe_out = jw_down w\<rparr> (jw_handler w)
      = (Ok (), p, h) \<Longrightarrow>
    joint_step H w (w\<lparr>jw_up := pipe_in p, jw_down := pipe_out p, jw_handler := h\<rparr>)"
| receive_one: "client_process_handler pipe_ops inner_handler
      \<lparr>pipe_in = jw_down w, pipe_out = jw_up w\<rparr> (ts_session (jw_tasks w)) = (r, p, s) \<Longrightarrow>
    r \<noteq> Err UnexpectedEof \<Longrightarrow>
    joint_step H w (with_session (\<lambda>_. s) (w\<lparr>jw_down := pipe_in p, jw_up := pipe_out p\<rparr>))"
| stop_writing: "joint_step H w (with_session (rs_tx_closed_update (\<lambda>_. True)) w)"
| close: "joint_step H w (with_session drop_session w)"
| count: "joint_step H w (with_session (rs_handles_update (\<lambda>_. n)) w)"
| configure: "joint_step H w (with_session (\<lambda>s. set_timeout t (set_limits l s)) w)"

inductive joint_reachable :: "('h, 'e) handler \<Rightarrow> 'h \<Rightarrow> 'h joint \<Rightarrow> bool" for H h0 where
  initial: "joint_reachable H h0 (joint_new h0)"
| advance: "joint_reachable H h0 w \<Longrightarrow> joint_step H w w' \<Longrightarrow> joint_reachable H h0 w'"

inductive_cases joint_stepE [consumes 1, case_names request initialize return transmit serve_one
    receive_one stop_writing close count configure]: "joint_step H w w'"

section \<open>One frame of a pipe\<close>

lemma read_packet_pipe:
  "frame_fits body \<Longrightarrow> read_packet pipe_ops \<lparr>pipe_in = frame body @ rest, pipe_out = out\<rparr>
     = (Ok body, \<lparr>pipe_in = rest, pipe_out = out\<rparr>)"
  by (simp add: read_packet_def pipe_ops_def pipe_take_def frame_def from_be_to_be unat_of_nat_u32
      frame_fits_def)

lemma read_packet_empty:
  "\<exists>p. read_packet pipe_ops \<lparr>pipe_in = [], pipe_out = out\<rparr> = (Err UnexpectedEof, p)"
  by (simp add: read_packet_def pipe_ops_def pipe_take_def)

lemma process_handler_pipe:
  assumes "frame_fits body"
  shows "process_handler pipe_ops H \<lparr>pipe_in = frame body @ rest, pipe_out = out\<rparr> h
    = (Ok (), \<lparr>pipe_in = rest, pipe_out = out @ frame (packet_body (fst (respond H body h)))\<rparr>,
       snd (respond H body h))"
  by (rule process_handler_read [OF read_packet_pipe [OF assms]]) (simp_all add: pipe_ops_def)

lemma client_process_pipe:
  assumes "frame_fits body"
  shows "\<exists>r. client_process_handler pipe_ops inner_handler
      \<lparr>pipe_in = frame body @ rest, pipe_out = out\<rparr> s
    = (r, \<lparr>pipe_in = rest, pipe_out = out\<rparr>, snd (execute_handler body inner_handler s))"
  by (cases "execute_handler body inner_handler s"; cases "fst (execute_handler body inner_handler s)")
    (simp_all add: client_process_handler_def read_packet_pipe [OF assms])

lemma serve_append:
  "serve H (xs @ ys) h = (fst (serve H xs h) @ fst (serve H ys (snd (serve H xs h))),
     snd (serve H ys (snd (serve H xs h))))"
  by (induction xs arbitrary: h) (simp_all add: serve_Cons)

section \<open>The client alone\<close>

lemma receive_one_executes:
  assumes "client_process_handler pipe_ops inner_handler p s = (r, p', s')" and "r \<noteq> Err UnexpectedEof"
  shows "\<exists>body q. execute_handler body inner_handler s = (q, s')"
proof (cases "frame_bodies (pipe_in p)")
  case Nil
  then show ?thesis
    using pipe_stream.read_packet_Nil [of p] assms by (auto simp: client_process_handler_def)
next
  case (Cons body bodies)
  then show ?thesis
    using pipe_stream.read_packet_Cons [of p body bodies] assms(1)
    by (auto simp: client_process_handler_def split: prod.splits result.splits)
qed

lemma joint_step_tasks:
  assumes "joint_step H w w'"
  shows "jw_tasks w' = jw_tasks w \<or> task_step (jw_tasks w) (jw_tasks w')"
  using assms
proof (cases rule: joint_stepE)
  case (receive_one r p s)
  obtain body q where "execute_handler body inner_handler (ts_session (jw_tasks w)) = (q, s)"
    using receive_one_executes [OF receive_one(2,3)] by blast
  from task_step.receive [OF this] show ?thesis by (simp add: receive_one(1) with_session_def)
next
  case (request s q)
  from task_step.begin_request [OF request(2)] show ?thesis by (simp add: request(1) joint_begins_def)
next
  case initialize
  from task_step.begin_init show ?thesis unfolding initialize joint_begins_def by simp
qed (auto simp: with_session_def intro: task_step.intros)

lemma joint_tasks_reachable: "joint_reachable H h0 w \<Longrightarrow> task_reachable (jw_tasks w)"
proof (induction rule: joint_reachable.induct)
  case initial
  show ?case using task_reachable.initial by (simp add: joint_new_def)
next
  case (advance w w')
  then show ?case using joint_step_tasks [OF advance.hyps(2)] by (auto intro: task_reachable.advance)
qed

section \<open>Replies\<close>

text \<open>Every packet that a call got or has waiting is the one that \<open>A\<close> assigns to its id.\<close>

definition replies_in :: "(u32 option \<times> packet) set \<Rightarrow> task_state \<Rightarrow> bool" where
  "replies_in A ts \<longleftrightarrow>
     (\<forall>(c, rid) \<in> set (ts_waiting ts). \<forall>p. rs_inbox (ts_session ts) c = Some (Ok p) \<longrightarrow> (rid, p) \<in> A)
   \<and> (\<forall>(rid, r) \<in> set (ts_done ts). \<forall>p. r = Ok p \<longrightarrow> (rid, p) \<in> A)"

lemma replies_inD:
  assumes "replies_in A ts"
  shows "\<And>c rid p. (c, rid) \<in> set (ts_waiting ts) \<Longrightarrow> rs_inbox (ts_session ts) c = Some (Ok p)
      \<Longrightarrow> (rid, p) \<in> A"
    and "\<And>rid p. (rid, Ok p) \<in> set (ts_done ts) \<Longrightarrow> (rid, p) \<in> A"
  using assms unfolding replies_in_def by blast+

lemma replies_inI:
  assumes "\<And>c rid p. (c, rid) \<in> set (ts_waiting ts) \<Longrightarrow> rs_inbox (ts_session ts) c = Some (Ok p)
      \<Longrightarrow> (rid, p) \<in> A"
    and "\<And>rid p. (rid, Ok p) \<in> set (ts_done ts) \<Longrightarrow> (rid, p) \<in> A"
  shows "replies_in A ts"
  using assms unfolding replies_in_def by blast

lemma replies_in_mono: "replies_in A ts \<Longrightarrow> A \<subseteq> B \<Longrightarrow> replies_in B ts"
  by (intro replies_inI) (blast dest: replies_inD)+

lemma replies_in_cong:
  assumes "replies_in A ts" and "ts_waiting ts' = ts_waiting ts" and "ts_done ts' = ts_done ts"
    and "rs_inbox (ts_session ts') = rs_inbox (ts_session ts)"
  shows "replies_in A ts'"
  using assms by (simp add: replies_in_def)

lemma begin_send_inbox: "begin_send rid p s = (Ok c, s') \<Longrightarrow> c = rs_channels s \<and> rs_inbox s' = rs_inbox s"
  by (auto simp: begin_send_def tx_send_def Let_def split: if_splits result.splits)

lemma begin_send_refused: "begin_send rid p s = (Err e, s') \<Longrightarrow> rs_tx_closed s \<and> s' = s"
  by (auto simp: begin_send_def bytes_of_packet_frame tx_send_def Let_def split: if_splits)

lemma begins_replies:
  assumes "tasks_ok ts" and "replies_in A ts"
  shows "replies_in A (call_begins rid p ts)"
proof (cases "begin_send rid p (ts_session ts)")
  case (Pair r s)
  note D = session_okD [OF assms(1) [unfolded tasks_ok_def, THEN conjunct1]] and R = replies_inD [OF assms(2)]
  have "rs_inbox (ts_session ts) (rs_channels (ts_session ts)) = None" using D(6,7) by fastforce
  then show ?thesis
    using Pair R begin_send_inbox begin_send_refused
    by (cases r; intro replies_inI) (fastforce simp: call_begins_def)+
qed

lemma end_send_effect:
  "end_send rid c s = (r, s') \<Longrightarrow> rs_inbox s' = (rs_inbox s)(c := None)
    \<and> (\<forall>p. r = Ok p \<longrightarrow> rs_inbox s c = Some (Ok p))"
  by (auto simp: end_send_def drop_receiver_def Let_def split: option.splits)

lemma ends_replies:
  assumes "replies_in A ts" and "(c, rid) \<in> set (ts_waiting ts)"
  shows "replies_in A (call_ends c rid ts)"
proof (cases "end_send rid c (ts_session ts)")
  case (Pair r s)
  note R = replies_inD [OF assms(1)]
  from end_send_effect [OF Pair] R assms(2) Pair show ?thesis
    by (intro replies_inI) (fastforce simp: call_ends_def split: if_splits)+
qed

lemma session_reply_inbox:
  assumes "rs_inbox (snd (session_reply rid p s)) c = Some (Ok p')" and "session_ok s w" and "(c, rid') \<in> set w"
  shows "rs_inbox s c = Some (Ok p') \<or> p' = p \<and> rid' = rid"
proof (cases "map_of (rs_requests s) rid")
  case None
  then show ?thesis using assms(1) by (simp add: session_reply_def)
next
  case (Some c')
  have entry: "(rid, c') \<in> set (rs_requests s)" using Some by (rule map_of_SomeD)
  note D = session_okD [OF assms(2)]
  have "rid' = rid" if "c = c'"
  proof -
    have "(c, rid) \<in> set w" using D(4) [OF entry] D(5) [OF assms(3)] that by blast
    then show ?thesis using eq_key_imp_eq_value [OF D(3)] assms(3) by blast
  qed
  then show ?thesis
    using assms(1) Some by (auto simp: session_reply_def try_send_def Let_def split: if_splits)
qed

lemma receive_replies:
  assumes "tasks_ok ts" and "replies_in A ts" and parse: "packet_try_from body = Ok (p, rest)"
    and new: "\<And>c rid. (c, rid) \<in> set (ts_waiting ts) \<Longrightarrow> matches rid p \<Longrightarrow> (rid, p) \<in> A"
  shows "replies_in A (ts\<lparr>ts_session := snd (execute_handler body inner_handler (ts_session ts))\<rparr>)"
proof (rule replies_inI; simp)
  note R = replies_inD [OF assms(2)]
  have ok: "session_ok (ts_session ts) (ts_waiting ts)" using assms(1) by (simp add: tasks_ok_def)
  show "(rid, p') \<in> A" if "(rid, Ok p') \<in> set (ts_done ts)" for rid p' using R(2) that .
  fix c rid p'
  assume w: "(c, rid) \<in> set (ts_waiting ts)"
    and "rs_inbox (snd (execute_handler body inner_handler (ts_session ts))) c = Some (Ok p')"
  then have "rs_inbox (ts_session ts) c = Some (Ok p') \<or> p' = p \<and> matches rid p"
    using execute_inner [of body "ts_session ts"] parse
    by (auto dest: session_reply_inbox [OF _ ok w] simp del: matches.simps)
  then show "(rid, p') \<in> A" using R(1) [OF w] new [OF w] by blast
qed

section \<open>The invariant of the whole\<close>

text \<open>The requests the client makes: the initialization, and those that carry the id they go under.\<close>

fun legal :: "u32 option \<times> packet \<Rightarrow> bool" where
  "legal (None, q) \<longleftrightarrow> q = Init init_new"
| "legal (Some i, q) \<longleftrightarrow> is_request q \<and> packet_request_id q = i"

text \<open>A sequential server: what the handler, begun in \<open>h0\<close>, answers to requests one after the other.\<close>

definition sequential :: "('h, 'e) handler \<Rightarrow> 'h \<Rightarrow> (u32 option \<times> packet) list \<Rightarrow> packet list \<times> 'h" where
  "sequential H h0 sent = handle_all H (map (norm_packet \<circ> snd) sent) h0"

definition replies_to :: "('h, 'e) handler \<Rightarrow> 'h \<Rightarrow> (u32 option \<times> packet) list \<Rightarrow> (u32 option \<times> packet) list" where
  "replies_to H h0 sent = zip (map fst sent) (map norm_packet (fst (sequential H h0 sent)))"

text \<open>The requests a session still expects a reply to.\<close>

definition outstanding :: "u32 option set \<Rightarrow> raw_session \<Rightarrow> bool" where
  "outstanding K s \<longleftrightarrow> fst ` set (rs_requests s) - {None} \<subseteq> K"

definition joint_ok :: "('h, 'e) handler \<Rightarrow> 'h \<Rightarrow> 'h joint \<Rightarrow> bool" where
  "joint_ok H h0 w \<longleftrightarrow>
     list_all legal (jw_sent w) \<and> distinct (map fst (jw_sent w))
   \<and> (\<forall>x \<in> set (jw_sent w). id_below (jw_tasks w) (fst x))
   \<and> (\<exists>served flight queued got pending.
        jw_sent w = served @ flight @ queued
      \<and> jw_up w = frames_of (map snd flight)
      \<and> filter (\<lambda>data. data \<noteq> []) (rs_tx (ts_session (jw_tasks w)))
          = map (\<lambda>x. frame (packet_body (snd x))) queued
      \<and> sequential H h0 served = (got @ pending, jw_handler w)
      \<and> jw_down w = frames_of pending
      \<and> replies_in (set (replies_to H h0 served)) (jw_tasks w)
      \<and> outstanding (fst ` set (drop (length got) (jw_sent w))) (ts_session (jw_tasks w)))"

text \<open>Runs short enough for fresh ids, with requests and answers that fit a frame.\<close>

definition bounded :: "('h, 'e) handler \<Rightarrow> 'h \<Rightarrow> 'h joint \<Rightarrow> bool" where
  "bounded H h0 w \<longleftrightarrow> ts_started (jw_tasks w) < 2 ^ 32 \<and> ts_inits (jw_tasks w) \<le> 1
     \<and> list_all (\<lambda>x. sendable (snd x)) (jw_sent w)
     \<and> list_all sendable (fst (sequential H h0 (jw_sent w)))"

lemma handle_all_append:
  "handle_all H (xs @ ys) h = (fst (handle_all H xs h) @ fst (handle_all H ys (snd (handle_all H xs h))),
     snd (handle_all H ys (snd (handle_all H xs h))))"
  by (induction xs arbitrary: h) (simp_all add: case_prod_unfold Let_def)

lemma sequential_append:
  "sequential H h0 (xs @ ys) = (fst (sequential H h0 xs) @ fst (sequential H (snd (sequential H h0 xs)) ys),
     snd (sequential H (snd (sequential H h0 xs)) ys))"
  by (simp add: sequential_def handle_all_append)

lemma sequential_one:
  "sequential H h [x] = ([fst (process_request H (norm_packet (snd x)) h)],
     snd (process_request H (norm_packet (snd x)) h))"
  by (simp add: sequential_def case_prod_unfold Let_def)

lemma length_sequential [simp]: "length (fst (sequential H h0 sent)) = length sent"
proof -
  have "length (fst (handle_all H qs h)) = length qs" for qs h
    by (induction qs arbitrary: h) (simp_all add: case_prod_unfold Let_def)
  then show ?thesis by (simp add: sequential_def)
qed

lemma replies_to_append:
  "replies_to H h0 (xs @ ys) = replies_to H h0 xs @ replies_to H (snd (sequential H h0 xs)) ys"
  by (simp add: replies_to_def sequential_append zip_append)

lemma sequential_nth:
  "k < length sent \<Longrightarrow>
     \<exists>h. fst (sequential H h0 sent) ! k = fst (process_request H (norm_packet (snd (sent ! k))) h)"
proof (induction sent rule: rev_induct)
  case (snoc x sent)
  then show ?case
    by (cases "k < length sent")
      (auto simp: sequential_append sequential_one nth_append less_Suc_eq)
qed simp

context echo_handler
begin

lemma answer_id:
  "legal (Some i, q) \<Longrightarrow>
     response_id (norm_packet (fst (process_request H (norm_packet q) h))) = Some i"
  using process_request_echo [of "norm_packet q" h]
  by (simp add: is_request_norm request_id_norm response_id_norm)

lemma answer_key:
  assumes "legal (rid, q)" and "matches rid' (norm_packet (fst (process_request H (norm_packet q) h)))"
  shows "rid' = rid \<or> rid' = Some 0 \<and> rid = None"
proof (cases rid)
  case (Some i)
  then show ?thesis using assms answer_id [of i q h] by (cases rid') auto
next
  case None
  then show ?thesis
    using assms process_request_init [of init_new h]
    by (cases rid') (auto simp: packet_error_def packet_status_def)
qed

end

lemma joint_okI:
  assumes "list_all legal (jw_sent w)" and "distinct (map fst (jw_sent w))"
    and "\<And>x. x \<in> set (jw_sent w) \<Longrightarrow> id_below (jw_tasks w) (fst x)"
    and "jw_sent w = served @ flight @ queued" and "jw_up w = frames_of (map snd flight)"
    and "filter (\<lambda>data. data \<noteq> []) (rs_tx (ts_session (jw_tasks w)))
          = map (\<lambda>x. frame (packet_body (snd x))) queued"
    and "sequential H h0 served = (got @ pending, jw_handler w)" and "jw_down w = frames_of pending"
    and "replies_in (set (replies_to H h0 served)) (jw_tasks w)"
    and "outstanding (fst ` set (drop (length got) (jw_sent w))) (ts_session (jw_tasks w))"
  shows "joint_ok H h0 w"
  using assms unfolding joint_ok_def by blast

lemma joint_okE:
  assumes "joint_ok H h0 w"
  obtains served flight queued got pending where
    "list_all legal (jw_sent w)" "distinct (map fst (jw_sent w))"
    "\<And>x. x \<in> set (jw_sent w) \<Longrightarrow> id_below (jw_tasks w) (fst x)"
    "jw_sent w = served @ flight @ queued" "jw_up w = frames_of (map snd flight)"
    "filter (\<lambda>data. data \<noteq> []) (rs_tx (ts_session (jw_tasks w)))
          = map (\<lambda>x. frame (packet_body (snd x))) queued"
    "sequential H h0 served = (got @ pending, jw_handler w)" "jw_down w = frames_of pending"
    "replies_in (set (replies_to H h0 served)) (jw_tasks w)"
    "outstanding (fst ` set (drop (length got) (jw_sent w))) (ts_session (jw_tasks w))"
  using assms unfolding joint_ok_def by blast

lemma outstanding_mono:
  assumes "outstanding K s" and "fst ` set (rs_requests s') \<subseteq> fst ` set (rs_requests s) \<union> N"
    and "K \<union> N \<subseteq> K'"
  shows "outstanding K' s'"
  using assms unfolding outstanding_def by blast

lemma id_below_calls:
  "id_below (call_begins rid q ts) rid' = id_below ts rid'"
  "id_below (call_ends c rid ts) rid' = id_below ts rid'"
  by (auto simp: call_begins_def call_ends_def split: prod.split result.split)

lemma joint_ok_session:
  assumes "joint_ok H h0 w" and "rs_inbox (f (ts_session (jw_tasks w))) = rs_inbox (ts_session (jw_tasks w))"
    and "filter (\<lambda>data. data \<noteq> []) (rs_tx (f (ts_session (jw_tasks w))))
      = filter (\<lambda>data. data \<noteq> []) (rs_tx (ts_session (jw_tasks w)))"
    and "rs_requests (f (ts_session (jw_tasks w))) = rs_requests (ts_session (jw_tasks w))"
  shows "joint_ok H h0 (with_session f w)"
  using assms(1)
proof (cases rule: joint_okE)
  case (1 served flight queued got pending)
  show ?thesis
    by (rule joint_okI [of _ served flight queued _ _ got pending])
      (use 1 assms(2,3,4) in \<open>auto simp: with_session_def outstanding_def elim!: replies_in_cong\<close>)
qed

lemma joint_begins_ok:
  assumes "joint_ok H h0 w" and "tasks_ok ts" and "legal (rid, q)"
    and same: "ts_waiting ts = ts_waiting (jw_tasks w)" "ts_done ts = ts_done (jw_tasks w)"
      "rs_inbox (ts_session ts) = rs_inbox (ts_session (jw_tasks w))"
      "rs_tx (ts_session ts) = rs_tx (ts_session (jw_tasks w))"
      "rs_requests (ts_session ts) = rs_requests (ts_session (jw_tasks w))"
    and ids: "\<And>rid. id_below (jw_tasks w) rid \<Longrightarrow> id_below ts rid" "\<not> id_below (jw_tasks w) rid" "id_below ts rid"
  shows "joint_ok H h0 (joint_begins rid q ts w)"
  using assms(1)
proof (cases rule: joint_okE)
  case (1 served flight queued got pending)
  let ?new = "if rs_tx_closed (ts_session ts) then [] else [(rid, q)]"
  have tx: "rs_tx (ts_session (call_begins rid q ts))
      = rs_tx (ts_session ts) @ map (\<lambda>x. frame (packet_body (snd x))) ?new"
    by (auto simp: call_begins_def begin_send_def bytes_of_packet_frame tx_send_def Let_def)
  have keys: "fst ` set (rs_requests (ts_session (call_begins rid q ts)))
      \<subseteq> fst ` set (rs_requests (ts_session (jw_tasks w))) \<union> fst ` set ?new"
    unfolding same(5) [symmetric]
    by (auto simp: call_begins_def begin_send_def bytes_of_packet_frame tx_send_def dom_update
        Let_def)
  have "length got \<le> length (jw_sent w)"
    using arg_cong [OF 1(7), of "\<lambda>x. length (fst x)"] 1(4) by simp
  then have "fst ` set (drop (length got) (jw_sent w)) \<union> fst ` set ?new
      \<subseteq> fst ` set (drop (length got) (jw_sent w @ ?new))"
    by (simp add: image_Un)
  from outstanding_mono [OF 1(10) keys this]
  have out: "outstanding (fst ` set (drop (length got) (jw_sent w @ ?new)))
      (ts_session (call_begins rid q ts))" .
  have "replies_in (set (replies_to H h0 served)) ts"
    using 1(9) same by (auto elim: replies_in_cong)
  then have replies: "replies_in (set (replies_to H h0 served)) (call_begins rid q ts)"
    by (rule begins_replies [OF assms(2)])
  show ?thesis
  proof (rule joint_okI [of _ served flight "queued @ ?new" _ _ got pending])
    show "distinct (map fst (jw_sent (joint_begins rid q ts w)))"
      using 1(2,3) ids(2) by (auto simp: joint_begins_def)
    show "filter (\<lambda>data. data \<noteq> []) (rs_tx (ts_session (jw_tasks (joint_begins rid q ts w))))
        = map (\<lambda>x. frame (packet_body (snd x))) (queued @ ?new)"
      using 1(6) same(4) tx by (simp add: joint_begins_def frame_nonempty)
  qed (use 1 assms(3) ids replies out in \<open>auto simp: joint_begins_def id_below_calls split: if_splits\<close>)
qed

lemma joint_return_ok:
  assumes "joint_ok H h0 w" and "(c, rid) \<in> set (ts_waiting (jw_tasks w))"
  shows "joint_ok H h0 (w\<lparr>jw_tasks := call_ends c rid (jw_tasks w)\<rparr>)"
  using assms(1)
proof (cases rule: joint_okE)
  case (1 served flight queued got pending)
  have "rs_tx (ts_session (call_ends c rid (jw_tasks w))) = rs_tx (ts_session (jw_tasks w))"
    by (auto simp: call_ends_def end_send_def drop_receiver_def Let_def split: option.split)
  moreover have "fst ` set (rs_requests (ts_session (call_ends c rid (jw_tasks w))))
      \<subseteq> fst ` set (rs_requests (ts_session (jw_tasks w))) \<union> {}"
    by (auto simp: call_ends_def end_send_def drop_receiver_def delete_facts Let_def split: option.split)
  from outstanding_mono [OF 1(10) this subset_refl [unfolded Un_empty_right]]
  have "outstanding (fst ` set (drop (length got) (jw_sent w))) (ts_session (call_ends c rid (jw_tasks w)))"
    by simp
  ultimately show ?thesis
    by (intro joint_okI [of _ served flight queued _ _ got pending])
      (use 1 ends_replies [OF 1(9) assms(2)] in \<open>auto simp: id_below_calls\<close>)
qed

lemma joint_transmit_ok:
  assumes "joint_ok H h0 w" and "rs_tx (ts_session (jw_tasks w)) = data # rest" and "data \<noteq> []"
  shows "joint_ok H h0 (with_session (rs_tx_update (\<lambda>_. rest)) (w\<lparr>jw_up := jw_up w @ data\<rparr>))"
  using assms(1)
proof (cases rule: joint_okE)
  case (1 served flight queued got pending)
  obtain x queued' where q: "queued = x # queued'" "data = frame (packet_body (snd x))"
      "filter (\<lambda>data. data \<noteq> []) rest = map (\<lambda>x. frame (packet_body (snd x))) queued'"
    using 1(6) assms(2,3) by auto
  show ?thesis
    by (rule joint_okI [of _ served "flight @ [x]" queued' _ _ got pending])
      (use 1 q in \<open>auto simp: with_session_def frames_of_def outstanding_def elim!: replies_in_cong\<close>)
qed

lemma joint_serve_ok:
  assumes "joint_ok H h0 w" and "bounded H h0 w"
    and "process_handler pipe_ops H \<lparr>pipe_in = jw_up w, pipe_out = jw_down w\<rparr> (jw_handler w) = (Ok (), p, h)"
  shows "joint_ok H h0 (w\<lparr>jw_up := pipe_in p, jw_down := pipe_out p, jw_handler := h\<rparr>)"
  using assms(1)
proof (cases rule: joint_okE)
  case (1 served flight queued got pending)
  show ?thesis
  proof (cases flight)
    case Nil
    then have "\<exists>p. read_packet pipe_ops \<lparr>pipe_in = jw_up w, pipe_out = jw_down w\<rparr> = (Err UnexpectedEof, p)"
      using 1(5) read_packet_empty by simp
    then show ?thesis using assms(3) by (auto simp: process_handler_def)
  next
    case (Cons x flight')
    let ?q = "norm_packet (snd x)"
    have x: "sendable (snd x)" using assms(2) 1(4) Cons by (simp add: bounded_def)
    then have "respond H (packet_body (snd x)) (jw_handler w) = process_request H ?q (jw_handler w)"
      using packet_try_from_body by (simp add: sendable_def respond_def)
    then have p: "p = \<lparr>pipe_in = frames_of (map snd flight'),
        pipe_out = jw_down w @ frame (packet_body (fst (process_request H ?q (jw_handler w))))\<rparr>"
      and h: "h = snd (process_request H ?q (jw_handler w))"
      using assms(3) 1(5) Cons x process_handler_pipe [of "packet_body (snd x)" H _ _ "jw_handler w"]
      by (simp_all add: sendable_def)
    show ?thesis
    proof (rule joint_okI [of _ "served @ [x]" flight' queued _ _ got
          "pending @ [fst (process_request H ?q (jw_handler w))]"])
      show "replies_in (set (replies_to H h0 (served @ [x])))
          (jw_tasks (w\<lparr>jw_up := pipe_in p, jw_down := pipe_out p, jw_handler := h\<rparr>))"
        using replies_in_mono [OF 1(9)] by (simp add: replies_to_append)
    qed (use 1 Cons p h in \<open>auto simp: frames_of_def sequential_append sequential_one\<close>)
  qed
qed

lemma receive_keeps_queue: "rs_tx (snd (execute_handler body inner_handler s)) = rs_tx s"
proof -
  have "rs_tx (snd (session_reply rid p s)) = rs_tx s" for rid p
    by (auto simp: session_reply_def try_send_def Let_def split: option.splits prod.splits result.splits if_splits)
  then show ?thesis using execute_inner [of body s] by auto
qed

lemma session_reply_requests:
  "fst ` set (rs_requests (snd (session_reply rid p s))) \<subseteq> fst ` set (rs_requests s) - {rid}"
proof (cases "map_of (rs_requests s) rid")
  case None
  then have "rid \<notin> fst ` set (rs_requests s)" by (simp add: map_of_eq_None_iff)
  with None show ?thesis by (simp add: session_reply_def)
next
  case (Some c)
  then show ?thesis
    by (auto simp: session_reply_def try_send_def delete_facts Let_def split: prod.splits if_splits)
qed

lemma receive_requests:
  assumes "packet_try_from body = Ok (p, rest)"
  shows "fst ` set (rs_requests (snd (execute_handler body inner_handler s)))
    \<subseteq> fst ` set (rs_requests s) - (case response_id p of None \<Rightarrow> {} | Some i \<Rightarrow> {Some i})"
  using execute_inner [of body s]
proof (elim disjE exE conjE)
  fix r rid p' rest'
  assume ex: "execute_handler body inner_handler s = (r, snd (session_reply rid p' s))"
    and m: "matches rid p'" and "packet_try_from body = Ok (p', rest')"
  then have "p' = p" using assms by simp
  then have "(case response_id p of None \<Rightarrow> {} | Some i \<Rightarrow> {Some i}) \<subseteq> {rid}"
    using m by (cases rid) auto
  then show ?thesis using session_reply_requests [of rid p' s] ex by auto
qed (use assms session_reply_requests [of None _ s] in \<open>auto split: option.splits\<close>)

lemma id_zero_unused: "ts_started ts < 2 ^ 32 \<Longrightarrow> \<not> id_below ts (Some 0)"
proof -
  assume "ts_started ts < 2 ^ 32"
  moreover have "unat (0 - 1 :: u32) = 2 ^ 32 - 1" by (simp add: unsigned_minus_1_eq_mask mask_eq_exp_minus_1)
  ultimately show ?thesis by (simp add: id_below_def)
qed

context echo_handler
begin

lemma joint_receive_ok:
  assumes "joint_ok H h0 w" and "bounded H h0 w" and "tasks_ok (jw_tasks w)" and "fresh_ok (jw_tasks w)"
    and "client_process_handler pipe_ops inner_handler \<lparr>pipe_in = jw_down w, pipe_out = jw_up w\<rparr>
        (ts_session (jw_tasks w)) = (r, p, s)" and "r \<noteq> Err UnexpectedEof"
  shows "joint_ok H h0 (with_session (\<lambda>_. s) (w\<lparr>jw_down := pipe_in p, jw_up := pipe_out p\<rparr>))"
  using assms(1)
proof (cases rule: joint_okE)
  case (1 served flight queued got pending)
  show ?thesis
  proof (cases pending)
    case Nil
    then have "\<exists>p. read_packet pipe_ops \<lparr>pipe_in = jw_down w, pipe_out = jw_up w\<rparr> = (Err UnexpectedEof, p)"
      using 1(8) read_packet_empty by simp
    then show ?thesis using assms(5,6) by (auto simp: client_process_handler_def)
  next
    case (Cons a pending')
    let ?ts = "jw_tasks w"
    have got: "fst (sequential H h0 served) = got @ a # pending'" using 1(7) Cons by simp
    have k: "length got < length served" using arg_cong [OF got, of length] by simp
    have a: "sendable a" using assms(2) 1(4) got by (simp add: bounded_def sequential_append)
    then have parse: "packet_try_from (packet_body a) = Ok (norm_packet a, [])"
      and fits: "frame_fits (packet_body a)"
      using packet_try_from_body by (auto simp: sendable_def)
    have p: "p = \<lparr>pipe_in = frames_of pending', pipe_out = jw_up w\<rparr>"
      and s: "s = snd (execute_handler (packet_body a) inner_handler (ts_session ?ts))"
      using assms(5) 1(8) Cons client_process_pipe [OF fits, of "frames_of pending'" "jw_up w" "ts_session ?ts"]
      by auto
    obtain rid q where x: "served ! length got = (rid, q)" by fastforce
    obtain h where h: "a = fst (process_request H (norm_packet q) h)"
      using sequential_nth [OF k, of H h0] got x by auto
    have "(rid, q) \<in> set served" using nth_mem [OF k] x by simp
    then have legal: "legal (rid, q)" using 1(1,4) by (simp add: list_all_iff)
    have mem: "(rid, norm_packet a) \<in> set (replies_to H h0 served)"
      using k x got by (auto simp: replies_to_def set_zip nth_append intro!: exI [of _ "length got"])
    have "replies_in (set (replies_to H h0 served)) (?ts\<lparr>ts_session := s\<rparr>)"
      unfolding s
    proof (rule receive_replies [OF assms(3) 1(9) parse])
      fix c rid'
      assume "(c, rid') \<in> set (ts_waiting ?ts)" and "matches rid' (norm_packet a)"
      then have "rid' = rid \<or> rid' = Some 0" and "id_below ?ts rid'"
        using answer_key [OF legal, of rid' h] h fresh_okD(3) [OF assms(4)] by blast+
      moreover have "\<not> id_below ?ts (Some 0)" using id_zero_unused assms(2) by (simp add: bounded_def)
      ultimately have "rid' = rid" by blast
      then show "(rid', norm_packet a) \<in> set (replies_to H h0 served)" using mem by simp
    qed
    moreover have "rs_tx s = rs_tx (ts_session ?ts)" by (simp add: s receive_keeps_queue)
    moreover have "outstanding (fst ` set (drop (Suc (length got)) (jw_sent w))) s"
    proof -
      have "length got < length (jw_sent w)" "jw_sent w ! length got = (rid, q)"
        using k x 1(4) by (simp_all add: nth_append)
      then have "drop (length got) (jw_sent w) = (rid, q) # drop (Suc (length got)) (jw_sent w)"
        by (metis Cons_nth_drop_Suc)
      then have "fst ` set (rs_requests (ts_session ?ts)) - {None}
          \<subseteq> insert rid (fst ` set (drop (Suc (length got)) (jw_sent w)))"
        using 1(10) by (simp add: outstanding_def)
      moreover have "rid = Some i \<Longrightarrow> response_id (norm_packet a) = Some i" for i
        using answer_id legal h by simp
      ultimately show ?thesis
        using receive_requests [OF parse, of "ts_session ?ts"]
        by (cases rid; simp add: outstanding_def s) blast+
    qed
    ultimately show ?thesis
      using 1 Cons p
      by (intro joint_okI [of _ served flight queued _ _ "got @ [a]" pending']) (auto simp: with_session_def)
  qed
qed

end

lemma joint_step_sent: "joint_step H w w' \<Longrightarrow> \<exists>new. jw_sent w' = jw_sent w @ new"
  by (cases rule: joint_stepE) (auto simp: joint_begins_def with_session_def)

lemma joint_step_bounded:
  assumes "joint_step H w w'" and "bounded H h0 w'"
  shows "bounded H h0 w"
proof -
  obtain new where "jw_sent w' = jw_sent w @ new" using joint_step_sent [OF assms(1)] by blast
  moreover have "ts_started (jw_tasks w) \<le> ts_started (jw_tasks w')"
      "ts_inits (jw_tasks w) \<le> ts_inits (jw_tasks w')"
    using joint_step_tasks [OF assms(1)] task_step_counts by auto
  ultimately show ?thesis using assms(2) by (auto simp: bounded_def sequential_append)
qed

text \<open>New requests go out under ids that no earlier one had.\<close>

lemma request_fresh:
  assumes "fresh_ok ts" and "use_next_id (ts_session ts) = (rid, s)" and "ts_started ts < 2 ^ 32"
  defines "ts' \<equiv> ts\<lparr>ts_session := s, ts_started := ts_started ts + 1\<rparr>"
  shows "\<not> id_below ts (Some rid)" and "id_below ts' (Some rid)"
    and "id_below ts rid' \<Longrightarrow> id_below ts' rid'"
proof -
  have "rid = 1 + of_nat (ts_started ts)"
    using fresh_okD(2) [OF assms(1)] assms(2) by (simp add: use_next_id_def)
  with fresh_id [OF assms(3)] show "\<not> id_below ts (Some rid)" and "id_below ts' (Some rid)"
    by (simp_all add: id_below_def ts'_def)
  show "id_below ts rid' \<Longrightarrow> id_below ts' rid'"
    by (auto simp: id_below_def ts'_def split: option.splits)
qed

context echo_handler
begin

lemma joint_step_ok:
  assumes "joint_step H w w'" and "joint_ok H h0 w" and "bounded H h0 w'"
    and ok: "tasks_ok (jw_tasks w)" and fresh: "fresh_ok (jw_tasks w)"
  shows "joint_ok H h0 w'"
  using assms(1)
proof (cases rule: joint_stepE)
  case (request s q)
  have few: "ts_started (jw_tasks w) < 2 ^ 32"
    using joint_step_bounded [OF assms(1,3)] by (simp add: bounded_def)
  have "tasks_ok ((jw_tasks w)\<lparr>ts_session := s, ts_started := ts_started (jw_tasks w) + 1\<rparr>)"
    using ok request(2) by (auto simp: tasks_ok_def use_next_id_def elim!: session_ok_cong)
  from joint_begins_ok [OF assms(2) this, of "Some (packet_request_id q)" q]
    request_fresh [OF fresh request(2) few] request(2,3)
  show ?thesis unfolding request(1) by (auto simp: use_next_id_def)
next
  case initialize
  have "ts_inits (jw_tasks w) = 0"
    using assms(3) unfolding initialize
    by (auto simp: bounded_def joint_begins_def call_begins_def split: prod.splits result.splits)
  then show ?thesis
    unfolding initialize
    by (intro joint_begins_ok [OF assms(2)])
      (use ok in \<open>auto simp: tasks_ok_def id_below_def split: option.splits\<close>)
next
  case (return c rid)
  then show ?thesis using joint_return_ok [OF assms(2)] by simp
next
  case (transmit data rest)
  then show ?thesis using joint_transmit_ok [OF assms(2)] by simp
next
  case (serve_one p h)
  then show ?thesis using joint_serve_ok [OF assms(2) joint_step_bounded [OF assms(1,3)]] by simp
next
  case (receive_one r p s)
  then show ?thesis
    using joint_receive_ok [OF assms(2) joint_step_bounded [OF assms(1,3)] ok fresh] by simp
next
  case stop_writing
  then show ?thesis using joint_ok_session [OF assms(2)] by simp
next
  case close
  then show ?thesis
    using joint_ok_session [OF assms(2)] by (simp add: drop_session_def close_session_def tx_send_def)
next
  case (count n)
  then show ?thesis using joint_ok_session [OF assms(2)] by simp
next
  case (configure t l)
  then show ?thesis using joint_ok_session [OF assms(2)] by (simp add: set_timeout_def set_limits_def)
qed

lemma joint_reachable_ok:
  "joint_reachable H h0 w \<Longrightarrow> bounded H h0 w \<Longrightarrow> joint_ok H h0 w"
proof (induction rule: joint_reachable.induct)
  case initial
  show ?case
    by (intro joint_okI [of "joint_new h0" "[]" "[]" "[]" H h0 "[]" "[]"])
      (simp_all add: joint_new_def tasks_new_def raw_new_def sequential_def replies_in_def
        outstanding_def)
next
  case (advance w w')
  have bounded: "bounded H h0 w" by (rule joint_step_bounded [OF advance.hyps(2) advance.prems])
  have reach: "task_reachable (jw_tasks w)" by (rule joint_tasks_reachable [OF advance.hyps(1)])
  show ?case
  proof (rule joint_step_ok [OF advance.hyps(2) advance.IH [OF bounded] advance.prems])
    show "tasks_ok (jw_tasks w)" by (rule task_reachable_ok [OF reach])
    show "fresh_ok (jw_tasks w)"
      by (rule task_reachable_fresh [OF reach]) (use bounded in \<open>simp_all add: bounded_def\<close>)
  qed
qed

end

section \<open>A reply that is an error\<close>

text \<open>A request gets an error in place of a packet only when the version is not known yet.\<close>

definition errors_ok :: "task_state \<Rightarrow> bool" where
  "errors_ok ts \<longleftrightarrow> (\<forall>(c, rid) \<in> set (ts_waiting ts). \<forall>e. rid \<noteq> None \<longrightarrow>
     rs_inbox (ts_session ts) c = Some (Err e) \<longrightarrow> e = CE_UnexpectedPacket)"

lemma session_reply_error:
  assumes "rs_inbox (snd (session_reply rid p s)) c = Some (Err e)" and "session_ok s w"
    and "(c, rid') \<in> set w" and "rid' \<noteq> None"
  shows "rs_inbox s c = Some (Err e) \<or> e = CE_UnexpectedPacket"
proof (cases "map_of (rs_requests s) rid")
  case None
  then show ?thesis using assms(1) by (simp add: session_reply_def)
next
  case (Some c')
  have entry: "(rid, c') \<in> set (rs_requests s)" using Some by (rule map_of_SomeD)
  note D = session_okD [OF assms(2)]
  have "rid' = rid" if "c = c'"
  proof -
    have "(c, rid) \<in> set w" using D(4) [OF entry] D(5) [OF assms(3)] that by blast
    then show ?thesis using eq_key_imp_eq_value [OF D(3)] assms(3) by blast
  qed
  then show ?thesis
    using assms(1,4) Some by (auto simp: session_reply_def try_send_def Let_def split: if_splits)
qed

lemma task_step_errors:
  assumes "task_step ts ts'" and ok: "tasks_ok ts" and err: "errors_ok ts"
  shows "errors_ok ts'"
proof -
  have begins: "errors_ok (call_begins rid p ts1)"
    if "tasks_ok ts1" "errors_ok ts1" for rid p and ts1 :: task_state
  proof (cases "begin_send rid p (ts_session ts1)")
    case (Pair r s)
    note D = session_okD [OF that(1) [unfolded tasks_ok_def, THEN conjunct1]]
    have "rs_inbox (ts_session ts1) (rs_channels (ts_session ts1)) = None" using D(6,7) by fastforce
    then show ?thesis
      using Pair that(2) begin_send_inbox begin_send_refused
      by (cases r) (fastforce simp: call_begins_def errors_ok_def)+
  qed
  have session_only: "errors_ok (ts\<lparr>ts_session := s\<rparr>)" if "rs_inbox s = rs_inbox (ts_session ts)" for s
    using err that by (simp add: errors_ok_def)
  from assms(1) show ?thesis
  proof (cases rule: task_stepE)
    case (begin_request rid s p)
    have "rs_inbox s = rs_inbox (ts_session ts)" using begin_request(2) by (auto simp: use_next_id_def)
    then have e: "errors_ok (ts\<lparr>ts_session := s, ts_started := ts_started ts + 1\<rparr>)"
      using err by (simp add: errors_ok_def)
    have "tasks_ok (ts\<lparr>ts_session := s, ts_started := ts_started ts + 1\<rparr>)"
      using ok begin_request(2) by (auto simp: tasks_ok_def use_next_id_def elim!: session_ok_cong)
    from begins [OF this e] show ?thesis using begin_request(1) by simp
  next
    case (begin_init p)
    show ?thesis
      unfolding begin_init by (rule begins) (use ok err in \<open>simp_all add: tasks_ok_def errors_ok_def\<close>)
  next
    case (finish c rid)
    then show ?thesis
      using err end_send_effect [of rid c "ts_session ts"]
      by (cases "end_send rid c (ts_session ts)") (auto simp: call_ends_def errors_ok_def split: if_splits)
  next
    case (receive body r s)
    have ok': "session_ok (ts_session ts) (ts_waiting ts)" using ok by (simp add: tasks_ok_def)
    have "rs_inbox (ts_session ts) c = Some (Err e) \<or> e = CE_UnexpectedPacket"
      if "(c, rid) \<in> set (ts_waiting ts)" "rid \<noteq> None" "rs_inbox s c = Some (Err e)" for c rid e
      using execute_inner [of body "ts_session ts"] receive(2) that(3)
      by (auto dest: session_reply_error [OF _ ok' that(1,2)])
    then show ?thesis using err unfolding receive(1) errors_ok_def by fastforce
  qed (use err in \<open>auto intro!: session_only simp: drop_session_def close_session_def tx_send_def set_timeout_def
      set_limits_def\<close>)
qed

lemma task_reachable_errors: "task_reachable ts \<Longrightarrow> errors_ok ts"
proof (induction rule: task_reachable.induct)
  case initial
  show ?case by (simp add: errors_ok_def tasks_new_def)
next
  case (advance ts ts')
  then show ?case using task_step_errors task_reachable_ok by blast
qed

section \<open>Concurrent calls\<close>

lemma replies_to_lookup:
  assumes "distinct (map fst sent)" and "(rid, p) \<in> set (replies_to H h0 sent)"
  shows "map_of (replies_to H h0 sent) rid = Some p"
proof -
  have "map fst (replies_to H h0 sent) = map fst sent" by (simp add: replies_to_def)
  then show ?thesis using assms by (intro map_of_is_SomeI) simp_all
qed

context echo_handler
begin

lemma calls_linearize:
  assumes "joint_reachable H h0 w" and "bounded H h0 w"
  shows "distinct (map fst (jw_sent w))
    \<and> (\<exists>served later. jw_sent w = served @ later \<and> jw_handler w = snd (sequential H h0 served)
        \<and> (\<forall>(rid, r) \<in> set (ts_done (jw_tasks w)). \<forall>p. r = Ok p \<longrightarrow>
             map_of (replies_to H h0 served) rid = Some p))"
  using joint_reachable_ok [OF assms]
proof (cases rule: joint_okE)
  case (1 served flight queued got pending)
  have d: "distinct (map fst served)" using 1(2,4) by simp
  have "map_of (replies_to H h0 served) rid = Some p"
    if "(rid, Ok p) \<in> set (ts_done (jw_tasks w))" for rid p
    by (rule replies_to_lookup [OF d replies_inD(2) [OF 1(9) that]])
  moreover have "jw_handler w = snd (sequential H h0 served)" using 1(7) by simp
  ultimately show ?thesis using 1(2,4) by blast
qed

lemma quiet_wire:
  assumes "joint_reachable H h0 w" and bounded: "bounded H h0 w"
    and quiet: "jw_up w = []" "jw_down w = []" "list_all (\<lambda>data. data = []) (rs_tx (ts_session (jw_tasks w)))"
    and wait: "(c, Some i) \<in> set (ts_waiting (jw_tasks w))"
  shows "rs_inbox (ts_session (jw_tasks w)) c = Some (Err CE_UnexpectedPacket)
    \<or> (\<exists>p. rs_inbox (ts_session (jw_tasks w)) c = Some (Ok p)
         \<and> map_of (replies_to H h0 (jw_sent w)) (Some i) = Some p)"
  using joint_reachable_ok [OF assms(1,2)]
proof (cases rule: joint_okE)
  case (1 served flight queued got pending)
  have reach: "task_reachable (jw_tasks w)" by (rule joint_tasks_reachable [OF assms(1)])
  have empty: "frames_of ps = [] \<Longrightarrow> ps = []" for ps by (cases ps) (simp_all add: frame_nonempty)
  have "filter (\<lambda>data. data \<noteq> []) (rs_tx (ts_session (jw_tasks w))) = []"
    using quiet(3) by (simp add: list_all_iff filter_empty_conv)
  then have "queued = []" using 1(6) by simp
  moreover have "flight = []" "pending = []"
    using 1(5,8) quiet empty [of "map snd flight"] empty [of pending] by simp_all
  moreover have "length served = length (got @ pending)" using length_sequential [of H h0 served] 1(7) by simp
  ultimately have served: "jw_sent w = served" and "length got = length (jw_sent w)"
    using 1(4) by simp_all
  then have "(Some i, c) \<notin> set (rs_requests (ts_session (jw_tasks w)))"
    using 1(10) by (force simp: outstanding_def)
  moreover have "fresh_ok (jw_tasks w)"
    by (rule task_reachable_fresh [OF reach]) (use bounded in \<open>simp_all add: bounded_def\<close>)
  ultimately obtain r where r: "rs_inbox (ts_session (jw_tasks w)) c = Some r"
    using waiting_okD(2) [OF fresh_okD(1) wait] by blast
  show ?thesis
  proof (cases r)
    case (Ok p)
    then have "(Some i, p) \<in> set (replies_to H h0 (jw_sent w))"
      using replies_inD(1) [OF 1(9) wait] r served by simp
    from replies_to_lookup [OF 1(2) this] show ?thesis using r Ok by simp
  next
    case (Err e)
    then show ?thesis
      using task_reachable_errors [OF reach] wait r by (fastforce simp: errors_ok_def)
  qed
qed

end

section \<open>A run of two calls\<close>

lemma reach_serve:
  assumes "joint_reachable H h0 w" and "jw_up w = frame (packet_body q) @ rest" and "sendable q"
    and "process_request H (norm_packet q) (jw_handler w) = (a, h)"
  shows "joint_reachable H h0 (w\<lparr>jw_up := rest, jw_down := jw_down w @ frame (packet_body a), jw_handler := h\<rparr>)"
proof -
  have "respond H (packet_body q) (jw_handler w) = (a, h)"
    using assms(3,4) packet_try_from_body by (simp add: respond_def sendable_def)
  then have "process_handler pipe_ops H \<lparr>pipe_in = jw_up w, pipe_out = jw_down w\<rparr> (jw_handler w)
      = (Ok (), \<lparr>pipe_in = rest, pipe_out = jw_down w @ frame (packet_body a)\<rparr>, h)"
    using assms(2,3) process_handler_pipe [of "packet_body q" H rest] by (simp add: sendable_def)
  from joint_reachable.advance [OF assms(1) joint_step.serve_one [OF this]] show ?thesis by simp
qed

lemma reach_receive:
  assumes "joint_reachable H h0 w" and "jw_down w = frame (packet_body a) @ rest"
    and "frame_fits (packet_body a)"
    and "snd (execute_handler (packet_body a) inner_handler (ts_session (jw_tasks w))) = s"
  shows "joint_reachable H h0 (with_session (\<lambda>_. s) (w\<lparr>jw_down := rest\<rparr>))"
proof -
  have "\<exists>r. client_process_handler pipe_ops inner_handler \<lparr>pipe_in = jw_down w, pipe_out = jw_up w\<rparr>
      (ts_session (jw_tasks w)) = (r, \<lparr>pipe_in = rest, pipe_out = jw_up w\<rparr>, s) \<and> r \<noteq> Err UnexpectedEof"
    using assms(2,4) read_packet_pipe [OF assms(3)]
    by (cases "execute_handler (packet_body a) inner_handler (ts_session (jw_tasks w))")
      (auto simp: client_process_handler_def split: result.split)
  then obtain r where r: "client_process_handler pipe_ops inner_handler
      \<lparr>pipe_in = jw_down w, pipe_out = jw_up w\<rparr> (ts_session (jw_tasks w))
        = (r, \<lparr>pipe_in = rest, pipe_out = jw_up w\<rparr>, s)" "r \<noteq> Err UnexpectedEof"
    by blast
  from joint_reachable.advance [OF assms(1) joint_step.receive_one [OF r]] show ?thesis by simp
qed

lemmas reach_step = joint_reachable.advance

text \<open>
  The example server and two calls at once: after the version exchange a stat, which the server
  does not support, and an opendir are both on the wire, are served, and have their replies
  waiting; the second call has returned, the first has not.
\<close>

definition demo_stat :: packet where
  "demo_stat = Stat \<lparr>stat_id = 1, stat_path = []\<rparr>"

definition demo_opendir :: packet where
  "demo_opendir = OpenDir \<lparr>opendir_id = 2, opendir_path = []\<rparr>"

definition demo_handle :: packet where
  "demo_handle = Handle \<lparr>handle_id = 2, handle_handle = []\<rparr>"

definition demo_sent :: "(u32 option \<times> packet) list" where
  "demo_sent = [(None, Init init_new), (Some 1, demo_stat), (Some 2, demo_opendir)]"

definition demo_session :: raw_session where
  "demo_session = raw_new\<lparr>rs_next_req_id := 3, rs_version := Some VERSION, rs_channels := 3,
     rs_receivers := {1}, rs_inbox := [1 \<mapsto> Ok (packet_error 1 SC_OpUnsupported)]\<rparr>"

definition demo_world :: "sftp_example joint" where
  "demo_world =
     \<lparr>jw_tasks = \<lparr>ts_session = demo_session, ts_waiting = [(1, Some 1)],
        ts_done = [(Some 2, Ok demo_handle), (None, Ok (Version version_new))],
        ts_started = 2, ts_inits = 1\<rparr>,
      jw_up = [], jw_down = [], jw_handler = \<lparr>ex_version = Some VERSION, ex_root_dir_read_done = False\<rparr>,
      jw_sent = demo_sent\<rparr>"

lemma demo_sendable:
  "sendable (Init init_new)" "sendable (Version version_new)" "sendable demo_stat"
  "sendable demo_opendir" "sendable demo_handle" "sendable (packet_error i c)"
  by (simp_all add: sendable_error)
    (simp_all add: sendable_def fits_init_def fits_version_def init_new_def version_new_def
      string_map_fits_def frame_fits_def packet_body_def wire_init_def wire_version_def wire_entries_def
      demo_stat_def demo_opendir_def demo_handle_def fits_stat_def fits_opendir_def fits_handle_def
      string_fits_def wire_stat_def wire_opendir_def wire_handle_def wire_string_def valid_utf8_ascii)

lemma demo_process:
  "process_request (example_handler decimal) (Init init_new) example_default
     = (Version version_new, example_default\<lparr>ex_version := Some VERSION\<rparr>)"
  "process_request (example_handler decimal) demo_stat h = (packet_error 1 SC_OpUnsupported, h)"
  "process_request (example_handler decimal) demo_opendir h
     = (demo_handle, h\<lparr>ex_root_dir_read_done := False\<rparr>)"
  by (simp_all add: process_request_def packet_request_id_def into_wrap_def example_init_def
      example_default_def init_new_def demo_stat_def demo_opendir_def demo_handle_def
      example_opendir_def example_handler_def default_handler_def example_unimplemented_def)

lemma demo_sequential:
  "sequential (example_handler decimal) example_default demo_sent
     = ([Version version_new, packet_error 1 SC_OpUnsupported, demo_handle],
        \<lparr>ex_version = Some VERSION, ex_root_dir_read_done = False\<rparr>)"
proof -
  have "norm_packet demo_stat = demo_stat" "norm_packet demo_opendir = demo_opendir"
    by (simp_all add: demo_stat_def demo_opendir_def)
  then show ?thesis
    using demo_process(1) by (simp add: sequential_def demo_sent_def demo_process(2,3) example_default_def)
qed

lemma demo_bounded: "bounded (example_handler decimal) example_default demo_world"
  using demo_sendable demo_sequential
  by (simp add: bounded_def demo_world_def) (simp add: demo_sent_def)

text \<open>The states the run goes through.\<close>

definition demo_at ::
  "nat \<Rightarrow> u32 option \<Rightarrow> (u32 option \<times> nat) list \<Rightarrow> bytes list \<Rightarrow> (nat \<rightharpoonup> reply) \<Rightarrow> nat set
     \<Rightarrow> (nat \<times> u32 option) list \<Rightarrow> (u32 option \<times> reply) list \<Rightarrow> packet list \<Rightarrow> packet list \<Rightarrow> sftp_example
     \<Rightarrow> sftp_example joint" where
  "demo_at n version requests tx inbox receivers waiting done up down h =
     \<lparr>jw_tasks = \<lparr>ts_session = raw_new\<lparr>rs_next_req_id := 1 + of_nat n, rs_version := version,
          rs_channels := Suc n, rs_receivers := receivers, rs_requests := requests, rs_tx := tx,
          rs_inbox := inbox\<rparr>,
        ts_waiting = waiting, ts_done = done, ts_started = n, ts_inits = 1\<rparr>,
      jw_up = frames_of up, jw_down = frames_of down, jw_handler = h,
      jw_sent = take (Suc n) demo_sent\<rparr>"

lemma demo_transmit:
  assumes "joint_reachable H h0 (demo_at n v reqs (frame (packet_body q) # tx) inbox recv w d up down h)"
  shows "joint_reachable H h0 (demo_at n v reqs tx inbox recv w d (up @ [q]) down h)"
proof -
  let ?w = "demo_at n v reqs (frame (packet_body q) # tx) inbox recv w d up down h"
  have "rs_tx (ts_session (jw_tasks ?w)) = frame (packet_body q) # tx" by (simp add: demo_at_def)
  from reach_step [OF assms joint_step.transmit [OF this frame_nonempty]]
  show ?thesis by (simp add: demo_at_def with_session_def frames_of_def raw_new_def)
qed

lemma demo_serve:
  assumes "joint_reachable H h0 (demo_at n v reqs tx inbox recv w d (q # up) down h)" and "sendable q"
    and "process_request H (norm_packet q) h = (a, h')"
  shows "joint_reachable H h0 (demo_at n v reqs tx inbox recv w d up (down @ [a]) h')"
  using reach_serve [OF assms(1) _ assms(2), of "frames_of up" a h'] assms(3)
  by (simp add: demo_at_def frames_of_def)

lemma demo_receive:
  assumes "joint_reachable H h0 (demo_at n v reqs tx inbox recv w d up (a # down) h)"
    and "frame_fits (packet_body a)"
    and "\<And>s. rs_version s = v \<Longrightarrow> rs_requests s = reqs \<Longrightarrow> rs_inbox s = inbox \<Longrightarrow> rs_receivers s = recv \<Longrightarrow>
      snd (execute_handler (packet_body a) inner_handler s)
        = s\<lparr>rs_version := v', rs_requests := reqs', rs_inbox := inbox'\<rparr>"
  shows "joint_reachable H h0 (demo_at n v' reqs' tx inbox' recv w d up down h)"
  using reach_receive [OF assms(1) _ assms(2) assms(3), of "frames_of down"]
  by (simp add: demo_at_def with_session_def raw_new_def)

lemma demo_return:
  assumes "joint_reachable H h0 (demo_at n v reqs tx inbox recv w d up down h)"
    and "(c, rid) \<in> set w" and "inbox c = Some r"
  shows "joint_reachable H h0 (demo_at n v reqs tx (inbox(c := None)) (recv - {c}) (removeAll (c, rid) w)
    ((rid, r) # d) up down h)"
  using reach_step [OF assms(1) joint_step.return [of c rid]] assms(2,3)
  by (simp add: demo_at_def call_ends_def end_send_def drop_receiver_def raw_new_def)

lemma demo_request:
  assumes "joint_reachable H h0 (demo_at n v reqs tx inbox recv w d up down h)"
    and "Suc n < length demo_sent" and "demo_sent ! Suc n = (Some (1 + of_nat n), q)"
    and "is_request q" and "packet_request_id q = 1 + of_nat n"
  shows "joint_reachable H h0 (demo_at (Suc n) v (AList.update (Some (1 + of_nat n)) (Suc n) reqs)
    (tx @ [frame (packet_body q)]) inbox (insert (Suc n) recv) ((Suc n, Some (1 + of_nat n)) # w) d up down h)"
proof -
  let ?w = "demo_at n v reqs tx inbox recv w d up down h"
  have "use_next_id (ts_session (jw_tasks ?w))
      = (1 + of_nat n, (ts_session (jw_tasks ?w))\<lparr>rs_next_req_id := 1 + of_nat (Suc n)\<rparr>)"
    by (simp add: use_next_id_def demo_at_def)
  from reach_step [OF assms(1) joint_step.request [OF this assms(4,5)]] assms(2,3)
  show ?thesis
    by (simp add: demo_at_def joint_begins_def call_begins_def begin_send_def bytes_of_packet_frame
        tx_send_def raw_new_def Let_def take_Suc_conv_app_nth)
qed

lemma demo_receive_reply:
  assumes "joint_reachable H h0 (demo_at n (Some v) reqs tx inbox recv w d up (a # down) h)"
    and "sendable a" and "response_id a = Some i" and "map_of reqs (Some i) = Some c" and "c \<in> recv"
    and "inbox c = None"
  shows "joint_reachable H h0 (demo_at n (Some v) (AList.delete (Some i) reqs) tx
    (inbox(c \<mapsto> Ok (norm_packet a))) recv w d up down h)"
proof (rule demo_receive [OF assms(1)])
  show "frame_fits (packet_body a)" using assms(2) by (simp add: sendable_def)
  fix s :: raw_session
  assume "rs_version s = Some v" "rs_requests s = reqs" "rs_inbox s = inbox" "rs_receivers s = recv"
  then show "snd (execute_handler (packet_body a) inner_handler s) = s\<lparr>rs_version := Some v,
      rs_requests := AList.delete (Some i) reqs, rs_inbox := inbox(c \<mapsto> Ok (norm_packet a))\<rparr>"
    using deliver [OF assms(3,2), of s c] assms(4,5,6) by simp
qed

lemma demo_receive_version:
  assumes "joint_reachable H h0 (demo_at n None [(None, 0)] tx Map.empty {0} w d up (Version version_new # down) h)"
  shows "joint_reachable H h0 (demo_at n (Some VERSION) [] tx [0 \<mapsto> Ok (Version version_new)] {0} w d up down h)"
proof (rule demo_receive [OF assms])
  show "frame_fits (packet_body (Version version_new))" using demo_sendable by (simp add: sendable_def)
  have "version_version version_new = VERSION" by (simp add: version_new_def)
  then show "snd (execute_handler (packet_body (Version version_new)) inner_handler s) =
      s\<lparr>rs_version := Some VERSION, rs_requests := [], rs_inbox := [0 \<mapsto> Ok (Version version_new)]\<rparr>"
    if "rs_version s = None" "rs_requests s = [(None, 0)]" "rs_inbox s = Map.empty" "rs_receivers s = {0}" for s
    using that by (simp add: execute_handler_def version_new_body inner_methods inner_version_def
        session_reply_def try_send_def client_into_wrap_def Let_def)
qed

lemma demo_reachable: "joint_reachable (example_handler decimal) example_default demo_world"
proof -
  let ?R = "joint_reachable (example_handler decimal) example_default"
  let ?h = "example_default\<lparr>ex_version := Some VERSION\<rparr>"
  let ?f = "\<lambda>q. frame (packet_body q)"
  have "?R (demo_at 0 None [(None, 0)] [?f (Init init_new)] Map.empty {0} [(0, None)] [] [] []
      example_default)"
    using reach_step [OF joint_reachable.initial joint_step.initialize,
        of "example_handler decimal" example_default]
    by (simp add: demo_at_def joint_new_def joint_begins_def tasks_new_def call_begins_def begin_send_def
        bytes_of_packet_frame tx_send_def raw_new_def demo_sent_def Let_def)
  from demo_transmit [OF this]
  have "?R (demo_at 0 None [(None, 0)] [] Map.empty {0} [(0, None)] [] [Init init_new] []
      example_default)" by simp
  from demo_serve [OF this demo_sendable(1)]
  have "?R (demo_at 0 None [(None, 0)] [] Map.empty {0} [(0, None)] [] [] [Version version_new] ?h)"
    by (simp add: demo_process)
  from demo_return [OF demo_receive_version [OF this], of 0 None]
  have "?R (demo_at 0 (Some VERSION) [] [] Map.empty {} [] [(None, Ok (Version version_new))] [] [] ?h)"
    by simp
  from demo_request [OF this, of demo_stat]
  have "?R (demo_at 1 (Some VERSION) [(Some 1, 1)] [?f demo_stat] Map.empty {1} [(1, Some 1)]
      [(None, Ok (Version version_new))] [] [] ?h)"
    by (simp add: demo_sent_def demo_stat_def packet_request_id_def)
  from demo_request [OF this, of demo_opendir]
  have "?R (demo_at 2 (Some VERSION) [(Some 1, 1), (Some 2, 2)] [?f demo_stat, ?f demo_opendir] Map.empty
      {2, 1} [(2, Some 2), (1, Some 1)] [(None, Ok (Version version_new))] [] [] ?h)"
    by (simp add: demo_sent_def demo_opendir_def packet_request_id_def numeral_2_eq_2)
  from demo_transmit [OF demo_transmit [OF this]]
  have "?R (demo_at 2 (Some VERSION) [(Some 1, 1), (Some 2, 2)] [] Map.empty
      {2, 1} [(2, Some 2), (1, Some 1)] [(None, Ok (Version version_new))] [demo_stat, demo_opendir] [] ?h)"
    by simp
  from demo_serve [OF this demo_sendable(3)]
  have "?R (demo_at 2 (Some VERSION) [(Some 1, 1), (Some 2, 2)] [] Map.empty
      {2, 1} [(2, Some 2), (1, Some 1)] [(None, Ok (Version version_new))] [demo_opendir]
      [packet_error 1 SC_OpUnsupported] ?h)"
    by (simp add: demo_stat_def demo_process(2) [unfolded demo_stat_def])
  from demo_serve [OF this demo_sendable(4)]
  have "?R (demo_at 2 (Some VERSION) [(Some 1, 1), (Some 2, 2)] [] Map.empty
      {2, 1} [(2, Some 2), (1, Some 1)] [(None, Ok (Version version_new))] []
      [packet_error 1 SC_OpUnsupported, demo_handle] (?h\<lparr>ex_root_dir_read_done := False\<rparr>))"
    by (simp add: demo_opendir_def demo_process(3) [unfolded demo_opendir_def])
  from demo_receive_reply [OF this demo_sendable(6), of 1 1]
  have "?R (demo_at 2 (Some VERSION) [(Some 2, 2)] [] [1 \<mapsto> Ok (packet_error 1 SC_OpUnsupported)]
      {2, 1} [(2, Some 2), (1, Some 1)] [(None, Ok (Version version_new))] []
      [demo_handle] (?h\<lparr>ex_root_dir_read_done := False\<rparr>))"
    by (simp add: packet_error_def packet_status_def)
  from demo_receive_reply [OF this demo_sendable(5), of 2 2]
  have run: "?R (demo_at 2 (Some VERSION) [] [] [1 \<mapsto> Ok (packet_error 1 SC_OpUnsupported), 2 \<mapsto> Ok demo_handle]
      {2, 1} [(2, Some 2), (1, Some 1)] [(None, Ok (Version version_new))] []
      [] (?h\<lparr>ex_root_dir_read_done := False\<rparr>))"
    by (simp add: demo_handle_def)
  have returned: "[1 \<mapsto> x, 2 \<mapsto> y](2 := None) = [1::nat \<mapsto> x :: reply]" "{2, 1::nat} - {2} = {1}"
    for x y :: reply
    by auto
  from demo_return [OF run, of 2 "Some 2"]
  have "?R (demo_at 2 (Some VERSION) [] [] [1 \<mapsto> Ok (packet_error 1 SC_OpUnsupported)]
      {1} [(1, Some 1)] [(Some 2, Ok demo_handle), (None, Ok (Version version_new))] []
      [] (?h\<lparr>ex_root_dir_read_done := False\<rparr>))"
    using returned by simp
  then show ?thesis
    by (simp add: demo_at_def demo_world_def demo_session_def demo_sent_def raw_new_def example_default_def)
qed

section \<open>Properties of concurrent calls against the crate's server\<close>

text \<open>C4: Concurrent calls are linearizable: however the tasks of a client, its two halves and the
  server interleave, the handler has served a prefix of the requests one at a time in the order
  they were queued, and every call that returned a packet returned the one the handler gave to
  that call's own request, as it reads after encoding.\<close>

theorem concurrent_calls_linearize:
  assumes "echo_handler H" and "joint_reachable H h0 w" and "bounded H h0 w"
  shows "distinct (map fst (jw_sent w))
    \<and> (\<exists>served later. jw_sent w = served @ later \<and> jw_handler w = snd (sequential H h0 served)
        \<and> (\<forall>(rid, r) \<in> set (ts_done (jw_tasks w)). \<forall>p. r = Ok p \<longrightarrow>
             map_of (replies_to H h0 served) rid = Some p))"
  by (rule echo_handler.calls_linearize [OF assms])

theorem concurrent_calls_linearize_witness:
  "distinct (map fst (jw_sent demo_world))
    \<and> (Some 2, Ok demo_handle) \<in> set (ts_done (jw_tasks demo_world))
    \<and> (\<exists>served later. jw_sent demo_world = served @ later
        \<and> jw_handler demo_world = snd (sequential (example_handler decimal) example_default served)
        \<and> list_all (\<lambda>(rid, r). case r of Err e \<Rightarrow> True
             | Ok p \<Rightarrow> map_of (replies_to (example_handler decimal) example_default served) rid = Some p)
            (ts_done (jw_tasks demo_world)))"
proof -
  note result = concurrent_calls_linearize [OF example_echo.echo_handler_axioms demo_reachable demo_bounded]
  then obtain served later where run: "jw_sent demo_world = served @ later"
      "jw_handler demo_world = snd (sequential (example_handler decimal) example_default served)"
    and replies: "\<forall>(rid, r) \<in> set (ts_done (jw_tasks demo_world)). \<forall>p. r = Ok p \<longrightarrow>
      map_of (replies_to (example_handler decimal) example_default served) rid = Some p"
    by blast
  have "list_all (\<lambda>(rid, r). case r of Err e \<Rightarrow> True
      | Ok p \<Rightarrow> map_of (replies_to (example_handler decimal) example_default served) rid = Some p)
      (ts_done (jw_tasks demo_world))"
    unfolding list_all_iff using replies by (auto split: result.split)
  moreover have "(Some 2, Ok demo_handle) \<in> set (ts_done (jw_tasks demo_world))"
    by (simp add: demo_world_def)
  moreover have "distinct (map fst (jw_sent demo_world))" using result by (rule conjunct1)
  ultimately show ?thesis using run by (intro conjI exI) assumption+
qed

text \<open>C14: No reply gets lost: once nothing is queued and nothing is in flight in either direction,
  every request that still waits has its reply at hand, the one the handler gave to it, or the
  error for a reply that came before the version was known.\<close>

theorem quiet_wire_no_call_waits:
  assumes "echo_handler H" and "joint_reachable H h0 w" and "bounded H h0 w"
    and "jw_up w = []" and "jw_down w = []" and "list_all (\<lambda>data. data = []) (rs_tx (ts_session (jw_tasks w)))"
    and "(c, Some i) \<in> set (ts_waiting (jw_tasks w))"
  shows "rs_inbox (ts_session (jw_tasks w)) c = Some (Err CE_UnexpectedPacket)
    \<or> (\<exists>p. rs_inbox (ts_session (jw_tasks w)) c = Some (Ok p)
         \<and> map_of (replies_to H h0 (jw_sent w)) (Some i) = Some p)"
  by (rule echo_handler.quiet_wire [OF assms])

theorem quiet_wire_no_call_waits_witness:
  "(1, Some 1) \<in> set (ts_waiting (jw_tasks demo_world))
    \<and> (rs_inbox (ts_session (jw_tasks demo_world)) 1 = Some (Err CE_UnexpectedPacket)
     \<or> (\<exists>p. rs_inbox (ts_session (jw_tasks demo_world)) 1 = Some (Ok p)
         \<and> map_of (replies_to (example_handler decimal) example_default (jw_sent demo_world)) (Some 1)
            = Some p))"
proof -
  have "(1, Some 1) \<in> set (ts_waiting (jw_tasks demo_world))" by (simp add: demo_world_def)
  moreover from quiet_wire_no_call_waits [OF example_echo.echo_handler_axioms demo_reachable
      demo_bounded _ _ _ this]
  have "rs_inbox (ts_session (jw_tasks demo_world)) 1 = Some (Err CE_UnexpectedPacket)
     \<or> (\<exists>p. rs_inbox (ts_session (jw_tasks demo_world)) 1 = Some (Ok p)
         \<and> map_of (replies_to (example_handler decimal) example_default (jw_sent demo_world)) (Some 1)
            = Some p)"
    by (simp add: demo_world_def demo_session_def raw_new_def)
  ultimately show ?thesis by blast
qed

end
