(* ===== verification/LocalFile.thy ===== *)
theory LocalFile
  imports FilePeer
begin

text \<open>
  A remote file is a local file. \<open>local_step\<close> is the specification: a content and a position,
  reads that may be short, writes that may be partial, seeks to any place that is not negative. A
  program of reads, writes and seeks on the client's file (\<open>remote_run\<close>), stopped by its first error
  as the \<^verbatim>\<open>?\<close> operator does, is one of the specification.
\<close>

section \<open>The specification\<close>

datatype file_op = OpRead nat | OpWrite bytes | OpSeek seek_from

datatype outcome = DataRead bytes | Written nat | At nat | Failed | Crashed

definition seek_goal :: "seek_from \<Rightarrow> bytes \<Rightarrow> nat \<Rightarrow> int" where
  "seek_goal position c p =
     (case position of
        SeekStart n \<Rightarrow> int (unat n)
      | SeekCurrent d \<Rightarrow> int p + sint d
      | SeekEnd d \<Rightarrow> int (length c) + sint d)"

inductive local_step :: "bytes \<times> nat \<Rightarrow> file_op \<Rightarrow> outcome \<Rightarrow> bytes \<times> nat \<Rightarrow> bool" where
  at_end: "length c \<le> p \<Longrightarrow> local_step (c, p) (OpRead n) (DataRead []) (c, p)"
| some_data: "p < length c \<Longrightarrow> 0 < k \<Longrightarrow> k \<le> n \<Longrightarrow> d = take k (drop p c) \<Longrightarrow>
    local_step (c, p) (OpRead n) (DataRead d) (c, p + length d)"
| store: "0 < k \<Longrightarrow> k \<le> length buf \<Longrightarrow>
    local_step (c, p) (OpWrite buf) (Written k) (overwrite c p (take k buf), p + k)"
| moved: "0 \<le> seek_goal position c p \<Longrightarrow>
    local_step (c, p) (OpSeek position) (At (nat (seek_goal position c p))) (c, nat (seek_goal position c p))"
| refused: "seek_goal position c p < 0 \<Longrightarrow> local_step (c, p) (OpSeek position) Failed (c, p)"

inductive local_run :: "bytes \<times> nat \<Rightarrow> file_op list \<Rightarrow> outcome list \<Rightarrow> bytes \<times> nat \<Rightarrow> bool" where
  finished: "local_run a [] [] a"
| stopped: "local_step a op Failed a' \<Longrightarrow> local_run a (op # ops) [Failed] a'"
| step: "local_step a op r a' \<Longrightarrow> r \<noteq> Failed \<Longrightarrow> local_run a' ops rs a'' \<Longrightarrow>
    local_run a (op # ops) (r # rs) a''"

inductive_cases local_stepE: "local_step a op r a'"

section \<open>The client's file\<close>

definition remote_op :: "'w waits \<Rightarrow> file_op \<Rightarrow> (outcome, 'w) on_file" where
  "remote_op W op f sw =
     (case op of
        OpRead n \<Rightarrow>
          (case file_read W n f sw of
             (Ready (Ok d), f, sw) \<Rightarrow> (DataRead d, f, sw)
           | (Ready (Err e), f, sw) \<Rightarrow> (Failed, f, sw)
           | (_, f, sw) \<Rightarrow> (Crashed, f, sw))
      | OpWrite buf \<Rightarrow>
          (case file_write W buf f sw of
             (Ok n, f, sw) \<Rightarrow> (Written n, f, sw)
           | (Err e, f, sw) \<Rightarrow> (Failed, f, sw))
      | OpSeek position \<Rightarrow>
          (case file_seek W position f sw of
             (Ready (Ok p), f, sw) \<Rightarrow> (At (unat p), f, sw)
           | (Ready (Err e), f, sw) \<Rightarrow> (Failed, f, sw)
           | (_, f, sw) \<Rightarrow> (Crashed, f, sw)))"

fun remote_run :: "'w waits \<Rightarrow> file_op list \<Rightarrow> (outcome list, 'w) on_file" where
  "remote_run W [] f sw = ([], f, sw)"
| "remote_run W (op # ops) f sw =
     (case remote_op W op f sw of (r, f, sw) \<Rightarrow>
        if r = Failed \<or> r = Crashed then ([r], f, sw)
        else (case remote_run W ops f sw of (rs, f, sw) \<Rightarrow> (r # rs, f, sw)))"

section \<open>Bounds on positions\<close>

text \<open>How far an operation can move the end of the file or the position.\<close>

definition op_weight :: "file_op \<Rightarrow> nat" where
  "op_weight op =
     (case op of
        OpRead n \<Rightarrow> 0
      | OpWrite buf \<Rightarrow> length buf
      | OpSeek (SeekStart n) \<Rightarrow> unat n
      | OpSeek (SeekCurrent d) \<Rightarrow> nat \<bar>sint d\<bar>
      | OpSeek (SeekEnd d) \<Rightarrow> nat \<bar>sint d\<bar>)"

definition extent :: "bytes \<times> nat \<Rightarrow> nat" where
  "extent a = max (length (fst a)) (snd a)"

lemma local_step_extent: "local_step a op r a' \<Longrightarrow> extent a' \<le> extent a + op_weight op"
  by (induction rule: local_step.induct)
    (auto simp: extent_def op_weight_def length_overwrite seek_goal_def split: seek_from.splits)

text \<open>What a call is asked to be: a buffer to read into, something to write.\<close>

definition op_ok :: "file_op \<Rightarrow> bool" where
  "op_ok op \<longleftrightarrow> (case op of OpRead n \<Rightarrow> 0 < n | OpWrite buf \<Rightarrow> buf \<noteq> [] | OpSeek position \<Rightarrow> True)"

definition quiet :: "remote_file \<Rightarrow> bool" where
  "quiet f \<longleftrightarrow> fl_read f = None \<and> fl_write f = None \<and> fl_seek f = None"

lemma sint_small:
  assumes "unat (p :: 64 word) < 2 ^ 63"
  shows "sint p = int (unat p)"
proof -
  have "int (unat p) < int (2 ^ 63)" using assms by (simp only: of_nat_less_iff)
  then have "uint p < 2 ^ 63" by simp
  then have "signed_take_bit 63 (uint p) = uint p"
    by (intro signed_take_bit_int_eq_self) (simp_all add: order.trans [OF _ uint_ge_0])
  then show ?thesis by (simp add: sint_uint)
qed

lemma sint_add_small:
  fixes p d :: "64 word"
  assumes "unat p + nat \<bar>sint d\<bar> < 2 ^ 63"
  shows "sint (p + d) = int (unat p) + sint d"
proof -
  have p: "unat p < 2 ^ 63" using assms by simp
  have "int (unat p + nat \<bar>sint d\<bar>) < int (2 ^ 63)" using assms by (simp only: of_nat_less_iff)
  then have "int (unat p) + \<bar>sint d\<bar> < 2 ^ 63" by simp
  moreover have "0 \<le> int (unat p)" by simp
  ultimately have bounds: "- (2 ^ 63) \<le> int (unat p) + sint d" "int (unat p) + sint d < 2 ^ 63"
    by linarith+
  have "sint (p + d) = signed_take_bit 63 (sint p + sint d)"
    by (simp add: sint_word_ariths)
  also have "sint p = int (unat p)" by (rule sint_small [OF p])
  also have "signed_take_bit 63 (int (unat p) + sint d) = int (unat p) + sint d"
    by (rule signed_take_bit_int_eq_self [OF bounds])
  finally show ?thesis .
qed

lemma unat_advance: "unat (p :: 64 word) + n < 2 ^ 64 \<Longrightarrow> unat (p + of_nat n) = unat p + n"
  by (simp add: unat_word_ariths unat_of_nat)

lemma unat_of_sint:
  assumes "0 \<le> sint (x :: 64 word)"
  shows "unat x = nat (sint x)"
proof -
  have "uint x < 2 ^ 64" using uint_lt2p [of x] by (simp only: len_bit0 len_num1 mult_numeral_left_semiring_numeral mult_1_right) simp
  have t: "take_bit 64 (uint x) = uint x" using \<open>uint x < 2 ^ 64\<close> by (simp add: take_bit_int_eq_self)
  have "sint x = uint x - 2 ^ 64 * of_bool (bit (uint x) 63)"
    using t by (simp add: sint_uint signed_take_bit_eq_take_bit_minus)
  with \<open>uint x < 2 ^ 64\<close> have "sint x = uint x" using assms by (cases "bit (uint x) 63") simp_all
  then show ?thesis by simp
qed
section \<open>The simulation\<close>

text \<open>The limits of a session whose requests are accepted: reads fit 32 bits, writes the peer.\<close>

definition limits_ok :: "nat \<Rightarrow> extensions \<Rightarrow> bool" where
  "limits_ok chunk e \<longleftrightarrow>
     0 < limit_or lim_read_len MAX_READ_LENGTH e \<and> unat (limit_or lim_read_len MAX_READ_LENGTH e) < 2 ^ 32
     \<and> 0 < limit_or lim_write_len MAX_WRITE_LENGTH e
     \<and> unat (limit_or lim_write_len MAX_WRITE_LENGTH e) \<le> chunk"

context file_peer
begin

text \<open>The remote file \<open>f\<close>, in a state where the peer is reached, stands for the local file \<open>a\<close>.\<close>

definition stands_for :: "remote_file \<Rightarrow> raw_session \<times> 'w \<Rightarrow> bytes \<times> nat \<Rightarrow> bool" where
  "stands_for f sw a \<longleftrightarrow> I sw \<and> quiet f \<and> fl_handle f = handle \<and> limits_ok chunk (fl_extensions f)
     \<and> a = (stored sw, unat (fl_pos f))"

lemma stands_forI:
  "I sw \<Longrightarrow> quiet f \<Longrightarrow> fl_handle f = handle \<Longrightarrow> limits_ok chunk (fl_extensions f) \<Longrightarrow>
   stored sw = c \<Longrightarrow> unat (fl_pos f) = p \<Longrightarrow> stands_for f sw (c, p)"
  by (simp add: stands_for_def)

lemma read_step:
  assumes f: "stands_for f sw (c, p)" and "0 < n" and small: "extent (c, p) < 2 ^ 63"
  shows "\<exists>r f' sw' a'. remote_op W (OpRead n) f sw = (r, f', sw') \<and> local_step (c, p) (OpRead n) r a'
    \<and> stands_for f' sw' a'"
proof -
  note F = f [unfolded stands_for_def quiet_def limits_ok_def]
  let ?m = "read_size n (fl_extensions f)"
  have m: "0 < ?m" "?m < 2 ^ 32"
    using F \<open>0 < n\<close> by (auto simp: read_size_def word_less_nat_alt min_less_iff_disj)
  then have n: "unat (of_nat ?m :: u32) = ?m" "0 < (of_nat ?m :: u32)"
    by (simp_all add: unat_of_nat_u32 word_less_nat_alt)
  have c: "c = stored sw" "p = unat (fl_pos f)" "I sw" using F by auto
  from read_law [OF c(3) n(2), of "fl_pos f", unfolded n(1), folded c(1,2)] obtain r sw' where
    r: "raw_read W handle (fl_pos f) (of_nat ?m) sw = (r, sw')" "I sw'" "stored sw' = c"
    and cases: "if length c \<le> p then \<exists>st. r = Err (CE_Status st) \<and> status_status_code st = SC_Eof
      else \<exists>d k. r = Ok d \<and> data_data d = take k (drop p c) \<and> 0 < k \<and> k \<le> ?m"
    by blast
  have start: "start_read n f = (\<lparr>rf_handle = handle, rf_offset = fl_pos f, rf_len = of_nat ?m\<rparr>,
      f\<lparr>fl_read := Some \<lparr>rf_handle = handle, rf_offset = fl_pos f, rf_len = of_nat ?m\<rparr>\<rparr>)"
    using F by (simp add: start_read_idle Let_def)
  have same: "f\<lparr>fl_read := None\<rparr> = f" using F by simp
  show ?thesis
  proof (cases "length c \<le> p")
    case True
    with cases obtain st where "r = Err (CE_Status st)" "status_status_code st = SC_Eof" by auto
    then have "remote_op W (OpRead n) f sw = (DataRead [], f, sw')"
      using r(1) start by (simp add: remote_op_def file_read_def finish_read_def read_outcome_def same)
    moreover have "stands_for f sw' (c, p)" using f r(2,3) by (simp add: stands_for_def)
    ultimately show ?thesis using local_step.at_end [OF True] by blast
  next
    case False
    with cases obtain d k where d: "r = Ok d" "data_data d = take k (drop p c)" "0 < k" "k \<le> ?m" by auto
    have k: "k \<le> n" using d(4) by (simp add: read_size_def)
    have len: "length (data_data d) \<le> n" "length (data_data d) \<le> length c - p" using d(2) k by simp_all
    let ?f = "f\<lparr>fl_pos := fl_pos f + of_nat (length (data_data d))\<rparr>"
    have "remote_op W (OpRead n) f sw = (DataRead (data_data d), ?f, sw')"
      using r(1) start d(1) len(1) F
      by (simp add: remote_op_def file_read_def finish_read_def read_outcome_def Let_def)
    moreover have "local_step (c, p) (OpRead n) (DataRead (data_data d)) (c, p + length (data_data d))"
      using local_step.some_data [of p c k n "data_data d"] False d k by simp
    moreover have "unat (fl_pos f + of_nat (length (data_data d))) = unat (fl_pos f) + length (data_data d)"
      by (rule unat_advance) (use c(2) small len(2) False in \<open>auto simp: extent_def\<close>)
    then have "stands_for ?f sw' (c, p + length (data_data d))"
      using F r(2,3) by (intro stands_forI) (simp_all add: quiet_def limits_ok_def)
    ultimately show ?thesis by blast
  qed
qed

lemma write_step:
  assumes f: "stands_for f sw (c, p)" and buf: "buf \<noteq> []"
    and small: "extent (c, p) + length buf < 2 ^ 63"
  shows "\<exists>r f' sw' a'. remote_op W (OpWrite buf) f sw = (r, f', sw') \<and> local_step (c, p) (OpWrite buf) r a'
    \<and> stands_for f' sw' a'"
proof -
  note F = f [unfolded stands_for_def quiet_def limits_ok_def]
  let ?n = "write_size buf (fl_extensions f)"
  let ?f = "f\<lparr>fl_pos := fl_pos f + of_nat ?n\<rparr>"
  have n: "?n \<le> length buf" "?n \<le> chunk" using F by (auto simp: write_size_def)
  then obtain sw' where w: "file_write W buf f sw = (Ok ?n, ?f, sw')" "I sw'"
      "stored sw' = overwrite c p (take ?n buf)" "0 < ?n"
    using file_write_stored [of W I f chunk stored sw buf] accepts F buf by auto
  have "remote_op W (OpWrite buf) f sw = (Written ?n, ?f, sw')" by (simp add: remote_op_def w(1))
  moreover have "local_step (c, p) (OpWrite buf) (Written ?n) (overwrite c p (take ?n buf), p + ?n)"
    using w(4) n(1) by (rule local_step.store)
  moreover have "unat (fl_pos f + of_nat ?n) = unat (fl_pos f) + ?n"
    by (rule unat_advance) (use F small n(1) in \<open>simp add: extent_def\<close>)
  then have "stands_for ?f sw' (overwrite c p (take ?n buf), p + ?n)"
    using F w(2,3) by (intro stands_forI) (simp_all add: quiet_def limits_ok_def)
  ultimately show ?thesis by blast
qed

text \<open>A seek that is started on a quiet file and waited for: only its goal matters.\<close>

lemma awaited_seek:
  assumes f: "stands_for f sw (c, p)" and small: "extent (c, p) + op_weight (OpSeek position) < 2 ^ 63"
  shows "\<exists>sw'. await_seek W (f\<lparr>fl_seek := Some (SeekRunning handle position (fl_pos f))\<rparr>) sw
    = (if seek_goal position c p < 0
       then (Ready (Err [Lit ''cannot move file pointer before the beginning'']),
             f\<lparr>fl_seek := Some SeekFinished\<rparr>, sw')
       else (Ready (Ok (of_int (seek_goal position c p))), f\<lparr>fl_pos := of_int (seek_goal position c p)\<rparr>, sw'))
    \<and> I sw' \<and> stored sw' = c"
proof -
  note F = f [unfolded stands_for_def quiet_def]
  have same: "f\<lparr>fl_seek := None\<rparr> = f" using F by simp
  show ?thesis
  proof (cases position)
    case (SeekStart n)
    then have "sint n = int (unat n)" using small by (intro sint_small) (simp add: op_weight_def)
    then show ?thesis
      using F SeekStart by (intro exI [of _ sw]) (simp add: await_seek_def poll_complete_def
          seek_outcome_def checked_position_def seek_goal_def same)
  next
    case (SeekCurrent d)
    then have "sint (fl_pos f + d) = int p + sint d"
      using small F by (subst sint_add_small) (simp_all add: op_weight_def extent_def)
    then show ?thesis
      using F SeekCurrent by (intro exI [of _ sw]) (simp add: await_seek_def poll_complete_def
          seek_outcome_def checked_position_def seek_goal_def same)
  next
    case (SeekEnd d)
    from fstat_law [of sw] F obtain a sw' where a: "raw_fstat W handle sw = (Ok a, sw')" "I sw'"
        "stored sw' = c" "attr_size (attrs_reply_attrs a) = Some (of_nat (length c))" by auto
    have len: "unat (of_nat (length c) :: u64) = length c"
      using small by (simp add: extent_def unat_of_nat)
    have "sint (of_nat (length c) + d) = int (length c) + sint d"
      using small SeekEnd len sint_add_small [of "of_nat (length c)" d]
      by (simp add: op_weight_def extent_def)
    then show ?thesis
      using F SeekEnd a by (intro exI [of _ sw']) (simp add: await_seek_def poll_complete_def
          seek_outcome_def checked_position_def seek_goal_def same)
  qed
qed
end
lemma unat_of_goal: "0 \<le> g \<Longrightarrow> g < 2 ^ 63 \<Longrightarrow> unat (of_int g :: 64 word) = nat g"
  by (simp add: unsigned_of_int take_bit_int_eq_self flip: nat_uint_eq)

context file_peer
begin

lemma seek_step:
  assumes f: "stands_for f sw (c, p)" and small: "extent (c, p) + op_weight (OpSeek position) < 2 ^ 63"
  shows "\<exists>r f' sw' a'. remote_op W (OpSeek position) f sw = (r, f', sw')
    \<and> local_step (c, p) (OpSeek position) r a' \<and> I sw' \<and> a' = (stored sw', unat (fl_pos f'))
    \<and> (r \<noteq> Failed \<longrightarrow> stands_for f' sw' a')"
proof -
  note F = f [unfolded stands_for_def quiet_def]
  from awaited_seek [OF f small] obtain sw' where
    s: "await_seek W (f\<lparr>fl_seek := Some (SeekRunning handle position (fl_pos f))\<rparr>) sw
      = (if seek_goal position c p < 0
         then (Ready (Err [Lit ''cannot move file pointer before the beginning'']),
               f\<lparr>fl_seek := Some SeekFinished\<rparr>, sw')
         else (Ready (Ok (of_int (seek_goal position c p))), f\<lparr>fl_pos := of_int (seek_goal position c p)\<rparr>, sw'))"
      "I sw'" "stored sw' = c" by blast
  have op: "remote_op W (OpSeek position) f sw
      = (if seek_goal position c p < 0 then (Failed, f\<lparr>fl_seek := Some SeekFinished\<rparr>, sw')
         else (At (unat (of_int (seek_goal position c p) :: u64)),
               f\<lparr>fl_pos := of_int (seek_goal position c p)\<rparr>, sw'))"
    using F s(1) by (simp add: remote_op_def file_seek_def await_seek_def [of W f] poll_complete_def
        start_seek_def)
  show ?thesis
  proof (cases "seek_goal position c p < 0")
    case True
    then show ?thesis using op F s(2,3) local_step.refused [OF True] by auto
  next
    case False
    have "extent (c, nat (seek_goal position c p)) < 2 ^ 63"
      using local_step_extent [OF local_step.moved, of position c p] False small by simp
    then have "unat (of_int (seek_goal position c p) :: u64) = nat (seek_goal position c p)"
      using False by (intro unat_of_goal) (simp_all add: extent_def nat_less_iff)
    then show ?thesis
      using op False F s(2,3) local_step.moved [of position c p]
      by (auto simp: stands_for_def quiet_def)
  qed
qed

lemma op_step:
  assumes f: "stands_for f sw a" and "op_ok op" and small: "extent a + op_weight op < 2 ^ 63"
  shows "\<exists>r f' sw' a'. remote_op W op f sw = (r, f', sw') \<and> local_step a op r a' \<and> I sw'
    \<and> a' = (stored sw', unat (fl_pos f')) \<and> (r \<noteq> Failed \<longrightarrow> stands_for f' sw' a')"
proof -
  obtain c p where a: "a = (c, p)" by (cases a)
  have close: "stands_for f' sw' a' \<Longrightarrow> I sw' \<and> a' = (stored sw', unat (fl_pos f'))" for f' sw' a'
    by (simp add: stands_for_def)
  show ?thesis
  proof (cases op)
    case (OpRead n)
    then show ?thesis
      using read_step [of f sw c p n] assms close unfolding a by (fastforce simp: op_ok_def op_weight_def)
  next
    case (OpWrite buf)
    then show ?thesis
      using write_step [of f sw c p buf] assms close unfolding a by (fastforce simp: op_ok_def op_weight_def)
  next
    case (OpSeek position)
    then show ?thesis using seek_step [of f sw c p position] assms unfolding a by simp
  qed
qed

lemma local_step_sane: "local_step a op r a' \<Longrightarrow> r \<noteq> Crashed"
  by (auto elim: local_stepE)

lemma run_refines:
  assumes "stands_for f sw a" and "list_all op_ok ops"
    and "extent a + sum_list (map op_weight ops) < 2 ^ 63"
  shows "\<exists>rs f' sw'. remote_run W ops f sw = (rs, f', sw')
    \<and> local_run a ops rs (stored sw', unat (fl_pos f')) \<and> I sw'"
  using assms
proof (induction ops arbitrary: f sw a)
  case Nil
  then show ?case by (auto simp: stands_for_def intro: local_run.finished)
next
  case (Cons op ops)
  then have "op_ok op" "extent a + op_weight op < 2 ^ 63" by simp_all
  from op_step [OF Cons.prems(1) this] obtain r f1 sw1 a1 where op: "remote_op W op f sw = (r, f1, sw1)" "local_step a op r a1" "I sw1"
      "a1 = (stored sw1, unat (fl_pos f1))" "r \<noteq> Failed \<longrightarrow> stands_for f1 sw1 a1"
    by blast
  show ?case
  proof (cases "r = Failed")
    case True
    then show ?thesis using op by (auto intro: local_run.stopped)
  next
    case False
    moreover from this have "stands_for f1 sw1 a1" using op(5) by simp
    moreover have "extent a1 + sum_list (map op_weight ops) < 2 ^ 63"
      using local_step_extent [OF op(2)] Cons.prems(3) by simp
    ultimately obtain rs f' sw' where "remote_run W ops f1 sw1 = (rs, f', sw')"
        "local_run a1 ops rs (stored sw', unat (fl_pos f'))" "I sw'"
      using Cons.IH [of f1 sw1 a1] Cons.prems(2) by auto
    then show ?thesis
      using op False local_step_sane [OF op(2)] by (auto intro: local_run.step)
  qed
qed

end

section \<open>Properties of remote files\<close>

text \<open>C7: A remote file is a local file: any program of reads, writes and seeks on the client's file
  has, against any peer that keeps the content, the outcomes that a local file with the same content
  and position can have, short reads and partial writes included, up to and with its first error,
  and leaves the peer with the content and the client with the position of that local file.\<close>

theorem remote_file_refines_local:
  assumes "file_peer W I handle chunk stored" and "I sw" and "fl_handle f = handle" and "quiet f"
    and "limits_ok chunk (fl_extensions f)" and "list_all op_ok ops"
    and "extent (stored sw, unat (fl_pos f)) + sum_list (map op_weight ops) < 2 ^ 63"
  shows "\<exists>rs f' sw'. remote_run W ops f sw = (rs, f', sw')
    \<and> local_run (stored sw, unat (fl_pos f)) ops rs (stored sw', unat (fl_pos f')) \<and> I sw'"
proof -
  have "file_peer.stands_for I handle chunk stored f sw (stored sw, unat (fl_pos f))"
    unfolding file_peer.stands_for_def [OF assms(1)] using assms(2-5) by simp
  then show ?thesis using assms(6,7) by (rule file_peer.run_refines [OF assms(1)])
qed

theorem remote_file_refines_local_witness:
  "\<exists>rs f' sw'. remote_run (loopback one_file_handler)
      [OpWrite [1, 2, 3], OpSeek (SeekEnd (-2)), OpRead 8, OpSeek (SeekCurrent (-7))]
      (plain_file\<lparr>fl_handle := [65]\<rparr>) (session_ready, []) = (rs, f', sw')
    \<and> local_run ([], unat (fl_pos (plain_file\<lparr>fl_handle := [65]\<rparr>)))
        [OpWrite [1, 2, 3], OpSeek (SeekEnd (-2)), OpRead 8, OpSeek (SeekCurrent (-7))] rs
        (snd sw', unat (fl_pos f')) \<and> unlimited (fst sw')"
  using remote_file_refines_local [OF one_file.peer.file_peer_axioms, of "(session_ready, [])"
      "plain_file\<lparr>fl_handle := [65]\<rparr>"
      "[OpWrite [1, 2, 3], OpSeek (SeekEnd (-2)), OpRead 8, OpSeek (SeekCurrent (-7))]"]
  by (simp add: unlimited_def idle_ready quiet_def plain_file_def file_open_def limits_ok_def
      limit_or_def MAX_READ_LENGTH_def MAX_WRITE_LENGTH_def op_ok_def op_weight_def extent_def)

end
