(* ===== verification/ExampleClient.thy ===== *)
theory ExampleClient
  imports LocalFile Listing
begin

text \<open>
  The program of \<^verbatim>\<open>examples/client.rs\<close> from the point where it has a stream: it creates a session,
  works with names and a directory, then with the contents of a file. Every \<^verbatim>\<open>unwrap\<close> of an error ends it
  with a panic. What it logs is its result. Its SSH connection is not modelled.
\<close>

section \<open>Awaited flush, shutdown and reads of text\<close>

definition file_flush :: "'w waits \<Rightarrow> ((unit, file_error) result poll, 'w) on_file" where
  "file_flush W f sw =
     (if \<not> ext_fsync (fl_extensions f) then
        (case poll_flush (\<lambda>_. None) f of (r, f) \<Rightarrow> (r, f, sw))
      else
        (case raw_fsync W (case fl_flush f of Some handle \<Rightarrow> handle | None \<Rightarrow> fl_handle f) sw of
           (result, sw) \<Rightarrow> (case poll_flush (\<lambda>_. Some result) f of (r, f) \<Rightarrow> (r, f, sw))))"

definition file_shutdown :: "'w waits \<Rightarrow> ((unit, file_error) result poll, 'w) on_file" where
  "file_shutdown W f sw =
     (case raw_close W (case fl_shutdown f of Some handle \<Rightarrow> handle | None \<Rightarrow> fl_handle f) sw of
        (result, sw) \<Rightarrow> (case poll_shutdown (\<lambda>_. Some result) f of (r, f) \<Rightarrow> (r, f, sw)))"

text \<open>\<^verbatim>\<open>read_to_string\<close> reads to the end and asks for UTF-8, \<^verbatim>\<open>read_u8\<close> for one byte.\<close>

definition read_to_string ::
  "'w waits \<Rightarrow> (nat \<Rightarrow> nat) \<Rightarrow> remote_file \<Rightarrow> raw_session \<times> 'w
     \<Rightarrow> ((bytes, file_error) result poll \<times> remote_file \<times> raw_session \<times> 'w) option" where
  "read_to_string W room f sw =
     (case read_to_end W room 0 [] f sw of
        Some (Ready (Ok data), f, sw) \<Rightarrow>
          Some (Ready (if valid_utf8 data then Ok data
                       else Err [Lit ''stream did not contain valid UTF-8'']), f, sw)
      | r \<Rightarrow> r)"

definition read_u8 :: "'w waits \<Rightarrow> ((u8, file_error) result poll, 'w) on_file" where
  "read_u8 W f sw =
     (case file_read W 1 f sw of
        (Ready (Ok (b # _)), f, sw) \<Rightarrow> (Ready (Ok b), f, sw)
      | (Ready (Ok []), f, sw) \<Rightarrow> (Ready (Err [Lit ''early eof'']), f, sw)
      | (Ready (Err e), f, sw) \<Rightarrow> (Ready (Err e), f, sw)
      | (Pending, f, sw) \<Rightarrow> (Pending, f, sw)
      | (Panicked, f, sw) \<Rightarrow> (Panicked, f, sw))"

section \<open>The program\<close>

datatype log_line =
    CurrentPath bytes
  | DirInfo file_attributes
  | SymlinkInfo file_attributes
  | FileInDirectory bytes
  | MetadataByHandle file_attributes
  | FlushResult "(unit, file_error) result poll"
  | CursorPosition "(u64, file_error) result poll"
  | MagicalContents bytes "(u64, file_error) result poll"
  | ShouldFail "(u8, file_error) result poll"

text \<open>
  A run logs, finishes or panics, and leaves the handles whose files it dropped open, each with a task
  that has yet to close it (\<open>drop_task\<close>), and a state; it may also wait for ever.
\<close>

type_synonym 's ended = "(log_line list \<times> bool \<times> bytes list \<times> 's) option"

definition dropped_file :: "remote_file \<Rightarrow> bytes list" where
  "dropped_file f = (case file_drop f of None \<Rightarrow> [] | Some handle \<Rightarrow> [handle])"

text \<open>An \<^verbatim>\<open>unwrap\<close>: a panic drops what is in scope.\<close>

definition unwrapped ::
  "log_line list \<Rightarrow> bytes list \<Rightarrow> ('a, 'e) result \<times> 's \<Rightarrow> ('a \<Rightarrow> 's \<Rightarrow> 's ended) \<Rightarrow> 's ended" where
  "unwrapped log dropped r k = (case r of (Ok x, s) \<Rightarrow> k x s | (Err e, s) \<Rightarrow> Some (log, False, dropped, s))"

definition unwrapped_poll ::
  "log_line list \<Rightarrow> ('a, 'e) result poll \<times> remote_file \<times> 's \<Rightarrow> ('a \<Rightarrow> remote_file \<Rightarrow> 's \<Rightarrow> 's ended) \<Rightarrow> 's ended" where
  "unwrapped_poll log r k =
     (case r of (Ready (Ok x), f, s) \<Rightarrow> k x f s | (_, f, s) \<Rightarrow> Some (log, False, dropped_file f, s))"

lemma unwrapped_simps [simp]:
  "unwrapped log dropped (Ok x, s) k = k x s"
  "unwrapped log dropped (Err e, s) k = Some (log, False, dropped, s)"
  "unwrapped_poll log (Ready (Ok x), f, s) k' = k' x f s"
  by (simp_all add: unwrapped_def unwrapped_poll_def)

definition example_names ::
  "'w waits \<Rightarrow> raw_session \<times> 'w \<Rightarrow> (log_line list \<Rightarrow> raw_session \<times> 'w \<Rightarrow> (raw_session \<times> 'w) ended)
     \<Rightarrow> (raw_session \<times> 'w) ended" where
  "example_names W sw k =
     unwrapped [] [] (sftp_canonicalize W (lit ''.'') sw) (\<lambda>current sw.
     let log = [CurrentPath current]; path = lit ''./some_kind_of_dir''; symlink = lit ''./symlink'' in
     unwrapped log [] (sftp_create_dir W path sw) (\<lambda>_ sw.
     unwrapped log [] (sftp_symlink W path symlink sw) (\<lambda>_ sw.
     unwrapped log [] (sftp_metadata W path sw) (\<lambda>info sw.
     let log = log @ [DirInfo info] in
     unwrapped log [] (sftp_symlink_metadata W path sw) (\<lambda>info sw.
     let log = log @ [SymlinkInfo info] in
     (case sftp_read_dir W (lit ''.'') sw of
        None \<Rightarrow> None
      | Some listed \<Rightarrow>
          unwrapped log [] listed (\<lambda>entries sw.
          let log = log @ map (\<lambda>e. FileInDirectory (entry_file_name e)) (read_dir_all entries) in
          unwrapped log [] (sftp_remove_file W symlink sw) (\<lambda>_ sw.
          unwrapped log [] (sftp_remove_dir W path sw) (\<lambda>_ sw. k log sw)))))))))"

definition example_io ::
  "'w waits \<Rightarrow> (nat \<Rightarrow> nat) \<Rightarrow> extensions \<Rightarrow> log_line list \<Rightarrow> raw_session \<times> 'w \<Rightarrow> (raw_session \<times> 'w) ended" where
  "example_io W room e log sw =
     (let filename = lit ''test_new.txt'' in
     unwrapped log [] (sftp_open_with_flags W e filename
         (OPEN_CREATE OR OPEN_TRUNCATE OR OPEN_WRITE OR OPEN_READ) sw) (\<lambda>f sw.
     unwrapped log (dropped_file f) (file_metadata W f sw) (\<lambda>info sw.
     let log = log @ [MetadataByHandle info] in
     (case write_all_file W (lit ''magic text'') f sw of (r, f, sw) \<Rightarrow>
     unwrapped log (dropped_file f) (r, sw) (\<lambda>_ sw.
     (case file_flush W f sw of (flushed, f, sw) \<Rightarrow>
     (case file_seek W (SeekCurrent 0) f sw of (position, f, sw) \<Rightarrow>
     let log = log @ [FlushResult flushed, CursorPosition position] in
     unwrapped_poll log (file_seek W (SeekStart 0) f sw) (\<lambda>_ f sw.
     (case read_to_string W room f sw of
        None \<Rightarrow> None
      | Some contents \<Rightarrow>
          unwrapped_poll log contents (\<lambda>str f sw.
          unwrapped_poll log (file_seek W (SeekStart 0) f sw) (\<lambda>_ f sw.
          (case file_seek W (SeekCurrent 0) f sw of (position, f, sw) \<Rightarrow>
          let log = log @ [MagicalContents str position] in
          unwrapped_poll log (file_shutdown W f sw) (\<lambda>_ f sw.
          unwrapped log (dropped_file f) (sftp_remove_file W filename sw) (\<lambda>_ sw.
          (case read_u8 W f sw of (byte, f, sw) \<Rightarrow>
             Some (log @ [ShouldFail byte], True, dropped_file f, sw))))))))))))))))"

text \<open>
  The session is dropped at the end, on a panic too; it is closed then unless a file whose close has
  yet to run still holds it.
\<close>

definition leave_session :: "(raw_session \<times> 'w) ended \<Rightarrow> (raw_session \<times> 'w) ended" where
  "leave_session r = map_option (\<lambda>(log, finished, dropped, sw).
     (log, finished, dropped, if dropped = [] then apfst drop_session sw else sw)) r"

definition example_client :: "'w waits \<Rightarrow> (nat \<Rightarrow> nat) \<Rightarrow> raw_session \<times> 'w \<Rightarrow> (raw_session \<times> 'w) ended" where
  "example_client W room sw =
     unwrapped [] [] (sftp_new W sw) (\<lambda>e sw.
     leave_session (example_names W sw (\<lambda>log sw. example_io W room e log sw)))"

section \<open>Seeks without the server\<close>

lemma rewind_quiet: "quiet f \<Longrightarrow> file_seek W (SeekStart 0) f sw = (Ready (Ok 0), f\<lparr>fl_pos := 0\<rparr>, sw)"
  by (cases f) (simp add: quiet_def file_seek_def await_seek_def poll_complete_def start_seek_def
      seek_outcome_def checked_position_def)

lemma position_quiet:
  "quiet f \<Longrightarrow> unat (fl_pos f) < 2 ^ 63 \<Longrightarrow> file_seek W (SeekCurrent 0) f sw = (Ready (Ok (fl_pos f)), f, sw)"
  by (cases f) (simp add: quiet_def file_seek_def await_seek_def poll_complete_def start_seek_def
      seek_outcome_def checked_position_def sint_small)

lemma magic_text: "valid_utf8 (lit ''magic text'')" "length (lit ''magic text'') = 10"
  by (simp_all add: valid_utf8_ascii lit_def)

section \<open>Properties of the example client\<close>

lemma read_u8_refused:
  assumes "fl_read f = None"
    and "raw_read W (fl_handle f) (fl_pos f) (rf_len (fst (start_read 1 f))) sw = (Err (CE_Status st), sw')"
    and "status_status_code st \<noteq> SC_Eof"
  shows "read_u8 W f sw = (Ready (Err (display_client_error (CE_Status st))), f, sw')"
proof -
  obtain fut where fut: "start_read 1 f = (fut, f\<lparr>fl_read := Some fut\<rparr>)" "rf_handle fut = fl_handle f"
      "rf_offset fut = fl_pos f"
    using assms(1) by (auto simp: start_read_def Let_def)
  have "f\<lparr>fl_read := None\<rparr> = f" using assms(1) by (cases f) simp
  then show ?thesis
    using assms(2,3) by (simp add: read_u8_def file_read_def fut finish_read_def read_outcome_def Let_def
        del: One_nat_def)
qed

lemma example_io_runs:
  assumes peer: "file_peer W I handle chunk stored"
    and o: "raw_open W (lit ''test_new.txt'')
        (OPEN_CREATE OR OPEN_TRUNCATE OR OPEN_WRITE OR OPEN_READ) attrs_empty sw = (Ok reply, sw1)"
      "handle_handle reply = handle" "I sw1" "stored sw1 = []"
    and closes: "\<And>sw. I sw \<Longrightarrow> \<exists>st sw'. raw_close W handle sw = (Ok st, sw') \<and> K sw'"
    and removes: "\<And>sw. K sw \<Longrightarrow> \<exists>st sw'. raw_remove W (lit ''test_new.txt'') sw = (Ok st, sw') \<and> J sw'"
    and late: "\<And>sw. J sw \<Longrightarrow> \<exists>byte f' sw'. read_u8 W ((file_open handle e)\<lparr>fl_closed := True\<rparr>) sw = (byte, f', sw')
      \<and> fl_closed f' \<and> Q byte sw'"
    and limits: "limits_ok chunk e" and nofsync: "\<not> ext_fsync e"
    and room: "\<And>i. 0 < read_size (room i) e \<and> read_size (room i) e < 2 ^ 32"
  shows "\<exists>info byte sw'. example_io W room e log sw
      = Some (log @ [MetadataByHandle info, FlushResult (Ready (Ok ())), CursorPosition (Ready (Ok 10)),
          MagicalContents (lit ''magic text'') (Ready (Ok 0)), ShouldFail byte], True, [], sw')
    \<and> attr_size info = Some 0 \<and> Q byte sw'"
proof -
  let ?text = "lit ''magic text''"
  let ?f = "file_open handle e"
  let ?g = "?f\<lparr>fl_pos := 10\<rparr>"
  have quiet: "quiet ?f" "quiet ?g" by (simp_all add: quiet_def file_open_def)
  have handle: "fl_handle ?f = handle" "fl_extensions ?f = e" "fl_pos ?f = 0"
      "fl_read ?f = None" "fl_write ?f = None" by (simp_all add: file_open_def)
  obtain info sw2 where m: "raw_fstat W handle sw1 = (Ok info, sw2)" "I sw2" "stored sw2 = []"
      "attr_size (attrs_reply_attrs info) = Some 0"
    using file_peer.fstat_law [OF peer o(3)] o(4) by auto
  have "accepts_writes W I (fl_handle ?f) chunk stored"
    unfolding handle by (rule file_peer.accepts [OF peer])
  from write_all_stored [OF this m(2), of ?text] limits obtain sw3 where
    w: "write_all_file W ?text ?f sw2 = (Ok (), ?g, sw3)" "I sw3" "stored sw3 = ?text"
    by (auto simp: handle m(3) magic_text limits_ok_def overwrite_def)
  have serves: "serves_content W (\<lambda>sw. I sw \<and> stored sw = ?text) (fl_handle ?f) ?text"
    unfolding handle by (rule file_peer.serves [OF peer])
  have "\<exists>sw'. read_to_end W room 0 [] ?f sw3 = Some (Ready (Ok ?text), ?g, sw')
      \<and> (I sw' \<and> stored sw' = ?text)"
    using read_to_end_content [where room = room and i = 0 and buffer = "[]" and sw = sw3, OF serves]
      w room by (simp add: handle magic_text)
  then obtain sw4 where r: "read_to_end W room 0 [] ?f sw3 = Some (Ready (Ok ?text), ?g, sw4)" "I sw4"
    by blast
  obtain st sw5 where c: "raw_close W handle sw4 = (Ok st, sw5)" "K sw5" using closes [OF r(2)] by blast
  obtain st' sw6 where d: "raw_remove W (lit ''test_new.txt'') sw5 = (Ok st', sw6)" "J sw6"
    using removes [OF c(2)] by blast
  have same: "?g\<lparr>fl_pos := 0\<rparr> = ?f" by (simp add: file_open_def)
  have shut: "file_shutdown W ?f sw4 = (Ready (Ok ()), ?f\<lparr>fl_closed := True\<rparr>, sw5)"
    using c(1) by (simp add: file_shutdown_def poll_shutdown_def file_open_def)
  obtain byte f7 sw7 where b: "read_u8 W (?f\<lparr>fl_closed := True\<rparr>) sw6 = (byte, f7, sw7)" "fl_closed f7" "Q byte sw7"
    using late [OF d(2)] by blast
  have flush: "file_flush W ?g sw3 = (Ready (Ok ()), ?g, sw3)"
    using nofsync by (simp add: file_flush_def poll_flush_def file_open_def)
  have pos10: "file_seek W (SeekCurrent 0) ?g s = (Ready (Ok 10), ?g, s)" for s
    using position_quiet [OF quiet(2)] by simp
  have pos0: "file_seek W (SeekCurrent 0) ?f s = (Ready (Ok 0), ?f, s)" for s
    using position_quiet [OF quiet(1)] by (simp add: handle)
  have rew: "file_seek W (SeekStart 0) ?g s = (Ready (Ok 0), ?f, s)" for s
    using rewind_quiet [OF quiet(2)] same by simp
  have "example_io W room e log sw
      = Some (log @ [MetadataByHandle (attrs_reply_attrs info), FlushResult (Ready (Ok ())),
          CursorPosition (Ready (Ok 10)), MagicalContents ?text (Ready (Ok 0)), ShouldFail byte], True, [], sw7)"
    by (simp add: example_io_def sftp_open_with_flags_def sftp_open_with_flags_and_attributes_def
        o(1,2) file_metadata_def handle m(1) w(1) flush pos10 rew r(1) read_to_string_def magic_text(1)
        pos0 shut sftp_remove_file_def d(1) discard_def b(1) dropped_file_def file_drop_def b(2))
  then show ?thesis using m(4) b(3) by blast
qed

lemma dir_name_fits: "string_fits (lit ''./some_kind_of_dir'')" "length (lit ''./some_kind_of_dir'') < 2 ^ 30"
    "string_fits (lit ''.'')" "length (lit ''.'') < 2 ^ 30"
  by (simp_all add: string_fits_def valid_utf8_ascii lit_def)

lemma sendable_root: "sendable (Name \<lparr>name_id = i, name_files = [file_dummy (lit ''/'')]\<rparr>)"
proof -
  have "valid_utf8 (lit ''/'')" "valid_utf8 (lit '''')" by (simp_all add: valid_utf8_ascii lit_def)
  then show ?thesis
    using wire_attrs_length [of attrs_default]
    by (simp add: sendable_def fits_name_def files_fit_def fits_file_def string_fits_def file_dummy_def
        frame_fits_def packet_body_def wire_name_def wire_vec_def wire_file_def wire_string_def lit_def)
qed

lemma example_canonicalizes:
  assumes "idle s"
  obtains s' where "sftp_canonicalize (loopback (example_handler fmt)) (lit ''.'') (s, h)
      = (Ok (lit ''/''), s', h)" "idle s'"
proof -
  obtain s' where "raw_realpath (loopback (example_handler fmt)) (lit ''.'') (s, h)
      = (name_reply (example_handler fmt) (rs_next_req_id s)
           (Ok \<lparr>name_id = rs_next_req_id s, name_files = [file_dummy (lit ''/'')]\<rparr>), s', h)" "call_frame s s'"
    using example_echo.realpath_served [of s "lit ''.''" fmt h] assms dir_name_fits sendable_root
    by (auto simp: example_realpath_def)
  then have "sftp_canonicalize (loopback (example_handler fmt)) (lit ''.'') (s, h) = (Ok (lit ''/''), s', h)"
    by (simp add: sftp_canonicalize_def name_reply_def norm_name_def norm_file_def first_name_def file_dummy_def)
  then show thesis by (rule that) (use \<open>call_frame s s'\<close> in \<open>simp add: call_frame_def\<close>)
qed

lemma example_refuses_dirs:
  assumes "idle s"
  obtains err s' where "sftp_create_dir (loopback (example_handler fmt)) (lit ''./some_kind_of_dir'') (s, h)
      = (Err err, s', h)"
proof -
  have "h_mkdir (example_handler fmt) i path attrs h = (Err SC_OpUnsupported, h)" for i path attrs
    by (simp add: example_handler_def default_handler_def example_unimplemented_def)
  then obtain s' where "raw_mkdir (loopback (example_handler fmt)) (lit ''./some_kind_of_dir'') attrs_empty (s, h)
      = (status_reply (example_handler fmt) (rs_next_req_id s) (Err SC_OpUnsupported), s', h)"
    using example_echo.mkdir_served [of s "lit ''./some_kind_of_dir''" fmt attrs_empty h] assms dir_name_fits
    by auto
  then have "sftp_create_dir (loopback (example_handler fmt)) (lit ''./some_kind_of_dir'') (s, h)
      = (Err (status_error (example_handler fmt) (rs_next_req_id s) SC_OpUnsupported), s', h)"
    by (simp add: sftp_create_dir_def discard_def status_reply_err)
  then show thesis by (rule that)
qed

text \<open>The two examples do not go together: connected to the example server, the example client
  creates its session and learns the current path, and then panics because the server does not
  create directories.\<close>

theorem example_client_panics_on_example_server:
  "\<exists>s'. example_client (loopback (example_handler fmt)) room (raw_new, example_default)
    = Some ([CurrentPath (lit ''/'')], False, [], s', example_default\<lparr>ex_version := Some VERSION\<rparr>)"
proof -
  let ?W = "loopback (example_handler fmt)"
  let ?h = "example_default\<lparr>ex_version := Some VERSION\<rparr>"
  have h: "h_init (example_handler fmt) VERSION [] example_default = (Ok version_new, ?h)"
    by (simp add: example_init_def example_default_def)
  have v: "sendable (Version version_new)"
    by (simp add: sendable_def fits_version_def version_new_def string_map_fits_def frame_fits_def
        packet_body_def wire_version_def wire_entries_def)
  obtain s1 where i: "raw_init ?W (raw_new, example_default) = (Ok version_new, s1, ?h)" "idle s1"
    using init_served [OF connected_new h v] by blast
  have "\<not> announces version_new name revision" for name revision
    by (simp add: announces_def version_new_def)
  then obtain e where new: "sftp_new ?W (raw_new, example_default) = (Ok e, s1, ?h)"
    using i(1) by (simp add: sftp_new_def sftp_new_opts_def Let_def)
  obtain s2 where c: "sftp_canonicalize ?W (lit ''.'') (s1, ?h) = (Ok (lit ''/''), s2, ?h)" "idle s2"
    by (rule example_canonicalizes [OF i(2)])
  obtain err s3 where "sftp_create_dir ?W (lit ''./some_kind_of_dir'') (s2, ?h) = (Err err, s3, ?h)"
    by (rule example_refuses_dirs [OF c(2)])
  then show ?thesis using new c(1) by (simp add: example_client_def leave_session_def example_names_def Let_def)
qed

end
