(* ===== verification/RemoteFs.thy ===== *)
theory RemoteFs
  imports Listing "HOL-Library.Multiset"
begin

text \<open>
  The high-level session as a remote file system. A file system is given as a function of the calls
  a program makes (\<open>fs_call\<close>, one per method of \<^verbatim>\<open>SftpSession\<close> on names) and a state. \<open>fs_server\<close> is the
  contract of a handler that serves one; then a program that makes its calls through the session,
  the wire and the crate's server gets the answers it would get from the file system itself.
\<close>

section \<open>Calls and answers\<close>

datatype fs_call =
    CreateDir bytes
  | RemoveDir bytes
  | RemoveFile bytes
  | RenamePath bytes bytes
  | CreateSymlink bytes bytes
  | FollowLink bytes
  | Metadata bytes
  | SymlinkMetadata bytes
  | SetMetadata bytes file_attributes
  | Canonicalize bytes
  | TryExists bytes
  | ListDir bytes

datatype fs_answer =
    Done
  | Attributes file_attributes
  | Path bytes
  | Exists bool
  | Entries entries

type_synonym 'f file_system = "fs_call \<Rightarrow> 'f \<Rightarrow> (fs_answer, status_code) result \<times> 'f"

text \<open>
  A local program. Asking whether a path exists looks at its metadata; attributes are taken as they
  arrive, with half-given pairs completed.
\<close>

fun local_call :: "'f file_system \<Rightarrow> 'f file_system" where
  "local_call fs (TryExists p) f =
     (case fs (Metadata p) f of
        (Ok _, f) \<Rightarrow> (Ok (Exists True), f)
      | (Err code, f) \<Rightarrow> (if code = SC_NoSuchFile then Ok (Exists False) else Err code, f))"
| "local_call fs (SetMetadata p a) f = fs (SetMetadata p (norm_attrs a)) f"
| "local_call fs c f = fs c f"

fun run_local :: "'f file_system \<Rightarrow> fs_call list \<Rightarrow> 'f \<Rightarrow> (fs_answer, status_code) result list \<times> 'f" where
  "run_local fs [] f = ([], f)"
| "run_local fs (c # cs) f =
     (case local_call fs c f of (r, f) \<Rightarrow> case run_local fs cs f of (rs, f) \<Rightarrow> (r # rs, f))"

text \<open>The same calls on a session.\<close>

definition answer :: "('a \<Rightarrow> fs_answer) \<Rightarrow> ('a, 'e) result \<times> 's \<Rightarrow> (fs_answer, 'e) result \<times> 's" where
  "answer f r = (case r of (x, s) \<Rightarrow> (map_ok f x, s))"

fun remote_call ::
  "'w waits \<Rightarrow> fs_call \<Rightarrow> raw_session \<times> 'w \<Rightarrow> ((fs_answer, client_error) result \<times> raw_session \<times> 'w) option" where
  "remote_call W (CreateDir p) sw = Some (answer (\<lambda>_. Done) (sftp_create_dir W p sw))"
| "remote_call W (RemoveDir p) sw = Some (answer (\<lambda>_. Done) (sftp_remove_dir W p sw))"
| "remote_call W (RemoveFile p) sw = Some (answer (\<lambda>_. Done) (sftp_remove_file W p sw))"
| "remote_call W (RenamePath p q) sw = Some (answer (\<lambda>_. Done) (sftp_rename W p q sw))"
| "remote_call W (CreateSymlink p t) sw = Some (answer (\<lambda>_. Done) (sftp_symlink W p t sw))"
| "remote_call W (FollowLink p) sw = Some (answer Path (sftp_read_link W p sw))"
| "remote_call W (Metadata p) sw = Some (answer Attributes (sftp_metadata W p sw))"
| "remote_call W (SymlinkMetadata p) sw = Some (answer Attributes (sftp_symlink_metadata W p sw))"
| "remote_call W (SetMetadata p a) sw = Some (answer (\<lambda>_. Done) (sftp_set_metadata W p a sw))"
| "remote_call W (Canonicalize p) sw = Some (answer Path (sftp_canonicalize W p sw))"
| "remote_call W (TryExists p) sw = Some (answer Exists (sftp_try_exists W p sw))"
| "remote_call W (ListDir p) sw = map_option (answer Entries) (sftp_read_dir W p sw)"

fun run_remote ::
  "'w waits \<Rightarrow> fs_call list \<Rightarrow> raw_session \<times> 'w
     \<Rightarrow> ((fs_answer, client_error) result list \<times> raw_session \<times> 'w) option" where
  "run_remote W [] sw = Some ([], sw)"
| "run_remote W (c # cs) sw =
     (case remote_call W c sw of
        None \<Rightarrow> None
      | Some (r, sw) \<Rightarrow> map_option (\<lambda>(rs, sw). (r # rs, sw)) (run_remote W cs sw))"

text \<open>
  What a remote answer has to do with a local one: attributes are completed, the entries of a
  directory come in any order, an error is a status with its code.
\<close>

definition norm_entries :: "entries \<Rightarrow> entries" where
  "norm_entries es = map (\<lambda>(name, a). (name, norm_attrs a)) es"

fun same_answer :: "(fs_answer, status_code) result \<Rightarrow> (fs_answer, client_error) result \<Rightarrow> bool" where
  "same_answer (Ok (Attributes a)) r \<longleftrightarrow> r = Ok (Attributes (norm_attrs a))"
| "same_answer (Ok (Entries es)) r \<longleftrightarrow> (\<exists>es'. r = Ok (Entries es') \<and> mset es' = mset (norm_entries es))"
| "same_answer (Ok a) r \<longleftrightarrow> r = Ok a"
| "same_answer (Err code) r \<longleftrightarrow> (\<exists>st. r = Err (CE_Status st) \<and> status_status_code st = code)"

definition path_ok :: "bytes \<Rightarrow> bool" where
  "path_ok p \<longleftrightarrow> string_fits p \<and> length p < 2 ^ 30"

fun call_ok :: "fs_call \<Rightarrow> bool" where
  "call_ok (CreateDir p) \<longleftrightarrow> path_ok p"
| "call_ok (RemoveDir p) \<longleftrightarrow> path_ok p"
| "call_ok (RemoveFile p) \<longleftrightarrow> path_ok p"
| "call_ok (RenamePath p q) \<longleftrightarrow> path_ok p \<and> path_ok q"
| "call_ok (CreateSymlink p t) \<longleftrightarrow> path_ok p \<and> path_ok t"
| "call_ok (FollowLink p) \<longleftrightarrow> path_ok p"
| "call_ok (Metadata p) \<longleftrightarrow> path_ok p"
| "call_ok (SymlinkMetadata p) \<longleftrightarrow> path_ok p"
| "call_ok (SetMetadata p a) \<longleftrightarrow> path_ok p"
| "call_ok (Canonicalize p) \<longleftrightarrow> path_ok p"
| "call_ok (TryExists p) \<longleftrightarrow> path_ok p"
| "call_ok (ListDir p) \<longleftrightarrow> path_ok p"

section \<open>The contract of a handler\<close>

text \<open>
  The outcome \<open>res\<close> of a method meets the outcome \<open>out\<close> of the file system: the states correspond, an
  answer is \<open>good\<close> for the file system's, an error has its code.
\<close>

definition meets ::
  "('h \<Rightarrow> bool) \<Rightarrow> ('h \<Rightarrow> 'f) \<Rightarrow> ('e \<Rightarrow> status_code) \<Rightarrow> ('r \<Rightarrow> fs_answer \<Rightarrow> bool)
     \<Rightarrow> ('r, 'e) result \<times> 'h \<Rightarrow> (fs_answer, status_code) result \<times> 'f \<Rightarrow> bool" where
  "meets I view code good res out \<longleftrightarrow> I (snd res) \<and> view (snd res) = snd out
     \<and> (case fst out of
          Ok a \<Rightarrow> (\<exists>x. fst res = Ok x \<and> good x a)
        | Err c \<Rightarrow> c \<noteq> SC_Ok \<and> (\<exists>e. fst res = Err e \<and> code e = c))"

definition good_status :: "status_msg \<Rightarrow> fs_answer \<Rightarrow> bool" where
  "good_status x a \<longleftrightarrow> a = Done \<and> status_status_code x = SC_Ok \<and> sendable (Status x)"

definition good_attrs :: "attrs_reply_msg \<Rightarrow> fs_answer \<Rightarrow> bool" where
  "good_attrs x a \<longleftrightarrow> a = Attributes (attrs_reply_attrs x)"

definition good_name :: "name_msg \<Rightarrow> fs_answer \<Rightarrow> bool" where
  "good_name x a \<longleftrightarrow> sendable (Name x) \<and> (\<exists>f fs. name_files x = f # fs \<and> a = Path (file_filename f))"

text \<open>\<open>pending h handle\<close> are the batches still to come from an open directory.\<close>

locale fs_server = echo_handler H
  for H :: "('h, 'e) handler" +
  fixes fs :: "'f file_system" and view :: "'h \<Rightarrow> 'f" and I :: "'h \<Rightarrow> bool"
    and pending :: "'h \<Rightarrow> bytes \<Rightarrow> entries list option"
  assumes mkdir_law: "I h \<Longrightarrow> path_ok p \<Longrightarrow>
      meets I view (h_into_status H) good_status (h_mkdir H i p attrs h) (fs (CreateDir p) (view h))"
    and rmdir_law: "I h \<Longrightarrow> path_ok p \<Longrightarrow>
      meets I view (h_into_status H) good_status (h_rmdir H i p h) (fs (RemoveDir p) (view h))"
    and remove_law: "I h \<Longrightarrow> path_ok p \<Longrightarrow>
      meets I view (h_into_status H) good_status (h_remove H i p h) (fs (RemoveFile p) (view h))"
    and rename_law: "I h \<Longrightarrow> path_ok p \<Longrightarrow> path_ok q \<Longrightarrow>
      meets I view (h_into_status H) good_status (h_rename H i p q h) (fs (RenamePath p q) (view h))"
    and symlink_law: "I h \<Longrightarrow> path_ok p \<Longrightarrow> path_ok q \<Longrightarrow>
      meets I view (h_into_status H) good_status (h_symlink H i p q h) (fs (CreateSymlink p q) (view h))"
    and setstat_law: "I h \<Longrightarrow> path_ok p \<Longrightarrow>
      meets I view (h_into_status H) good_status (h_setstat H i p attrs h) (fs (SetMetadata p attrs) (view h))"
    and stat_law: "I h \<Longrightarrow> path_ok p \<Longrightarrow>
      meets I view (h_into_status H) good_attrs (h_stat H i p h) (fs (Metadata p) (view h))"
    and lstat_law: "I h \<Longrightarrow> path_ok p \<Longrightarrow>
      meets I view (h_into_status H) good_attrs (h_lstat H i p h) (fs (SymlinkMetadata p) (view h))"
    and readlink_law: "I h \<Longrightarrow> path_ok p \<Longrightarrow>
      meets I view (h_into_status H) good_name (h_readlink H i p h) (fs (FollowLink p) (view h))"
    and realpath_law: "I h \<Longrightarrow> path_ok p \<Longrightarrow>
      meets I view (h_into_status H) good_name (h_realpath H i p h) (fs (Canonicalize p) (view h))"
    and opendir_law: "I h \<Longrightarrow> path_ok p \<Longrightarrow>
      meets I view (h_into_status H)
        (\<lambda>x a. path_ok (handle_handle x)
           \<and> (\<exists>bs. pending (snd (h_opendir H i p h)) (handle_handle x) = Some bs \<and> a = Entries (concat bs)))
        (h_opendir H i p h) (fs (ListDir p) (view h))"
    and readdir_law: "I h \<Longrightarrow> pending h d = Some (b # bs) \<Longrightarrow>
      \<exists>x h'. h_readdir H i d h = (Ok x, h') \<and> I h' \<and> view h' = view h \<and> pending h' d = Some bs
        \<and> sendable (Name x) \<and> batch_of x = b"
    and readdir_end_law: "I h \<Longrightarrow> pending h d = Some [] \<Longrightarrow>
      \<exists>e h'. h_readdir H i d h = (Err e, h') \<and> I h' \<and> view h' = view h \<and> pending h' d = Some []
        \<and> h_into_status H e = SC_Eof"
    and close_law: "I h \<Longrightarrow> pending h d = Some bs \<Longrightarrow>
      \<exists>st h'. h_close H i d h = (Ok st, h') \<and> I h' \<and> view h' = view h
        \<and> status_status_code st = SC_Ok \<and> sendable (Status st)"

section \<open>Calls of the session on such a server\<close>

lemma same_answer_Ok: "same_answer (Ok a) r \<Longrightarrow> \<exists>b. r = Ok b"
  by (cases a) auto

lemma meets_Ok: "meets I view code good res (Ok a, f) \<longleftrightarrow>
    (\<exists>x h'. res = (Ok x, h') \<and> good x a \<and> I h' \<and> view h' = f)"
  by (cases res) (auto simp: meets_def)

lemma meets_Err: "meets I view code good res (Err c, f) \<longleftrightarrow>
    (\<exists>e h'. res = (Err e, h') \<and> code e = c \<and> c \<noteq> SC_Ok \<and> I h' \<and> view h' = f)"
  by (cases res) (auto simp: meets_def)

lemma unlimited_handles [simp]: "unlimited (s\<lparr>rs_handles := n\<rparr>) = unlimited s"
  by (simp add: unlimited_def)

lemma unlimitedD: "unlimited s \<Longrightarrow> idle s \<and> \<not> handle_limit_reached s"
  by (simp add: unlimited_def handle_limit_reached_def limits_default_def)

lemma mset_batches: "mset (concat (rev bs)) = mset (concat bs)"
  by (induction bs) simp_all

lemma batch_of_norm: "batch_of (norm_name x) = norm_entries (batch_of x)"
  by (simp add: batch_of_def norm_name_def norm_file_def norm_entries_def)

text \<open>A remote call does what the file system does.\<close>

definition does ::
  "('h \<Rightarrow> 'f) \<Rightarrow> ('h \<Rightarrow> bool) \<Rightarrow> ((fs_answer, client_error) result \<times> raw_session \<times> 'h) option
     \<Rightarrow> (fs_answer, status_code) result \<times> 'f \<Rightarrow> bool" where
  "does view I remote out \<longleftrightarrow> (\<exists>r s h. remote = Some (r, s, h) \<and> same_answer (fst out) r
     \<and> view h = snd out \<and> unlimited s \<and> I h)"

lemma does_status:
  assumes m: "meets I view (h_into_status H) good_status res out" and "unlimited s"
    and "(\<And>x. fst res = Ok x \<Longrightarrow> sendable (Status x)) \<Longrightarrow>
      \<exists>s'. raw = (status_reply H i (fst res), s', snd res) \<and> call_frame s s'"
  shows "does view I (Some (answer (\<lambda>_. Done) (discard raw))) out"
proof -
  obtain a f where out: "out = (a, f)" by (cases out)
  have "sendable (Status x)" if "fst res = Ok x" for x
    using m that out by (cases a) (auto simp: meets_Ok meets_Err good_status_def)
  with assms(3) obtain s' where s': "raw = (status_reply H i (fst res), s', snd res)" "call_frame s s'" by blast
  from m out s'(1) call_frame_unlimited [OF s'(2) assms(2)] show ?thesis
    by (cases a) (auto simp: meets_Ok meets_Err good_status_def does_def answer_def discard_def
        status_reply_ok status_reply_err status_error_def)
qed

lemma does_attrs:
  assumes m: "meets I view (h_into_status H) good_attrs res out" and "unlimited s"
    and "raw = (attrs_reply H i (fst res), s', snd res)" "call_frame s s'"
  shows "does view I (Some (answer Attributes (and_then raw (\<lambda>reply sw. (Ok (attrs_reply_attrs reply), sw))))) out"
proof -
  obtain a f where out: "out = (a, f)" by (cases out)
  from m out assms(3) call_frame_unlimited [OF assms(4,2)] show ?thesis
    by (cases a) (auto simp: meets_Ok meets_Err good_attrs_def does_def answer_def attrs_reply_def
        norm_attrs_reply_def status_error_def)
qed

lemma does_name:
  assumes m: "meets I view (h_into_status H) good_name res out" and "unlimited s"
    and "(\<And>x. fst res = Ok x \<Longrightarrow> sendable (Name x)) \<Longrightarrow>
      \<exists>s'. raw = (name_reply H i (fst res), s', snd res) \<and> call_frame s s'"
  shows "does view I (Some (answer Path (and_then raw (\<lambda>reply sw. (first_name reply, sw))))) out"
proof -
  obtain a f where out: "out = (a, f)" by (cases out)
  have "sendable (Name x)" if "fst res = Ok x" for x
    using m that out by (cases a) (auto simp: meets_Ok meets_Err good_name_def)
  with assms(3) obtain s' where s': "raw = (name_reply H i (fst res), s', snd res)" "call_frame s s'" by blast
  from m out s'(1) call_frame_unlimited [OF s'(2) assms(2)] show ?thesis
    by (cases a) (auto simp: meets_Ok meets_Err good_name_def does_def answer_def name_reply_def
        norm_name_def norm_file_def first_name_def status_error_def)
qed

context fs_server
begin

lemma exists_does:
  assumes "unlimited s" and "I h" and "path_ok p"
  shows "does view I (remote_call (loopback H) (Metadata p) (s, h)) (fs (Metadata p) (view h))"
    and "does view I (remote_call (loopback H) (TryExists p) (s, h)) (local_call fs (TryExists p) (view h))"
proof -
  obtain s' where "raw_stat (loopback H) p (s, h)
      = (attrs_reply H (rs_next_req_id s) (fst (h_stat H (rs_next_req_id s) p h)), s',
         snd (h_stat H (rs_next_req_id s) p h))" "call_frame s s'"
    using stat_served [of s p h] assms(1,3)
    by (auto simp: unlimited_def path_ok_def attrs_reply_def norm_attrs_reply_def [abs_def])
  note does_attrs [OF stat_law [OF assms(2,3)] assms(1) this]
  then show m: "does view I (remote_call (loopback H) (Metadata p) (s, h)) (fs (Metadata p) (view h))"
    by (simp add: sftp_metadata_def)
  obtain r s' h' where "sftp_metadata (loopback H) p (s, h) = (r, s', h')"
    by (cases "sftp_metadata (loopback H) p (s, h)")
  with m show "does view I (remote_call (loopback H) (TryExists p) (s, h)) (local_call fs (TryExists p) (view h))"
    by (cases "fs (Metadata p) (view h)"; cases "fst (fs (Metadata p) (view h))"; cases r)
      (auto simp: does_def answer_def sftp_try_exists_def dest: same_answer_Ok split: client_error.splits)
qed

lemma names_do:
  assumes s: "unlimited s" and I: "I h" and p: "path_ok p"
  shows "does view I (remote_call (loopback H) (CreateDir p) (s, h)) (fs (CreateDir p) (view h))"
    and "does view I (remote_call (loopback H) (RemoveDir p) (s, h)) (fs (RemoveDir p) (view h))"
    and "does view I (remote_call (loopback H) (RemoveFile p) (s, h)) (fs (RemoveFile p) (view h))"
    and "does view I (remote_call (loopback H) (SetMetadata p a) (s, h)) (fs (SetMetadata p (norm_attrs a)) (view h))"
    and "path_ok q \<Longrightarrow> does view I (remote_call (loopback H) (RenamePath p q) (s, h)) (fs (RenamePath p q) (view h))"
    and "path_ok q \<Longrightarrow> does view I (remote_call (loopback H) (CreateSymlink p q) (s, h)) (fs (CreateSymlink p q) (view h))"
  using s I p
  by (simp_all add: sftp_create_dir_def sftp_remove_dir_def sftp_remove_file_def sftp_set_metadata_def
      sftp_rename_def sftp_symlink_def)
    (rule does_status [OF mkdir_law s, where i = "rs_next_req_id s"] does_status [OF rmdir_law s, where i = "rs_next_req_id s"]
        does_status [OF remove_law s, where i = "rs_next_req_id s"] does_status [OF setstat_law s, where i = "rs_next_req_id s"]
        does_status [OF rename_law s, where i = "rs_next_req_id s"] does_status [OF symlink_law s, where i = "rs_next_req_id s"],
      assumption+, (rule mkdir_served rmdir_served remove_served setstat_served rename_served symlink_served;
        simp add: unlimited_def path_ok_def))+

lemma links_do:
  assumes s: "unlimited s" and I: "I h" and p: "path_ok p"
  shows "does view I (remote_call (loopback H) (FollowLink p) (s, h)) (fs (FollowLink p) (view h))"
    and "does view I (remote_call (loopback H) (Canonicalize p) (s, h)) (fs (Canonicalize p) (view h))"
  using s I p
  by (simp_all add: sftp_read_link_def sftp_canonicalize_def)
    (rule does_name [OF readlink_law s, where i = "rs_next_req_id s"] does_name [OF realpath_law s, where i = "rs_next_req_id s"],
      assumption+, (rule readlink_served realpath_served; simp add: unlimited_def path_ok_def))+

lemma lstat_does:
  assumes "unlimited s" and "I h" and "path_ok p"
  shows "does view I (remote_call (loopback H) (SymlinkMetadata p) (s, h)) (fs (SymlinkMetadata p) (view h))"
proof -
  obtain s' where "raw_lstat (loopback H) p (s, h)
      = (attrs_reply H (rs_next_req_id s) (fst (h_lstat H (rs_next_req_id s) p h)), s',
         snd (h_lstat H (rs_next_req_id s) p h))" "call_frame s s'"
    using lstat_served [of s p h] assms(1,3) by (auto simp: unlimited_def path_ok_def)
  from does_attrs [OF lstat_law [OF assms(2,3)] assms(1) this] show ?thesis
    by (simp add: sftp_symlink_metadata_def)
qed

lemma pending_listing:
  assumes "unlimited s" and "I h" and "path_ok d" and "pending h d = Some bs"
  shows "\<exists>err s' h'. listing (loopback H) d (s, h) (map norm_entries bs) err (s', h') \<and> is_eof err
    \<and> unlimited s' \<and> I h' \<and> view h' = view h \<and> pending h' d = Some []"
  using assms
proof (induction bs arbitrary: s h)
  case Nil
  obtain e h' where e: "h_readdir H (rs_next_req_id s) d h = (Err e, h')" "I h'" "view h' = view h"
      "pending h' d = Some []" "h_into_status H e = SC_Eof"
    using readdir_end_law [OF Nil(2,4)] by blast
  obtain s' where s': "raw_readdir (loopback H) d (s, h) = (Err (status_error H (rs_next_req_id s) e), s', h')"
      "call_frame s s'"
    using readdir_served [of s d h] Nil(1,3) e(1) by (auto simp: unlimited_def path_ok_def)
  have "is_eof (status_error H (rs_next_req_id s) e)" using e(5) by (simp add: is_eof_def status_error_def)
  then show ?case
    using listing.ends [OF s'(1)] e call_frame_unlimited [OF s'(2) Nil(1)] by auto
next
  case (Cons b bs)
  obtain x h1 where x: "h_readdir H (rs_next_req_id s) d h = (Ok x, h1)" "I h1" "view h1 = view h"
      "pending h1 d = Some bs" "sendable (Name x)" "batch_of x = b"
    using readdir_law [OF Cons.prems(2,4)] by blast
  obtain s1 where s1: "raw_readdir (loopback H) d (s, h) = (Ok (norm_name x), s1, h1)" "call_frame s s1"
    using readdir_served [of s d h] Cons.prems(1,3) x(1,5) by (auto simp: unlimited_def path_ok_def)
  from Cons.IH [OF call_frame_unlimited [OF s1(2) Cons.prems(1)] x(2) Cons.prems(3) x(4)]
  show ?case
    using listing.batch [OF s1(1)] x(3,6) by (simp add: batch_of_norm) blast
qed

lemma list_does:
  assumes s: "unlimited s" and I: "I h" and p: "path_ok p"
  shows "does view I (remote_call (loopback H) (ListDir p) (s, h)) (fs (ListDir p) (view h))"
proof -
  let ?r = "h_opendir H (rs_next_req_id s) p h"
  obtain a f where out: "fs (ListDir p) (view h) = (a, f)" by (cases "fs (ListDir p) (view h)")
  note m = opendir_law [OF I p, of "rs_next_req_id s", unfolded out]
  have "path_ok (handle_handle x)" if "fst ?r = Ok x" for x
    using m that by (cases a) (auto simp: meets_Ok meets_Err)
  then obtain s1 where s1: "raw_opendir (loopback H) p (s, h)
      = (map_err (status_error H (rs_next_req_id s)) (fst ?r), s1, snd ?r)" "unlimited s1"
    using opendir_served [of s p h] s p unlimitedD [OF s] call_frame_unlimited [OF _ s]
    by (force simp: path_ok_def)
  show ?thesis
  proof (cases a)
    case (Err c)
    with m s1 show ?thesis
      by (auto simp: out does_def meets_Err sftp_read_dir_def answer_def status_error_def)
  next
    case (Ok es)
    then obtain x h1 bs where x: "?r = (result.Ok x, h1)" "path_ok (handle_handle x)" "I h1" "view h1 = f"
        "pending h1 (handle_handle x) = Some bs" "es = Entries (concat bs)"
      using m by (auto simp: meets_Ok)
    obtain err s2 h2 where l: "listing (loopback H) (handle_handle x) (s1, h1) (map norm_entries bs) err (s2, h2)"
        "is_eof err" "unlimited s2" "I h2" "view h2 = f" "pending h2 (handle_handle x) = Some []"
      using pending_listing [OF s1(2) x(3,2,5)] x(4) by auto
    obtain st h3 where c: "h_close H (rs_next_req_id s2) (handle_handle x) h2 = (result.Ok st, h3)" "I h3"
        "view h3 = f" "status_status_code st = SC_Ok" "sendable (Status st)"
      using close_law [OF l(4,6)] l(5) by metis
    obtain s3 where s3: "raw_close (loopback H) (handle_handle x) (s2, h2) = (result.Ok st, s3, h3)" "unlimited s3"
      using close_served [of s2 "handle_handle x" h2] l(3) x(2) c call_frame_unlimited [OF _ l(3)]
      by (auto simp: unlimited_def path_ok_def into_status_def)
    have "raw_opendir (loopback H) p (s, h) = (result.Ok x, s1, h1)" using s1(1) x(1) by simp
    from read_dir_loop_listing [OF l(1), of "[]"] this s3 c l(2)
    have "remote_call (loopback H) (ListDir p) (s, h)
        = Some (result.Ok (Entries (concat (rev (map norm_entries bs)))), s3, h3)"
      by (simp add: sftp_read_dir_def answer_def Let_def)
    moreover have "mset (concat (rev (map norm_entries bs))) = mset (norm_entries (concat bs))"
      by (simp add: mset_batches norm_entries_def [abs_def] map_concat del: mset_map)
    ultimately show ?thesis
      using s3(2) c(2,3) by (simp add: does_def out Ok x(6) del: remote_call.simps)
  qed
qed

lemma call_does:
  assumes "unlimited s" and "I h" and "call_ok c"
  shows "does view I (remote_call (loopback H) c (s, h)) (local_call fs c (view h))"
  using assms exists_does names_do links_do lstat_does list_does
  by (cases c) (simp_all del: remote_call.simps)

lemma run_does:
  assumes "unlimited s" and "I h" and "list_all call_ok cs"
  shows "\<exists>rs s' h'. run_remote (loopback H) cs (s, h) = Some (rs, s', h')
    \<and> list_all2 same_answer (fst (run_local fs cs (view h))) rs
    \<and> view h' = snd (run_local fs cs (view h)) \<and> unlimited s' \<and> I h'"
  using assms
proof (induction cs arbitrary: s h)
  case (Cons c cs)
  then obtain r s1 h1 where r: "remote_call (loopback H) c (s, h) = Some (r, s1, h1)"
      "same_answer (fst (local_call fs c (view h))) r" "view h1 = snd (local_call fs c (view h))"
      "unlimited s1" "I h1"
    using call_does [of s h c] by (auto simp: does_def)
  from Cons.IH [OF r(4,5)] Cons.prems(3) obtain rs s' h' where
    "run_remote (loopback H) cs (s1, h1) = Some (rs, s', h')"
    "list_all2 same_answer (fst (run_local fs cs (view h1))) rs"
    "view h' = snd (run_local fs cs (view h1))" "unlimited s'" "I h'" by auto
  with r show ?case by (simp add: case_prod_beta del: remote_call.simps)
qed simp

end

section \<open>Properties of extended requests\<close>

text \<open>C17: The statistics of a file system survive the trip through an extended request: when the server
  announced the extension and its handler, given the name of the extension and a payload that reads
  as the path asked for, answers with the serialized statistics, \<open>fs_info\<close> returns exactly those.\<close>

theorem fs_info_round_trip:
  assumes "echo_handler H" and "idle s" and "string_fits path" and "length path < 2 ^ 30" and "ext_statvfs e"
    and "to_bytes ser_statvfs v = Ok data"
    and handler: "\<And>i payload. from_bytes de_statvfs_request payload = Ok (\<lparr>statvfs_request_path = path\<rparr>, [])
      \<Longrightarrow> h_extended H i EXT_STATVFS payload h
        = (Ok (ExtendedReply \<lparr>extended_reply_id = i, extended_reply_data = data\<rparr>), h')"
  shows "\<exists>s'. sftp_fs_info (loopback H) e path (s, h) = (Ok (Some v), s', h') \<and> call_frame s s'"
proof -
  let ?i = "rs_next_req_id s" and ?reply = "ExtendedReply \<lparr>extended_reply_id = rs_next_req_id s, extended_reply_data = data\<rparr>"
  have data: "data = wire_statvfs v" using assms(6) by (simp add: statvfs_codec.message.to_bytes_law)
  have "from_bytes de_statvfs_request (wire_string path) = Ok (\<lparr>statvfs_request_path = path\<rparr>, [])"
    using statvfs_request_codec.message.de_law [of "\<lparr>statvfs_request_path = path\<rparr>"] assms(3)
    by (simp add: from_bytes_def fits_statvfs_request_def wire_statvfs_request_def)
  then have h: "h_extended H ?i EXT_STATVFS (wire_string path) h = (Ok ?reply, h')" by (rule handler)
  have "sendable ?reply"
    by (simp add: sendable_def fits_extended_reply_def frame_fits_def packet_body_def wire_extended_reply_def
        data wire_statvfs_def)
  moreover have "reply_data de_statvfs ?reply = Ok v"
    using statvfs_codec.message.de_law [of v]
    by (simp add: reply_data_def data from_bytes_def fits_statvfs_def)
  ultimately show ?thesis
    using echo_handler.statvfs_served [OF assms(1,2,4), of h] h assms(5)
    by (auto simp: sftp_fs_info_def extended_answer_def)
qed

definition full_disk :: statvfs_msg where
  "full_disk = \<lparr>statvfs_block_size = 4096, statvfs_fragment_size = 4096, statvfs_blocks = 10, statvfs_blocks_free = 0,
     statvfs_blocks_avail = 0, statvfs_inodes = 7, statvfs_inodes_free = 1, statvfs_inodes_avail = 1, statvfs_fs_id = 9,
     statvfs_flags = 1, statvfs_name_max = 255\<rparr>"

definition statvfs_handler :: "(unit, status_code) handler" where
  "statvfs_handler = (default_handler (\<lambda>code. code) (\<lambda>h. SC_OpUnsupported))
     \<lparr>h_extended := (\<lambda>i name payload h.
        (if name = EXT_STATVFS \<and> is_ok (from_bytes de_statvfs_request payload)
         then Ok (ExtendedReply \<lparr>extended_reply_id = i, extended_reply_data = wire_statvfs full_disk\<rparr>)
         else Err SC_OpUnsupported, h))\<rparr>"

theorem fs_info_round_trip_witness:
  "\<exists>s'. sftp_fs_info (loopback statvfs_handler)
      \<lparr>ext_hardlink = False, ext_fsync = False, ext_statvfs = True, ext_limits = None\<rparr> [47] (session_ready, ())
      = (Ok (Some full_disk), s', ()) \<and> call_frame session_ready s'"
proof (rule fs_info_round_trip [where data = "wire_statvfs full_disk"])
  show "echo_handler statvfs_handler"
    by unfold_locales (auto simp: statvfs_handler_def default_handler_def split: if_splits)
qed (simp_all add: idle_ready string_fits_def valid_utf8_ascii statvfs_codec.message.to_bytes_law
    statvfs_handler_def default_handler_def)

end
