(* ===== verification/DiskServer.thy ===== *)
theory DiskServer
  imports RemoteFs
begin

text \<open>
  A reference server for the contracts \<open>fs_server\<close> and \<open>file_server\<close>: a flat disk of directories, files
  and symbolic links, with the contents of the files beside it. Each open gets a handle of its own,
  which is refused once it is closed.
\<close>

section \<open>The disk\<close>

text \<open>
  The server of OpenSSH takes the two paths of a request for a symbolic link in the other order than
  the draft, target first. \<open>ossh\<close> says which order the disk has.
\<close>

datatype node = DirNode file_attributes | FileNode file_attributes | LinkNode bytes

type_synonym disk = "(bytes \<times> node) list"

fun node_attrs :: "node \<Rightarrow> file_attributes" where
  "node_attrs (DirNode a) = a"
| "node_attrs (FileNode a) = a"
| "node_attrs (LinkNode t) = attrs_empty"

text \<open>Looking at a path follows one link.\<close>

definition target_node :: "disk \<Rightarrow> bytes \<Rightarrow> node option" where
  "target_node d p = (case map_of d p of Some (LinkNode t) \<Rightarrow> map_of d t | n \<Rightarrow> n)"

definition missing_or :: "'f \<Rightarrow> ('n \<Rightarrow> (fs_answer, status_code) result \<times> 'f) \<Rightarrow> 'n option
    \<Rightarrow> (fs_answer, status_code) result \<times> 'f" where
  "missing_or d f n = (case n of None \<Rightarrow> (Err SC_NoSuchFile, d) | Some n \<Rightarrow> f n)"

definition fresh_name :: "disk \<Rightarrow> bytes \<Rightarrow> (fs_answer, status_code) result \<times> disk
    \<Rightarrow> (fs_answer, status_code) result \<times> disk" where
  "fresh_name d p r = (if map_of d p = None then r else (Err SC_Failure, d))"

fun disk_fs :: "bool \<Rightarrow> disk file_system" where
  "disk_fs ossh (CreateDir p) d = fresh_name d p (Ok Done, AList.update p (DirNode attrs_empty) d)"
| "disk_fs ossh (CreateSymlink p q) d =
     (let (link, target) = (if ossh then (q, p) else (p, q))
      in fresh_name d link (Ok Done, AList.update link (LinkNode target) d))"
| "disk_fs ossh (RemoveDir p) d = missing_or d
     (\<lambda>n. case n of DirNode a \<Rightarrow> (Ok Done, AList.delete p d) | _ \<Rightarrow> (Err SC_Failure, d)) (map_of d p)"
| "disk_fs ossh (RemoveFile p) d = missing_or d
     (\<lambda>n. case n of DirNode a \<Rightarrow> (Err SC_Failure, d) | _ \<Rightarrow> (Ok Done, AList.delete p d)) (map_of d p)"
| "disk_fs ossh (RenamePath p q) d = missing_or d
     (\<lambda>n. fresh_name d q (Ok Done, AList.update q n (AList.delete p d))) (map_of d p)"
| "disk_fs ossh (FollowLink p) d = missing_or d
     (\<lambda>n. case n of LinkNode t \<Rightarrow> (Ok (Path t), d) | _ \<Rightarrow> (Err SC_Failure, d)) (map_of d p)"
| "disk_fs ossh (Metadata p) d = missing_or d (\<lambda>n. (Ok (Attributes (node_attrs n)), d)) (target_node d p)"
| "disk_fs ossh (SymlinkMetadata p) d = missing_or d (\<lambda>n. (Ok (Attributes (node_attrs n)), d)) (map_of d p)"
| "disk_fs ossh (SetMetadata p a) d = missing_or d
     (\<lambda>n. case n of
        DirNode _ \<Rightarrow> (Ok Done, AList.update p (DirNode a) d)
      | FileNode _ \<Rightarrow> (Ok Done, AList.update p (FileNode a) d)
      | LinkNode _ \<Rightarrow> (Err SC_Failure, d)) (map_of d p)"
| "disk_fs ossh (Canonicalize p) d = (Ok (Path p), d)"
| "disk_fs ossh (ListDir p) d =
     (if p = lit ''.'' then (Ok (Entries (map (\<lambda>(name, n). (name, node_attrs n)) d)), d)
      else missing_or d (\<lambda>n. case n of DirNode _ \<Rightarrow> (Ok (Entries []), d) | _ \<Rightarrow> (Err SC_Failure, d))
        (target_node d p))"
| "disk_fs ossh (TryExists p) d = (Err SC_OpUnsupported, d)"

text \<open>The names with the contents of the files: what is removed or renamed takes its content along.\<close>

definition moved :: "fs_call \<Rightarrow> (bytes \<Rightarrow> bytes) \<Rightarrow> bytes \<Rightarrow> bytes" where
  "moved c g =
     (case c of
        RemoveFile p \<Rightarrow> g(p := [])
      | RenamePath p q \<Rightarrow> g(p := [], q := g p)
      | _ \<Rightarrow> g)"

definition store_fs :: "bool \<Rightarrow> (disk \<times> (bytes \<Rightarrow> bytes)) file_system" where
  "store_fs ossh c f =
     (case disk_fs ossh c (fst f) of
        (Ok a, d) \<Rightarrow> (Ok a, d, moved c (snd f))
      | (Err e, d) \<Rightarrow> (Err e, d, snd f))"

section \<open>Fresh handles\<close>

text \<open>A handle is a number in decimal digits, which are as good as the number.\<close>

definition read_decimal :: "bytes \<Rightarrow> nat" where
  "read_decimal ds = foldl (\<lambda>n d. 10 * n + (unat d - 48)) 0 ds"

lemma read_decimal_decimal: "read_decimal (decimal n) = n"
proof (induction n rule: decimal.induct)
  case (1 n)
  have digit: "unat (48 + of_nat m :: u8) = 48 + m" if "m < 10" for m
    using that by (simp add: unat_word_ariths unat_of_nat)
  show ?case
    using 1 digit [of n] digit [of "n mod 10"]
    by (auto simp: decimal.simps [of n] read_decimal_def)
qed

lemma decimal_eq [simp]: "decimal m = decimal n \<longleftrightarrow> m = n"
  by (metis read_decimal_decimal)

lemma length_decimal: "n < 10 ^ Suc k \<Longrightarrow> length (decimal n) \<le> Suc k"
proof (induction k arbitrary: n)
  case 0
  then show ?case by (simp add: decimal.simps [of n])
next
  case (Suc k)
  then have "length (decimal (n div 10)) \<le> Suc k" by (intro Suc.IH) (simp add: less_mult_imp_div_less)
  then show ?case by (simp add: decimal.simps [of n])
qed

section \<open>The handler\<close>

text \<open>
  \<open>dk_files\<close> has the open files by their handle, \<open>dk_dirs\<close> what is still to be sent of the open
  directories, \<open>dk_next\<close> counts the handles.
\<close>

record disk_server =
  dk_names :: disk
  dk_contents :: "(bytes \<times> bytes) list"
  dk_files :: "(bytes \<times> bytes) list"
  dk_dirs :: "(bytes \<times> entries list) list"
  dk_next :: u64

definition disk_start :: "disk \<Rightarrow> disk_server" where
  "disk_start d = \<lparr>dk_names = d, dk_contents = [], dk_files = [], dk_dirs = [], dk_next = 0\<rparr>"

definition disk_content :: "bytes \<Rightarrow> disk_server \<Rightarrow> bytes" where
  "disk_content p h = (case map_of (dk_contents h) p of Some c \<Rightarrow> c | None \<Rightarrow> [])"

definition file_handle :: "disk_server \<Rightarrow> bytes" where
  "file_handle h = lit ''f'' @ decimal (unat (dk_next h))"

definition dir_handle :: "disk_server \<Rightarrow> bytes" where
  "dir_handle h = lit ''d'' @ decimal (unat (dk_next h))"

definition is_dir_handle :: "bytes \<Rightarrow> bool" where
  "is_dir_handle handle \<longleftrightarrow> take 1 handle = lit ''d''"

definition disk_contents :: "fs_call \<Rightarrow> disk_server \<Rightarrow> (bytes \<times> bytes) list" where
  "disk_contents c h =
     (case c of
        RemoveFile p \<Rightarrow> AList.delete p (dk_contents h)
      | RenamePath p q \<Rightarrow> AList.update q (disk_content p h) (AList.delete p (dk_contents h))
      | _ \<Rightarrow> dk_contents h)"

definition disk_call :: "bool \<Rightarrow> (fs_answer \<Rightarrow> 'r) \<Rightarrow> fs_call \<Rightarrow> disk_server \<Rightarrow> ('r, status_code) result \<times> disk_server" where
  "disk_call ossh reply c h =
     (case disk_fs ossh c (dk_names h) of
        (Ok a, d) \<Rightarrow> (Ok (reply a), h\<lparr>dk_names := d, dk_contents := disk_contents c h\<rparr>)
      | (Err e, d) \<Rightarrow> (Err e, h\<lparr>dk_names := d\<rparr>))"

fun attributes_of :: "fs_answer \<Rightarrow> file_attributes" where
  "attributes_of (Attributes a) = a"
| "attributes_of _ = attrs_empty"

fun path_of :: "fs_answer \<Rightarrow> bytes" where
  "path_of (Path p) = p"
| "path_of _ = []"

fun entries_of :: "fs_answer \<Rightarrow> entries" where
  "entries_of (Entries es) = es"
| "entries_of _ = []"

definition disk_attrs :: "u32 \<Rightarrow> fs_answer \<Rightarrow> attrs_reply_msg" where
  "disk_attrs i a = \<lparr>attrs_reply_id = i, attrs_reply_attrs = attributes_of a\<rparr>"

definition disk_name :: "u32 \<Rightarrow> (bytes \<times> file_attributes) list \<Rightarrow> name_msg" where
  "disk_name i es = \<lparr>name_id = i, name_files =
     map (\<lambda>(name, a). \<lparr>file_filename = name, file_longname = [], file_attrs = a\<rparr>) es\<rparr>"

text \<open>A directory is sent one entry at a time.\<close>

definition disk_opendir :: "bool \<Rightarrow> u32 \<Rightarrow> bytes \<Rightarrow> disk_server \<Rightarrow> (handle_msg, status_code) result \<times> disk_server" where
  "disk_opendir ossh i p h =
     (case disk_fs ossh (ListDir p) (dk_names h) of
        (Ok a, d) \<Rightarrow> (Ok \<lparr>handle_id = i, handle_handle = dir_handle h\<rparr>,
          h\<lparr>dk_dirs := AList.update (dir_handle h) (map (\<lambda>e. [e]) (entries_of a)) (dk_dirs h),
            dk_next := dk_next h + 1\<rparr>)
      | (Err c, d) \<Rightarrow> (Err c, h))"

definition disk_readdir :: "u32 \<Rightarrow> bytes \<Rightarrow> disk_server \<Rightarrow> (name_msg, status_code) result \<times> disk_server" where
  "disk_readdir i d h =
     (case map_of (dk_dirs h) d of
        Some (b # bs) \<Rightarrow> (Ok (disk_name i b), h\<lparr>dk_dirs := AList.update d bs (dk_dirs h)\<rparr>)
      | Some [] \<Rightarrow> (Err SC_Eof, h)
      | None \<Rightarrow> (Err SC_Failure, h))"

definition opened_file :: "bytes \<Rightarrow> disk_server \<Rightarrow> disk_server" where
  "opened_file p h = h\<lparr>dk_files := AList.update (file_handle h) p (dk_files h), dk_next := dk_next h + 1\<rparr>"

definition disk_open ::
  "u32 \<Rightarrow> bytes \<Rightarrow> u32 \<Rightarrow> file_attributes \<Rightarrow> disk_server \<Rightarrow> (handle_msg, status_code) result \<times> disk_server" where
  "disk_open i p flags attrs h =
     (let reply = \<lparr>handle_id = i, handle_handle = file_handle h\<rparr>;
          emptied = (if flags AND OPEN_TRUNCATE = 0 then h
                     else h\<lparr>dk_contents := AList.delete p (dk_contents h)\<rparr>)
      in case map_of (dk_names h) p of
           Some (FileNode _) \<Rightarrow>
             if flags AND OPEN_CREATE \<noteq> 0 \<and> flags AND OPEN_EXCLUDE \<noteq> 0 then (Err SC_Failure, h)
             else (Ok reply, opened_file p emptied)
         | Some _ \<Rightarrow> (Err SC_Failure, h)
         | None \<Rightarrow>
             if flags AND OPEN_CREATE = 0 then (Err SC_NoSuchFile, h)
             else (Ok reply, opened_file p (emptied\<lparr>dk_names := AList.update p (FileNode attrs) (dk_names h)\<rparr>)))"

definition disk_close :: "u32 \<Rightarrow> bytes \<Rightarrow> disk_server \<Rightarrow> (status_msg, status_code) result \<times> disk_server" where
  "disk_close i handle h =
     (if is_dir_handle handle \<and> map_of (dk_dirs h) handle \<noteq> None
      then (Ok (ok_status i), h\<lparr>dk_dirs := AList.delete handle (dk_dirs h)\<rparr>)
      else if \<not> is_dir_handle handle \<and> map_of (dk_files h) handle \<noteq> None
      then (Ok (ok_status i), h\<lparr>dk_files := AList.delete handle (dk_files h)\<rparr>)
      else (Err SC_Failure, h))"

text \<open>A call on an open file; a handle that is not open is a failure.\<close>

definition on_handle ::
  "bytes \<Rightarrow> (bytes \<Rightarrow> disk_server \<Rightarrow> ('r, status_code) result \<times> disk_server) \<Rightarrow> disk_server
     \<Rightarrow> ('r, status_code) result \<times> disk_server" where
  "on_handle handle f h =
     (case map_of (dk_files h) handle of None \<Rightarrow> (Err SC_Failure, h) | Some p \<Rightarrow> f p h)"

definition disk_read :: "u32 \<Rightarrow> bytes \<Rightarrow> u64 \<Rightarrow> u32 \<Rightarrow> disk_server \<Rightarrow> (data_msg, status_code) result \<times> disk_server" where
  "disk_read i handle off n = on_handle handle (\<lambda>p h.
     if length (disk_content p h) \<le> unat off then (Err SC_Eof, h)
     else (Ok \<lparr>data_id = i, data_data = take (min (unat n) 262144) (drop (unat off) (disk_content p h))\<rparr>, h))"

definition disk_write :: "u32 \<Rightarrow> bytes \<Rightarrow> u64 \<Rightarrow> bytes \<Rightarrow> disk_server \<Rightarrow> (status_msg, status_code) result \<times> disk_server" where
  "disk_write i handle off data = on_handle handle (\<lambda>p h. (Ok (ok_status i),
     h\<lparr>dk_contents := AList.update p (overwrite (disk_content p h) (unat off) data) (dk_contents h)\<rparr>))"

definition disk_fstat :: "u32 \<Rightarrow> bytes \<Rightarrow> disk_server \<Rightarrow> (attrs_reply_msg, status_code) result \<times> disk_server" where
  "disk_fstat i handle = on_handle handle (\<lambda>p h. (Ok \<lparr>attrs_reply_id = i,
     attrs_reply_attrs = attrs_empty\<lparr>attr_size := Some (of_nat (length (disk_content p h)))\<rparr>\<rparr>, h))"

definition disk_handler :: "bool \<Rightarrow> (disk_server, status_code) handler" where
  "disk_handler ossh = (default_handler (\<lambda>code. code) (\<lambda>h. SC_OpUnsupported))
     \<lparr>h_open := disk_open,
      h_close := disk_close,
      h_read := disk_read, h_write := disk_write, h_fstat := disk_fstat,
      h_mkdir := (\<lambda>i p attrs. disk_call ossh (\<lambda>_. ok_status i) (CreateDir p)),
      h_rmdir := (\<lambda>i p. disk_call ossh (\<lambda>_. ok_status i) (RemoveDir p)),
      h_remove := (\<lambda>i p. disk_call ossh (\<lambda>_. ok_status i) (RemoveFile p)),
      h_rename := (\<lambda>i p q. disk_call ossh (\<lambda>_. ok_status i) (RenamePath p q)),
      h_symlink := (\<lambda>i p t. disk_call ossh (\<lambda>_. ok_status i) (CreateSymlink p t)),
      h_setstat := (\<lambda>i p a. disk_call ossh (\<lambda>_. ok_status i) (SetMetadata p a)),
      h_stat := (\<lambda>i p. disk_call ossh (disk_attrs i) (Metadata p)),
      h_lstat := (\<lambda>i p. disk_call ossh (disk_attrs i) (SymlinkMetadata p)),
      h_readlink := (\<lambda>i p. disk_call ossh (\<lambda>a. disk_name i [(path_of a, attrs_default)]) (FollowLink p)),
      h_realpath := (\<lambda>i p. disk_call ossh (\<lambda>a. disk_name i [(path_of a, attrs_default)]) (Canonicalize p)),
      h_opendir := disk_opendir ossh, h_readdir := disk_readdir\<rparr>"

lemma disk_methods [simp]:
  "h_into_status (disk_handler ossh) = (\<lambda>code. code)"
  "h_init (disk_handler ossh) = default_init"
  "h_open (disk_handler ossh) = disk_open"
  "h_close (disk_handler ossh) = disk_close"
  "h_read (disk_handler ossh) = disk_read"
  "h_write (disk_handler ossh) = disk_write"
  "h_fstat (disk_handler ossh) = disk_fstat"
  "h_mkdir (disk_handler ossh) = (\<lambda>i p attrs. disk_call ossh (\<lambda>_. ok_status i) (CreateDir p))"
  "h_rmdir (disk_handler ossh) = (\<lambda>i p. disk_call ossh (\<lambda>_. ok_status i) (RemoveDir p))"
  "h_remove (disk_handler ossh) = (\<lambda>i p. disk_call ossh (\<lambda>_. ok_status i) (RemoveFile p))"
  "h_rename (disk_handler ossh) = (\<lambda>i p q. disk_call ossh (\<lambda>_. ok_status i) (RenamePath p q))"
  "h_symlink (disk_handler ossh) = (\<lambda>i p t. disk_call ossh (\<lambda>_. ok_status i) (CreateSymlink p t))"
  "h_setstat (disk_handler ossh) = (\<lambda>i p a. disk_call ossh (\<lambda>_. ok_status i) (SetMetadata p a))"
  "h_stat (disk_handler ossh) = (\<lambda>i p. disk_call ossh (disk_attrs i) (Metadata p))"
  "h_lstat (disk_handler ossh) = (\<lambda>i p. disk_call ossh (disk_attrs i) (SymlinkMetadata p))"
  "h_readlink (disk_handler ossh) = (\<lambda>i p. disk_call ossh (\<lambda>a. disk_name i [(path_of a, attrs_default)]) (FollowLink p))"
  "h_realpath (disk_handler ossh) = (\<lambda>i p. disk_call ossh (\<lambda>a. disk_name i [(path_of a, attrs_default)]) (Canonicalize p))"
  "h_opendir (disk_handler ossh) = disk_opendir ossh"
  "h_readdir (disk_handler ossh) = disk_readdir"
  by (simp_all add: disk_handler_def default_handler_def)

lemma disk_echoes: "disk_call ossh f c h = (Ok x, h') \<Longrightarrow> \<exists>a. x = f a"
  by (auto simp: disk_call_def split: prod.splits result.splits)

interpretation disk_echo: echo_handler "disk_handler ossh"
  by unfold_locales
    (auto simp: disk_handler_def default_handler_def disk_open_def disk_read_def disk_write_def disk_fstat_def
      on_handle_def disk_close_def disk_opendir_def disk_readdir_def disk_attrs_def disk_name_def ok_status_def Let_def
      dest!: disk_echoes split: if_splits option.splits node.splits prod.splits result.splits list.splits)

section \<open>The handler serves the disk\<close>

fun node_ok :: "node \<Rightarrow> bool" where
  "node_ok (LinkNode t) \<longleftrightarrow> path_ok t"
| "node_ok _ \<longleftrightarrow> True"

definition names_ok :: "disk \<Rightarrow> bool" where
  "names_ok d \<longleftrightarrow> (\<forall>(p, n) \<in> set d. path_ok p \<and> node_ok n)"

definition batch_ok :: "entries \<Rightarrow> bool" where
  "batch_ok b \<longleftrightarrow> length b = 1 \<and> path_ok (fst (hd b))"

definition disk_ok :: "disk_server \<Rightarrow> bool" where
  "disk_ok h \<longleftrightarrow> names_ok (dk_names h) \<and> (\<forall>x \<in> set (dk_dirs h). list_all batch_ok (snd x))
     \<and> (\<forall>x \<in> set (dk_files h). path_ok (fst x))"

text \<open>The file system a handler has: its names and the contents of the files.\<close>

definition disk_store :: "disk_server \<Rightarrow> disk \<times> (bytes \<Rightarrow> bytes)" where
  "disk_store h = (dk_names h, \<lambda>p. disk_content p h)"

lemma disk_content_more [simp]:
  "disk_content p (h\<lparr>dk_contents := AList.update p c (dk_contents h)\<rparr>) = c"
  "disk_content p (h\<lparr>dk_contents := AList.delete p (dk_contents h)\<rparr>) = []"
  "disk_content p (h\<lparr>dk_names := d\<rparr>) = disk_content p h"
  "disk_content p (h\<lparr>dk_files := fs\<rparr>) = disk_content p h"
  "disk_content p (h\<lparr>dk_dirs := ds\<rparr>) = disk_content p h"
  "disk_content p (h\<lparr>dk_next := n\<rparr>) = disk_content p h"
  by (simp_all add: disk_content_def AList.update_conv AList.delete_conv)

lemma disk_contents_moved:
  "dk_contents h' = disk_contents c h \<Longrightarrow> disk_content q h' = moved c (\<lambda>p. disk_content p h) q"
  by (cases c) (auto simp: disk_contents_def moved_def disk_content_def AList.update_conv AList.delete_conv)

lemma handle_ok: "path_ok (file_handle h)" "path_ok (dir_handle h)"
proof -
  have "length (decimal (unat (dk_next h))) \<le> Suc 19"
    using unsigned_less [where 'a = nat, of "dk_next h"] by (intro length_decimal) simp
  moreover have "valid_utf8 (lit ''f'')" "valid_utf8 (lit ''d'')" by (simp_all add: valid_utf8_ascii lit_def)
  ultimately show "path_ok (file_handle h)" "path_ok (dir_handle h)"
    by (simp_all add: path_ok_def string_fits_def file_handle_def dir_handle_def lit_def decimal_valid
        valid_utf8_append [of "[x]" for x, simplified])
qed

lemma handle_kinds [simp]: "is_dir_handle (dir_handle h)" "\<not> is_dir_handle (file_handle h)"
  by (simp_all add: is_dir_handle_def dir_handle_def file_handle_def lit_def)

lemma names_ok_update: "names_ok d \<Longrightarrow> path_ok p \<Longrightarrow> node_ok n \<Longrightarrow> names_ok (AList.update p n d)"
  using set_update_entries [of p n d] by (auto simp: names_ok_def)

lemma names_ok_delete: "names_ok d \<Longrightarrow> names_ok (AList.delete p d)"
  by (auto simp: names_ok_def AList.delete_eq)

lemma names_ok_node: "names_ok d \<Longrightarrow> map_of d p = Some n \<Longrightarrow> path_ok p \<and> node_ok n"
  by (auto simp: names_ok_def dest: map_of_SomeD)

lemma dirs_update:
  assumes "\<forall>x \<in> set m. P (snd x)" and "P v"
  shows "\<forall>x \<in> set (AList.update k v m). P (snd x)"
  using assms set_update_entries [of k v m] by fastforce

lemma disk_fs_names_ok: "names_ok d \<Longrightarrow> call_ok c \<Longrightarrow> names_ok (snd (disk_fs ossh c d))"
  by (cases c) (auto simp: fresh_name_def missing_or_def names_ok_update names_ok_delete names_ok_node
      split: option.splits node.splits)

lemma disk_fs_error: "fst (disk_fs ossh c d) = Err e \<Longrightarrow> e \<noteq> SC_Ok"
  by (cases c) (auto simp: fresh_name_def missing_or_def split: option.splits node.splits if_splits)

lemma disk_call_meets:
  assumes "disk_ok h \<and> dk_files h = files" and "call_ok c"
    and "\<And>a. fst (disk_fs ossh c (dk_names h)) = Ok a \<Longrightarrow> good (reply a) a"
  shows "meets (\<lambda>h. disk_ok h \<and> dk_files h = files) disk_store (\<lambda>code. code) good (disk_call ossh reply c h)
    (store_fs ossh c (disk_store h))"
  using assms disk_fs_names_ok [of "dk_names h" c ossh] disk_fs_error [of ossh c "dk_names h"]
  by (cases "disk_fs ossh c (dk_names h)"; cases "fst (disk_fs ossh c (dk_names h))")
    (auto simp: meets_def disk_call_def disk_ok_def disk_store_def store_fs_def
      disk_contents_moved)

lemma store_fs_eq:
  "fst (store_fs ossh c f) = fst (disk_fs ossh c (fst f))"
  "fst (snd (store_fs ossh c f)) = snd (disk_fs ossh c (fst f))"
  by (simp_all add: store_fs_def split: prod.splits result.splits)

lemma disk_done:
  assumes "fst (disk_fs ossh c d) = Ok a"
    and "case c of CreateDir _ \<Rightarrow> True | RemoveDir _ \<Rightarrow> True | RemoveFile _ \<Rightarrow> True | RenamePath _ _ \<Rightarrow> True
      | CreateSymlink _ _ \<Rightarrow> True | SetMetadata _ _ \<Rightarrow> True | _ \<Rightarrow> False"
  shows "good_status (ok_status i) a"
  using assms sendable_ok_status [of i]
  by (cases c) (auto simp: good_status_def ok_status_def fresh_name_def missing_or_def
      split: option.splits node.splits if_splits)

lemma sendable_entry: "path_ok p \<Longrightarrow> sendable (Name (disk_name i [(p, a)]))"
  using wire_attrs_length [of a]
  by (simp add: sendable_def fits_name_def files_fit_def fits_file_def string_fits_def disk_name_def path_ok_def
      frame_fits_def packet_body_def wire_name_def wire_vec_def wire_file_def wire_string_def)

lemma batch_of_disk_name [simp]: "batch_of (disk_name i es) = es"
  by (simp add: batch_of_def disk_name_def case_prod_unfold comp_def)

lemma disk_ok_names: "disk_ok h \<and> dk_files h = files \<Longrightarrow> names_ok (dk_names h)"
  by (simp add: disk_ok_def)

lemma disk_named:
  assumes "names_ok d" and "path_ok p" and "c \<in> {FollowLink p, Canonicalize p}" and "fst (disk_fs ossh c d) = Ok a"
  shows "good_name (disk_name i [(path_of a, attrs_default)]) a"
proof -
  obtain q where "a = Path q" "path_ok q"
    using assms names_ok_node [OF assms(1), of p]
    by (auto simp: missing_or_def split: option.splits node.splits)
  then show ?thesis using sendable_entry [of q i attrs_default] by (auto simp: good_name_def disk_name_def)
qed

lemma disk_attributes:
  "c \<in> {Metadata p, SymlinkMetadata p} \<Longrightarrow> fst (disk_fs ossh c d) = Ok a \<Longrightarrow> good_attrs (disk_attrs i a) a"
  by (auto simp: good_attrs_def disk_attrs_def missing_or_def split: option.splits)

lemma disk_listed:
  assumes "names_ok d" and "fst (disk_fs ossh (ListDir p) d) = Ok a"
  shows "a = Entries (entries_of a) \<and> list_all (\<lambda>e. path_ok (fst e)) (entries_of a)"
  using assms
  by (auto simp: missing_or_def names_ok_def list_all_iff split: if_splits option.splits node.splits)

lemma concat_singletons: "concat (map (\<lambda>e. [e]) es) = es"
  by (induction es) simp_all

definition open_dir :: "disk_server \<Rightarrow> bytes \<Rightarrow> entries list option" where
  "open_dir h handle = (if is_dir_handle handle then map_of (dk_dirs h) handle else None)"

lemma disk_opens_dir:
  assumes h: "disk_ok h \<and> dk_files h = files" and "path_ok p"
  shows "meets (\<lambda>h. disk_ok h \<and> dk_files h = files) disk_store (\<lambda>code. code)
    (\<lambda>x a. path_ok (handle_handle x)
       \<and> (\<exists>bs. open_dir (snd (disk_opendir ossh i p h)) (handle_handle x) = Some bs \<and> a = Entries (concat bs)))
    (disk_opendir ossh i p h) (store_fs ossh (ListDir p) (disk_store h))"
proof -
  obtain r d where r: "disk_fs ossh (ListDir p) (dk_names h) = (r, d)" by (cases "disk_fs ossh (ListDir p) (dk_names h)")
  then have d: "d = dk_names h"
    by (auto simp: missing_or_def split: if_splits option.splits node.splits)
  show ?thesis
  proof (cases r)
    case (Ok a)
    have a: "a = Entries (entries_of a)" "list_all (\<lambda>e. path_ok (fst e)) (entries_of a)"
      using disk_listed [of "dk_names h" ossh p a] h r Ok by (auto simp: disk_ok_def)
    have "disk_ok (h\<lparr>dk_dirs := AList.update (dir_handle h) (map (\<lambda>e. [e]) (entries_of a)) (dk_dirs h),
        dk_next := dk_next h + 1\<rparr>)"
      using h a(2) dirs_update [of "dk_dirs h" "list_all batch_ok" "map (\<lambda>e. [e]) (entries_of a)" "dir_handle h"]
      by (simp add: disk_ok_def batch_ok_def list_all_iff)
    then show ?thesis
      using a(1) h by (simp add: meets_Ok disk_opendir_def store_fs_def disk_store_def moved_def r Ok d
          AList.update_conv open_dir_def handle_ok concat_singletons del: disk_fs.simps)
  next
    case (Err c)
    with h disk_fs_error [of ossh "ListDir p" "dk_names h" c] show ?thesis
      by (simp add: meets_Err disk_opendir_def store_fs_def disk_store_def r d del: disk_fs.simps)
  qed
qed

lemma disk_reads_dir:
  assumes "disk_ok h \<and> dk_files h = files" and "open_dir h d = Some (b # bs)"
  shows "\<exists>x h'. disk_readdir i d h = (Ok x, h') \<and> disk_ok h' \<and> dk_files h' = files \<and> disk_store h' = disk_store h
    \<and> open_dir h' d = Some bs \<and> sendable (Name x) \<and> batch_of x = b"
proof -
  from assms(2) have d: "is_dir_handle d" "map_of (dk_dirs h) d = Some (b # bs)"
    by (simp_all add: open_dir_def split: if_splits)
  with assms(1) have b: "batch_ok b" "list_all batch_ok bs"
    using map_of_SomeD [OF d(2)] by (auto simp: disk_ok_def)
  then obtain p a where "b = [(p, a)]" "path_ok p"
    by (auto simp: batch_ok_def length_Suc_conv)
  then have "sendable (Name (disk_name i b))" by (simp add: sendable_entry)
  moreover have "disk_ok (h\<lparr>dk_dirs := AList.update d bs (dk_dirs h)\<rparr>)"
    using assms(1) b(2) dirs_update [of "dk_dirs h" "list_all batch_ok" bs d] by (simp add: disk_ok_def)
  ultimately show ?thesis
    using assms(1) by (simp add: disk_readdir_def d AList.update_conv disk_store_def open_dir_def)
qed

lemma disk_ends_dir:
  "open_dir h d = Some [] \<Longrightarrow> disk_readdir i d h = (Err SC_Eof, h)"
  by (simp add: disk_readdir_def open_dir_def split: if_splits)

lemma disk_closes_dir:
  assumes "disk_ok h \<and> dk_files h = files" and "open_dir h d = Some bs"
  shows "\<exists>h'. disk_close i d h = (Ok (ok_status i), h') \<and> (disk_ok h' \<and> dk_files h' = files)
    \<and> disk_store h' = disk_store h"
  using assms
  by (auto simp: disk_close_def open_dir_def disk_ok_def disk_store_def AList.delete_eq split: if_splits)

text \<open>The open files stay the same while the names are served: \<open>files\<close> is any of their tables.\<close>

interpretation disk: fs_server "disk_handler ossh" "store_fs ossh" disk_store
    "\<lambda>h. disk_ok h \<and> dk_files h = files" open_dir
proof unfold_locales
  fix h p i
  assume h: "disk_ok h \<and> dk_files h = files" "path_ok p"
  show "meets (\<lambda>h. disk_ok h \<and> dk_files h = files) disk_store (h_into_status (disk_handler ossh)) good_attrs
      (h_stat (disk_handler ossh) i p h) (store_fs ossh (Metadata p) (disk_store h))"
    unfolding disk_methods by (rule disk_call_meets [OF h(1)]) (use h(2) in simp, erule disk_attributes [where p = p, rotated], simp)
  show "meets (\<lambda>h. disk_ok h \<and> dk_files h = files) disk_store (h_into_status (disk_handler ossh)) good_attrs
      (h_lstat (disk_handler ossh) i p h) (store_fs ossh (SymlinkMetadata p) (disk_store h))"
    unfolding disk_methods by (rule disk_call_meets [OF h(1)]) (use h(2) in simp, erule disk_attributes [where p = p, rotated], simp)
  show "meets (\<lambda>h. disk_ok h \<and> dk_files h = files) disk_store (h_into_status (disk_handler ossh)) good_name
      (h_readlink (disk_handler ossh) i p h) (store_fs ossh (FollowLink p) (disk_store h))"
    unfolding disk_methods by (rule disk_call_meets [OF h(1)])
      (use h(2) in simp, erule disk_named [OF disk_ok_names [OF h(1)] h(2), rotated], simp)
  show "meets (\<lambda>h. disk_ok h \<and> dk_files h = files) disk_store (h_into_status (disk_handler ossh)) good_name
      (h_realpath (disk_handler ossh) i p h) (store_fs ossh (Canonicalize p) (disk_store h))"
    unfolding disk_methods by (rule disk_call_meets [OF h(1)])
      (use h(2) in simp, erule disk_named [OF disk_ok_names [OF h(1)] h(2), rotated], simp)
next
  fix h d bs i
  assume "disk_ok h \<and> dk_files h = files" and "open_dir h d = Some bs"
  from disk_closes_dir [OF this, of i]
  show "\<exists>st h'. h_close (disk_handler ossh) i d h = (Ok st, h') \<and> (disk_ok h' \<and> dk_files h' = files)
      \<and> disk_store h' = disk_store h \<and> status_status_code st = SC_Ok \<and> sendable (Status st)"
    using sendable_ok_status [of i] by (auto simp: ok_status_def)
qed (simp_all del: disk_fs.simps add: disk_call_meets disk_done disk_opens_dir disk_reads_dir disk_ends_dir)

section \<open>The files of the disk\<close>

lemma on_open_handle: "map_of (dk_files h) fd = Some p \<Longrightarrow> on_handle fd f h = f p h"
  by (simp add: on_handle_def)

lemma disk_reads_part:
  assumes "0 < n" and "map_of (dk_files h) fd = Some p"
  shows "\<exists>r. disk_read i fd off n h = (r, h)
    \<and> (if length (disk_content p h) \<le> unat off then \<exists>e. r = Err e \<and> e = SC_Eof
       else \<exists>d k. r = Ok d \<and> data_data d = take k (drop (unat off) (disk_content p h))
              \<and> 0 < k \<and> k \<le> unat n \<and> k < 2 ^ 31)"
proof (cases "length (disk_content p h) \<le> unat off")
  case False
  have "0 < unat n" using assms(1) by (simp add: word_less_nat_alt)
  then show ?thesis using False
    by (auto simp: disk_read_def on_open_handle [OF assms(2)] intro!: exI [of _ "min (unat n) 262144"])
qed (simp add: disk_read_def on_open_handle [OF assms(2)])

text \<open>Calls on an open file leave everything alone but its content.\<close>

definition same_rest :: "bytes \<Rightarrow> disk_server \<Rightarrow> disk_server \<Rightarrow> bool" where
  "same_rest p h h' \<longleftrightarrow> dk_names h' = dk_names h \<and> dk_files h' = dk_files h \<and> dk_dirs h' = dk_dirs h
     \<and> dk_next h' = dk_next h \<and> (\<forall>q. q \<noteq> p \<longrightarrow> disk_content q h' = disk_content q h)"

lemma disk_writes_rest:
  assumes "map_of (dk_files h) fd = Some p"
  shows "same_rest p h (snd (disk_write i fd off data h))"
    and "disk_content p (snd (disk_write i fd off data h)) = overwrite (disk_content p h) (unat off) data"
  by (simp_all add: disk_write_def on_open_handle [OF assms] same_rest_def disk_content_def AList.update_conv)

text \<open>Any condition \<open>G\<close> on the rest is kept by the calls on the open file \<open>p\<close>.\<close>

lemma disk_file_server:
  assumes fd: "path_ok fd" and "open": "\<And>h. G h \<Longrightarrow> map_of (dk_files h) fd = Some p"
    and rest: "\<And>h h'. G h \<Longrightarrow> same_rest p h h' \<Longrightarrow> G h'"
  shows "file_server (disk_handler ossh) fd (disk_content p) G"
proof unfold_locales
  fix n :: u32 and i off h
  assume "G h" and "0 < n"
  then show "\<exists>r h'. h_read (disk_handler ossh) i fd off n h = (r, h') \<and> G h' \<and> disk_content p h' = disk_content p h
      \<and> (if length (disk_content p h) \<le> unat off then \<exists>e. r = Err e \<and> h_into_status (disk_handler ossh) e = SC_Eof
         else \<exists>d k. r = Ok d \<and> data_data d = take k (drop (unat off) (disk_content p h))
                \<and> 0 < k \<and> k \<le> unat n \<and> k < 2 ^ 31)"
    using disk_reads_part [of n h fd p i off] "open" by auto
next
  fix h i off data
  assume G: "G h"
  then show "\<exists>st h'. h_write (disk_handler ossh) i fd off data h = (Ok st, h') \<and> G h'
      \<and> status_status_code st = SC_Ok \<and> sendable (Status st)
      \<and> disk_content p h' = overwrite (disk_content p h) (unat off) data"
    using rest [OF G disk_writes_rest(1) [OF "open" [OF G], of i off data]]
      disk_writes_rest(2) [OF "open" [OF G], of i off data] sendable_ok_status [of i]
    by (auto simp: disk_write_def on_open_handle [OF "open" [OF G]] ok_status_def)
qed (use fd "open" in \<open>auto simp: path_ok_def disk_fstat_def on_handle_def\<close>)

lemmas disk_file_peer = file_server.is_peer [OF disk_file_server]

section \<open>Handles\<close>

text \<open>
  The open files are numbered below the next number, so that the next handle is none of theirs.
\<close>

definition handles_below :: "disk_server \<Rightarrow> bool" where
  "handles_below h \<longleftrightarrow>
     list_all (\<lambda>x. \<exists>n < unat (dk_next h). fst x = lit ''f'' @ decimal n) (dk_files h)"

lemma fresh_handle: "handles_below h \<Longrightarrow> map_of (dk_files h) (file_handle h) = None"
  by (auto simp: handles_below_def file_handle_def list_all_iff map_of_eq_None_iff)

lemma fresh_update: "map_of d p = None \<Longrightarrow> AList.update p n d = d @ [(p, n)]"
  by (induction d) auto

lemma fresh_delete: "map_of d p = None \<Longrightarrow> AList.delete p (d @ m) = d @ AList.delete p m"
  by (induction d) (auto split: if_splits)

lemma handles_below_opened:
  assumes "handles_below h" and "unat (dk_next h) < 2 ^ 63"
  shows "handles_below (opened_file p h)"
proof -
  have "unat (dk_next h + 1) = Suc (unat (dk_next h))"
    using assms(2) by (simp add: unat_word_ariths word_less_nat_alt)
  then show ?thesis
    using assms(1) set_update_entries [of "file_handle h" p "dk_files h"]
    by (fastforce simp: handles_below_def opened_file_def list_all_iff file_handle_def less_Suc_eq)
qed

lemma handles_below_closed:
  "handles_below h \<Longrightarrow> handles_below (h\<lparr>dk_files := AList.delete fd (dk_files h)\<rparr>)"
  by (auto simp: handles_below_def list_all_iff AList.delete_eq)

lemma disk_ok_closed [simp]: "disk_ok h \<Longrightarrow> disk_ok (h\<lparr>dk_files := AList.delete fd (dk_files h)\<rparr>)"
  by (auto simp: disk_ok_def AList.delete_eq)

lemma opened_file_fields [simp]:
  "dk_names (opened_file p h) = dk_names h" "dk_dirs (opened_file p h) = dk_dirs h"
  "dk_next (opened_file p h) = dk_next h + 1" "disk_content q (opened_file p h) = disk_content q h"
  "disk_ok h \<Longrightarrow> disk_ok (opened_file p h)"
  "map_of (dk_files (opened_file p h)) = (map_of (dk_files h))(file_handle h \<mapsto> p)"
  using set_update_entries [of "file_handle h" p "dk_files h"] handle_ok(1) [of h]
  by (auto simp: opened_file_def disk_ok_def AList.update_conv disk_content_def)

lemma no_attrs [simp]: "norm_attrs attrs_empty = attrs_empty"
  by (simp add: norm_attrs_def attrs_empty_def has_times_def has_ids_def)

text \<open>An open that succeeds, over the wire.\<close>

lemma disk_opens_file:
  assumes "unlimited s" and "path_ok p"
    and x: "\<And>i. disk_open i p flags attrs_empty h = (Ok \<lparr>handle_id = i, handle_handle = fd\<rparr>, h')" and "path_ok fd"
  obtains reply s' where "raw_open (loopback (disk_handler ossh)) p flags attrs_empty (s, h) = (Ok reply, s', h')"
    "handle_handle reply = fd" "unlimited s'"
proof -
  let ?i = "rs_next_req_id s"
  have "string_fits p" "length p < 2 ^ 30" using assms(2) by (simp_all add: path_ok_def)
  then have "\<exists>s'. raw_open (loopback (disk_handler ossh)) p flags attrs_empty (s, h)
      = (Ok \<lparr>handle_id = ?i, handle_handle = fd\<rparr>, s'\<lparr>rs_handles := rs_handles s + 1\<rparr>, h') \<and> call_frame s s'"
    using disk_echo.open_served [of s p, where flags = flags and attrs = attrs_empty and h = h and ossh = ossh]
      unlimitedD [OF assms(1)] assms(4) by (auto simp: x path_ok_def)
  with that show thesis using call_frame_unlimited [of s] assms(1) by fastforce
qed

lemma disk_opens_existing:
  assumes "unlimited s" and "path_ok p" and "map_of (dk_names h) p = Some (FileNode a)"
    and "flags AND OPEN_TRUNCATE = 0" and "flags AND OPEN_CREATE = 0"
  obtains reply s' where "raw_open (loopback (disk_handler ossh)) p flags attrs_empty (s, h)
      = (Ok reply, s', opened_file p h)" "handle_handle reply = file_handle h" "unlimited s'"
  by (rule disk_opens_file [OF assms(1,2) _ handle_ok(1)]) (use assms(3-) in \<open>auto simp: disk_open_def\<close>)

lemma disk_creates_file:
  assumes "unlimited s" and "path_ok p" and "map_of (dk_names h) p = None"
    and "flags AND OPEN_TRUNCATE \<noteq> 0" and "flags AND OPEN_CREATE \<noteq> 0"
  obtains reply s' where "raw_open (loopback (disk_handler ossh)) p flags attrs_empty (s, h)
      = (Ok reply, s', opened_file p (h\<lparr>dk_contents := AList.delete p (dk_contents h),
           dk_names := dk_names h @ [(p, FileNode attrs_empty)]\<rparr>))"
    "handle_handle reply = file_handle h" "unlimited s'"
  by (rule disk_opens_file [OF assms(1,2) _ handle_ok(1)])
    (use assms(3-) that in \<open>auto simp: disk_open_def Let_def fresh_update\<close>)

text \<open>Closing a file, and reading one that is closed.\<close>

lemma disk_closes_file:
  assumes "unlimited s" and "path_ok fd" and "\<not> is_dir_handle fd" and "map_of (dk_files h) fd = Some p"
  obtains st s' where "raw_close (loopback (disk_handler ossh)) fd (s, h)
      = (Ok st, s', h\<lparr>dk_files := AList.delete fd (dk_files h)\<rparr>)" "unlimited s'"
proof -
  have c: "disk_close i fd h = (Ok (ok_status i), h\<lparr>dk_files := AList.delete fd (dk_files h)\<rparr>)" for i
    using assms(3,4) by (simp add: disk_close_def)
  obtain s' n where "raw_close (loopback (disk_handler ossh)) fd (s, h)
      = (into_status (Status (ok_status (rs_next_req_id s))), s'\<lparr>rs_handles := n\<rparr>,
         h\<lparr>dk_files := AList.delete fd (dk_files h)\<rparr>)" "call_frame s s'"
    using disk_echo.close_served [of s fd, where h = h and ossh = ossh] unlimitedD [OF assms(1)] assms(2)
      sendable_ok_status [of "rs_next_req_id s"]
    by (auto simp: path_ok_def c) (auto simp: ok_status_def)
  with that [of "ok_status (rs_next_req_id s)" "s'\<lparr>rs_handles := n\<rparr>"] show thesis
    using call_frame_unlimited [of s s'] assms(1) by (simp add: into_status_def ok_status_def)
qed

lemma disk_reads_closed:
  assumes "unlimited s" and "path_ok fd" and "map_of (dk_files h) fd = None"
  obtains st s' where "raw_read (loopback (disk_handler ossh)) fd off n (s, h) = (Err (CE_Status st), s', h)"
    "status_status_code st = SC_Failure" "unlimited s'"
proof -
  have r: "disk_read i fd off n h = (Err SC_Failure, h)" for i
    using assms(3) by (simp add: disk_read_def on_handle_def)
  obtain s' where "raw_read (loopback (disk_handler ossh)) fd off n (s, h)
      = (Err (status_error (disk_handler ossh) (rs_next_req_id s) SC_Failure), s', h)" "call_frame s s'"
    using disk_echo.read_served [of s fd, where n = n and offset = off and h = h and ossh = ossh] assms(1,2)
    by (auto simp: path_ok_def unlimited_def limits_default_def r)
  with that show thesis using call_frame_unlimited [of s s'] assms(1) by (simp add: status_error_def)
qed

section \<open>Properties of remote file systems\<close>

text \<open>C6: A session is the file system its server serves: a program of any calls on names, made through
  the high-level session, over the wire and the crate's server to a handler that serves a file
  system, gets for each call the answer the file system gives a local program, and leaves the file
  system in the same state; errors arrive as statuses with their codes, attributes with half-given
  pairs completed, the entries of a directory in some order.\<close>

theorem remote_fs_refines_local:
  assumes "fs_server H fs view I pending" and "unlimited s" and "I h" and "list_all call_ok cs"
  shows "\<exists>rs s' h'. run_remote (loopback H) cs (s, h) = Some (rs, s', h')
    \<and> list_all2 same_answer (fst (run_local fs cs (view h))) rs
    \<and> view h' = snd (run_local fs cs (view h)) \<and> unlimited s' \<and> I h'"
  by (rule fs_server.run_does [OF assms])

theorem remote_fs_refines_local_witness:
  "\<exists>rs s' h'. run_remote (loopback (disk_handler False))
      [CreateDir [97], CreateSymlink [98] [97], TryExists [99], RemoveFile [97], ListDir (lit ''.''), RemoveDir [97]]
      (session_ready, disk_start []) = Some (rs, s', h')
    \<and> list_all2 same_answer [Ok Done, Ok Done, Ok (Exists False), Err SC_Failure,
        Ok (Entries [([97], attrs_empty), ([98], attrs_empty)]), Ok Done] rs
    \<and> dk_names h' = [([98], LinkNode [97])] \<and> unlimited s' \<and> disk_ok h'"
  using remote_fs_refines_local [OF disk.fs_server_axioms [where ossh = False and files = "[]"], of session_ready
      "disk_start []"
      "[CreateDir [97], CreateSymlink [98] [97], TryExists [99], RemoveFile [97], ListDir (lit ''.''), RemoveDir [97]]"]
  by (auto simp: unlimited_def idle_ready disk_ok_def disk_start_def disk_store_def store_fs_def moved_def
      names_ok_def path_ok_def string_fits_def valid_utf8_ascii lit_def fresh_name_def missing_or_def target_node_def
      simp del: run_remote.simps)

end
