(* ===== verification/Handles.thy ===== *)
theory Handles
  imports DiskServer LocalFile
begin

text \<open>
  Whole files and the handles they leave open. \<open>SftpSession::read\<close> and \<open>SftpSession::write\<close> drop their
  file at the end, so each leaves a task behind that closes the handle some time later
  (\<open>drop_task\<close>). \<open>path_peer\<close> is the contract of a server with a file at a path: what its opens, the
  calls on an open handle and its closes do to the open handles and to the content.
\<close>

section \<open>The contract of a path\<close>

text \<open>
  \<open>ok n\<close> are the states in which the file can be opened \<open>n\<close> more times, \<open>held\<close> the handles that are open on
  it. An open to read or to write answers a handle that is not open yet.
\<close>

locale path_peer =
  fixes W :: "'w waits" and path :: bytes and chunk :: nat and ok :: "nat \<Rightarrow> raw_session \<times> 'w \<Rightarrow> bool"
    and held :: "raw_session \<times> 'w \<Rightarrow> bytes set" and stored :: "raw_session \<times> 'w \<Rightarrow> bytes"
  assumes open_law: "ok (Suc n) sw \<Longrightarrow> flags = OPEN_READ \<or> flags = OPEN_WRITE \<Longrightarrow>
      \<exists>reply sw'. raw_open W path flags attrs_empty sw = (Ok reply, sw') \<and> ok n sw'
        \<and> handle_handle reply \<notin> held sw \<and> held sw' = insert (handle_handle reply) (held sw)
        \<and> stored sw' = stored sw"
    and peer_law: "fd \<in> A \<Longrightarrow> file_peer W (\<lambda>sw. ok n sw \<and> held sw = A) fd chunk stored"
    and close_law: "ok n sw \<Longrightarrow> fd \<in> held sw \<Longrightarrow>
      \<exists>r sw'. raw_close W fd sw = (r, sw') \<and> ok n sw' \<and> held sw' = held sw - {fd} \<and> stored sw' = stored sw"
begin

lemma dropped:
  assumes "ok n sw" and "fd \<in> held sw"
  shows "ok n (drop_task W fd sw)" "held (drop_task W fd sw) = held sw - {fd}"
    "stored (drop_task W fd sw) = stored sw"
proof -
  obtain r sw' where "raw_close W fd sw = (r, sw')" "ok n sw'" "held sw' = held sw - {fd}" "stored sw' = stored sw"
    using close_law [OF assms] by blast
  then show "ok n (drop_task W fd sw)" "held (drop_task W fd sw) = held sw - {fd}"
      "stored (drop_task W fd sw) = stored sw"
    by (simp_all add: drop_task_def)
qed

lemma written:
  assumes "ok (Suc n) sw" and "length data < 2 ^ 63" and "0 < limit_or lim_write_len MAX_WRITE_LENGTH e"
    and "unat (limit_or lim_write_len MAX_WRITE_LENGTH e) \<le> chunk"
  obtains fd sw' where "sftp_write W e path data sw = (Ok (), Some fd, sw')" "ok n sw'" "fd \<notin> held sw"
    "held sw' = insert fd (held sw)" "stored sw' = data @ drop (length data) (stored sw)"
proof -
  from open_law [OF assms(1), of OPEN_WRITE] obtain reply sw1
    where o: "raw_open W path OPEN_WRITE attrs_empty sw = (Ok reply, sw1)" "ok n sw1"
      "handle_handle reply \<notin> held sw" "held sw1 = insert (handle_handle reply) (held sw)"
      "stored sw1 = stored sw" by auto
  have "accepts_writes W (\<lambda>sw. ok n sw \<and> held sw = held sw1) (handle_handle reply) chunk stored"
    by (rule file_peer.accepts [OF peer_law]) (simp add: o(4))
  from sftp_write_stored [OF o(1) _ this assms(2-4)] o(2) obtain sw'
    where "sftp_write W e path data sw = (Ok (), Some (handle_handle reply), sw')" "ok n sw'"
      "held sw' = held sw1" "stored sw' = overwrite (stored sw1) 0 data" by auto
  then show thesis using o that by (simp add: overwrite_def)
qed

lemma read_back:
  assumes "ok (Suc n) sw" and "length (stored sw) < 2 ^ 63"
    and "\<And>i. 0 < read_size (room i) e \<and> read_size (room i) e < 2 ^ 32"
  obtains fd sw' where "sftp_read W room e path sw = Some (Ready (Ok (stored sw)), Some fd, sw')" "ok n sw'"
    "fd \<notin> held sw" "held sw' = insert fd (held sw)"
proof -
  from open_law [OF assms(1), of OPEN_READ] obtain reply sw1
    where o: "raw_open W path OPEN_READ attrs_empty sw = (Ok reply, sw1)" "ok n sw1"
      "handle_handle reply \<notin> held sw" "held sw1 = insert (handle_handle reply) (held sw)"
      "stored sw1 = stored sw" by auto
  have "serves_content W (\<lambda>s. (ok n s \<and> held s = held sw1) \<and> stored s = stored sw) (handle_handle reply) (stored sw)"
    by (rule file_peer.serves [OF peer_law]) (simp add: o(4))
  from sftp_read_content [where room = room, OF o(1) _ this assms(2,3)] o(2,5) obtain sw'
    where "sftp_read W room e path sw = Some (Ready (Ok (stored sw)), Some (handle_handle reply), sw')"
      "ok n sw'" "held sw' = held sw1" by auto
  then show thesis using o that by simp
qed

lemma round_trip:
  assumes sw: "ok 2 sw" and e: "limits_ok chunk e"
    and sizes: "length data < 2 ^ 63" "length (stored sw) < 2 ^ 63"
    and room: "\<And>i. 0 < read_size (room i) e \<and> read_size (room i) e < 2 ^ 32"
  shows "\<exists>fd sw1. sftp_write W e path data sw = (Ok (), Some fd, sw1)
    \<and> (\<exists>fd' sw2. sftp_read W room e path sw1
          = Some (Ready (Ok (data @ drop (length data) (stored sw))), Some fd', sw2)
        \<and> held (drop_task W fd' (drop_task W fd sw2)) = held sw
        \<and> held (drop_task W fd (drop_task W fd' sw2)) = held sw)
    \<and> (\<exists>fd' sw2. sftp_read W room e path (drop_task W fd sw1)
          = Some (Ready (Ok (data @ drop (length data) (stored sw))), Some fd', sw2)
        \<and> held (drop_task W fd' sw2) = held sw)"
proof -
  have two: "ok (Suc (Suc 0)) sw" using sw by (simp add: numeral_2_eq_2)
  have "0 < limit_or lim_write_len MAX_WRITE_LENGTH e" "unat (limit_or lim_write_len MAX_WRITE_LENGTH e) \<le> chunk"
    using e by (simp_all add: limits_ok_def)
  from written [OF two sizes(1) this] obtain fd sw1
    where w: "sftp_write W e path data sw = (Ok (), Some fd, sw1)" "ok (Suc 0) sw1" "fd \<notin> held sw"
      "held sw1 = insert fd (held sw)" "stored sw1 = data @ drop (length data) (stored sw)" by blast
  have len: "length (stored sw1) < 2 ^ 63" using sizes by (simp add: w(5))
  obtain fd1 sw2 where r: "sftp_read W room e path sw1 = Some (Ready (Ok (stored sw1)), Some fd1, sw2)" "ok 0 sw2"
      "fd1 \<notin> held sw1" "held sw2 = insert fd1 (held sw1)"
    by (rule read_back [OF w(2) len room])
  have d: "ok (Suc 0) (drop_task W fd sw1)" "held (drop_task W fd sw1) = held sw" "stored (drop_task W fd sw1) = stored sw1"
    using dropped [OF w(2), of fd] w(3,4) by auto
  obtain fd2 sw3 where r': "sftp_read W room e path (drop_task W fd sw1)
      = Some (Ready (Ok (stored sw1)), Some fd2, sw3)" "ok 0 sw3" "fd2 \<notin> held sw" "held sw3 = insert fd2 (held sw)"
    using read_back [OF d(1), of room e] len room d(2,3) by metis
  have one: "held (drop_task W fd1 (drop_task W fd sw2)) = held sw"
    using dropped [OF r(2), of fd] dropped [OF dropped(1) [OF r(2), of fd], of fd1] r(3,4) w(3,4) by auto
  have other: "held (drop_task W fd (drop_task W fd1 sw2)) = held sw"
    using dropped [OF r(2), of fd1] dropped [OF dropped(1) [OF r(2), of fd1], of fd] r(3,4) w(3,4) by auto
  have last: "held (drop_task W fd2 sw3) = held sw"
    using dropped [OF r'(2), of fd2] r'(3,4) by auto
  show ?thesis
    by (rule exI [of _ fd], rule exI [of _ sw1]) (use w(1,5) r(1) r'(1) one other last in auto)
qed

end

section \<open>The reference disk keeps the contract\<close>

definition disk_path_ok :: "bytes \<Rightarrow> nat \<Rightarrow> disk_server \<Rightarrow> bool" where
  "disk_path_ok p n h \<longleftrightarrow> disk_ok h \<and> handles_below h \<and> unat (dk_next h) + n \<le> 2 ^ 63
     \<and> (case map_of (dk_names h) p of Some (FileNode _) \<Rightarrow> True | _ \<Rightarrow> False)"

definition disk_held :: "bytes \<Rightarrow> disk_server \<Rightarrow> bytes set" where
  "disk_held p h = {fd. map_of (dk_files h) fd = Some p}"

lemma held_handle: "handles_below h \<Longrightarrow> map_of (dk_files h) fd = Some p \<Longrightarrow> \<not> is_dir_handle fd"
  by (auto simp: handles_below_def list_all_iff is_dir_handle_def lit_def dest!: map_of_SomeD)

lemma open_handle_ok: "disk_ok h \<Longrightarrow> map_of (dk_files h) fd = Some p \<Longrightarrow> path_ok fd"
  by (force simp: disk_ok_def dest: map_of_SomeD)

lemma next_handle:
  assumes "unat (dk_next h) + Suc n \<le> 2 ^ 63"
  shows "unat (dk_next h + 1) + n \<le> 2 ^ 63"
  using assms by (simp add: unat_word_ariths)

lemma disk_path:
  assumes "path_ok p"
  shows "path_peer (loopback (disk_handler ossh)) p (2 ^ 29)
    (\<lambda>n sw. unlimited (fst sw) \<and> disk_path_ok p n (snd sw)) (\<lambda>sw. disk_held p (snd sw))
    (\<lambda>sw. disk_content p (snd sw))"
proof (rule path_peer.intro)
  fix n flags and sw :: "raw_session \<times> disk_server"
  assume ok: "unlimited (fst sw) \<and> disk_path_ok p (Suc n) (snd sw)" and flags: "flags = OPEN_READ \<or> flags = OPEN_WRITE"
  obtain s h where sw: "sw = (s, h)" by (cases sw)
  from ok obtain a where h: "unlimited s" "disk_ok h" "handles_below h" "unat (dk_next h) + Suc n \<le> 2 ^ 63"
      "map_of (dk_names h) p = Some (FileNode a)"
    by (auto simp: disk_path_ok_def sw split: option.splits node.splits)
  have "flags AND OPEN_TRUNCATE = 0" "flags AND OPEN_CREATE = 0"
    using flags by (auto simp: OPEN_READ_def OPEN_WRITE_def OPEN_TRUNCATE_def OPEN_CREATE_def)
  then obtain reply s' where o: "raw_open (loopback (disk_handler ossh)) p flags attrs_empty (s, h)
      = (Ok reply, s', opened_file p h)" "handle_handle reply = file_handle h" "unlimited s'"
    by (rule disk_opens_existing [OF h(1) assms h(5)])
  have "handles_below (opened_file p h)" using h(3,4) by (intro handles_below_opened) simp_all
  then show "\<exists>reply sw'. raw_open (loopback (disk_handler ossh)) p flags attrs_empty sw = (Ok reply, sw')
      \<and> (unlimited (fst sw') \<and> disk_path_ok p n (snd sw')) \<and> handle_handle reply \<notin> disk_held p (snd sw)
      \<and> disk_held p (snd sw') = insert (handle_handle reply) (disk_held p (snd sw))
      \<and> disk_content p (snd sw') = disk_content p (snd sw)"
    using o h next_handle [OF h(4)] fresh_handle [OF h(3)]
    by (auto simp: sw disk_path_ok_def disk_held_def)
next
  fix fd :: bytes and A :: "bytes set" and n
  assume fd: "fd \<in> A"
  show "file_peer (loopback (disk_handler ossh))
      (\<lambda>sw. (unlimited (fst sw) \<and> disk_path_ok p n (snd sw)) \<and> disk_held p (snd sw) = A) fd (2 ^ 29)
      (\<lambda>sw. disk_content p (snd sw))"
  proof (cases "path_ok fd")
    case True
    have "file_peer (loopback (disk_handler ossh))
        (\<lambda>sw. unlimited (fst sw) \<and> disk_path_ok p n (snd sw) \<and> disk_held p (snd sw) = A) fd (2 ^ 29)
        (\<lambda>sw. disk_content p (snd sw))"
      using True fd by (intro disk_file_peer)
        (auto simp: disk_held_def same_rest_def disk_path_ok_def disk_ok_def handles_below_def)
    then show ?thesis by (simp only: conj_assoc)
  next
    case False
    then have none: "\<not> (disk_path_ok p n h \<and> disk_held p h = A)" for h
      using fd open_handle_ok [of h fd p] by (auto simp: disk_path_ok_def disk_held_def)
    then have "\<not> ((unlimited (fst sw) \<and> disk_path_ok p n (snd sw)) \<and> disk_held p (snd sw) = A)" for sw
      using none [of "snd sw"] by blast
    then show ?thesis by unfold_locales (simp_all only: not_True_eq_False)
  qed
next
  fix n fd and sw :: "raw_session \<times> disk_server"
  assume ok: "unlimited (fst sw) \<and> disk_path_ok p n (snd sw)" and fd: "fd \<in> disk_held p (snd sw)"
  obtain s h where sw: "sw = (s, h)" by (cases sw)
  have h: "unlimited s" "handles_below h" "map_of (dk_files h) fd = Some p" "disk_ok h"
    using ok fd by (simp_all add: disk_path_ok_def disk_held_def sw)
  have "path_ok fd" by (rule open_handle_ok [OF h(4,3)])
  then obtain st s' where "raw_close (loopback (disk_handler ossh)) fd (s, h)
      = (Ok st, s', h\<lparr>dk_files := AList.delete fd (dk_files h)\<rparr>)" "unlimited s'"
    by (rule disk_closes_file [OF h(1) _ held_handle [OF h(2,3)] h(3)])
  then show "\<exists>r sw'. raw_close (loopback (disk_handler ossh)) fd sw = (r, sw')
      \<and> (unlimited (fst sw') \<and> disk_path_ok p n (snd sw'))
      \<and> disk_held p (snd sw') = disk_held p (snd sw) - {fd} \<and> disk_content p (snd sw') = disk_content p (snd sw)"
    using ok handles_below_closed [OF h(2), of fd] h(4)
    by (auto simp: sw disk_path_ok_def disk_held_def AList.delete_conv split: if_splits)
qed

interpretation note_file: path_peer "loopback (disk_handler ossh)" "lit ''notes''" "2 ^ 29"
    "\<lambda>n sw. unlimited (fst sw) \<and> disk_path_ok (lit ''notes'') n (snd sw)" "\<lambda>sw. disk_held (lit ''notes'') (snd sw)"
    "\<lambda>sw. disk_content (lit ''notes'') (snd sw)"
  by (rule disk_path) (simp add: path_ok_def string_fits_def valid_utf8_ascii lit_def)

text \<open>The extensions of a server that announces none, and a disk with one file, which is open.\<close>

definition no_extensions :: extensions where
  "no_extensions = \<lparr>ext_hardlink = False, ext_fsync = False, ext_statvfs = False, ext_limits = None\<rparr>"

definition notes_disk :: disk_server where
  "notes_disk = \<lparr>dk_names = [(lit ''notes'', FileNode attrs_empty)], dk_contents = [(lit ''notes'', [1, 2, 3])],
     dk_files = [(lit ''f0'', lit ''notes'')], dk_dirs = [], dk_next = 1\<rparr>"

section \<open>Properties of whole files\<close>

text \<open>C10: What was written is read back, and no handle stays open: against any server that keeps the
  contract of a path, where every open answers a handle of its own, \<open>SftpSession::write\<close> followed by
  \<open>SftpSession::read\<close> returns the data and what was behind it, whether the close that dropping the
  written file has spawned runs after the read or before it; and when both closes have run, in
  whatever order, the handles that are open on the file are those that were open before.\<close>

theorem written_data_is_read_back:
  assumes "path_peer W path chunk ok held stored" and "ok 2 sw" and "limits_ok chunk e"
    and "length data < 2 ^ 63" and "length (stored sw) < 2 ^ 63"
    and "\<And>i. 0 < read_size (room i) e \<and> read_size (room i) e < 2 ^ 32"
  shows "\<exists>fd sw1. sftp_write W e path data sw = (Ok (), Some fd, sw1)
    \<and> (\<exists>fd' sw2. sftp_read W room e path sw1
          = Some (Ready (Ok (data @ drop (length data) (stored sw))), Some fd', sw2)
        \<and> held (drop_task W fd' (drop_task W fd sw2)) = held sw
        \<and> held (drop_task W fd (drop_task W fd' sw2)) = held sw)
    \<and> (\<exists>fd' sw2. sftp_read W room e path (drop_task W fd sw1)
          = Some (Ready (Ok (data @ drop (length data) (stored sw))), Some fd', sw2)
        \<and> held (drop_task W fd' sw2) = held sw)"
  by (rule path_peer.round_trip [OF assms])

theorem written_data_is_read_back_witness:
  "\<exists>fd sw1. sftp_write (loopback (disk_handler False)) no_extensions (lit ''notes'') [7, 8]
      (session_ready, notes_disk) = (Ok (), Some fd, sw1)
    \<and> (\<exists>fd' sw2. sftp_read (loopback (disk_handler False)) (\<lambda>_. 2) no_extensions (lit ''notes'') sw1
          = Some (Ready (Ok [7, 8, 3]), Some fd', sw2)
        \<and> disk_held (lit ''notes'') (snd (drop_task (loopback (disk_handler False)) fd'
            (drop_task (loopback (disk_handler False)) fd sw2))) = {lit ''f0''}
        \<and> disk_held (lit ''notes'') (snd (drop_task (loopback (disk_handler False)) fd
            (drop_task (loopback (disk_handler False)) fd' sw2))) = {lit ''f0''})
    \<and> (\<exists>fd' sw2. sftp_read (loopback (disk_handler False)) (\<lambda>_. 2) no_extensions (lit ''notes'')
          (drop_task (loopback (disk_handler False)) fd sw1)
          = Some (Ready (Ok [7, 8, 3]), Some fd', sw2)
        \<and> disk_held (lit ''notes'') (snd (drop_task (loopback (disk_handler False)) fd' sw2)) = {lit ''f0''})"
proof -
  let ?N = "lit ''notes''"
  have "disk_held ?N notes_disk = {lit ''f0''}" "disk_content ?N notes_disk = [1, 2, 3]"
      "path_ok (lit ''f0'')" "path_ok ?N"
    by (auto simp: notes_disk_def disk_held_def disk_content_def path_ok_def string_fits_def valid_utf8_ascii lit_def
        split: if_splits)
  moreover have "unlimited session_ready \<and> disk_path_ok ?N 2 notes_disk"
    using calculation(3,4) by (auto simp: unlimited_def idle_ready disk_path_ok_def notes_disk_def disk_ok_def
        names_ok_def handles_below_def decimal.simps lit_def intro!: exI [of _ 0])
  ultimately show ?thesis
    using written_data_is_read_back [OF note_file.path_peer_axioms [where ossh = False], of "(session_ready, notes_disk)"
        no_extensions "[7, 8]" "\<lambda>_. 2"]
    by (simp add: limits_ok_def no_extensions_def limit_or_def read_size_def MAX_READ_LENGTH_def MAX_WRITE_LENGTH_def)
qed

end
