(* ===== verification/ExampleRun.thy ===== *)
theory ExampleRun
  imports ExampleClient Handles
begin

text \<open>
  The example client against a server that serves a file system: its calls on names are a program of
  the file system, and against the reference disk it runs to its end.
\<close>

section \<open>The calls on names\<close>

definition dir_path :: bytes where "dir_path = lit ''./some_kind_of_dir''"

definition link_path :: bytes where "link_path = lit ''./symlink''"

definition test_path :: bytes where "test_path = lit ''test_new.txt''"

definition example_calls :: "fs_call list" where
  "example_calls = [Canonicalize (lit ''.''), CreateDir dir_path, CreateSymlink dir_path link_path,
     Metadata dir_path, SymlinkMetadata dir_path, ListDir (lit ''.''), RemoveFile link_path, RemoveDir dir_path]"

lemma answer_eq [simp]: "answer f r = (Ok b, sw') \<longleftrightarrow> (\<exists>a. r = (Ok a, sw') \<and> b = f a)"
  by (cases r; cases "fst r") (auto simp: answer_def)

lemma run_remote_Cons:
  "run_remote W (c # cs) sw = Some (r # rs, sw') \<longleftrightarrow>
     (\<exists>sw1. remote_call W c sw = Some (r, sw1) \<and> run_remote W cs sw1 = Some (rs, sw'))"
  by (cases sw') (auto split: option.splits)

lemma example_names_remote:
  assumes "run_remote W example_calls sw
    = Some ([Ok (Path cur), Ok Done, Ok Done, Ok (Attributes a1), Ok (Attributes a2), Ok (Entries es),
        Ok Done, Ok Done], sw')"
  shows "example_names W sw k
    = k ([CurrentPath cur, DirInfo a1, SymlinkInfo a2]
         @ map (\<lambda>e. FileInDirectory (entry_file_name e)) (read_dir_all es)) sw'"
  using assms
  by (auto simp: example_calls_def run_remote_Cons dir_path_def link_path_def example_names_def Let_def
      simp del: run_remote.simps(2))


section \<open>The calls on the reference disk\<close>

lemma path_facts:
  "path_ok dir_path" "path_ok link_path" "path_ok test_path" "path_ok (lit ''.'')"
  "dir_path \<noteq> link_path" "link_path \<noteq> dir_path" "dir_path \<noteq> test_path" "link_path \<noteq> test_path"
  by (simp_all add: path_ok_def string_fits_def valid_utf8_ascii lit_def dir_path_def link_path_def test_path_def)

text \<open>A disk without the names the example uses.\<close>

definition without_example :: "disk \<Rightarrow> bool" where
  "without_example d \<longleftrightarrow> names_ok d \<and> map_of d dir_path = None \<and> map_of d link_path = None
     \<and> map_of d test_path = None"

lemma example_calls_local:
  assumes "without_example d" and "g link_path = []"
  shows "run_local (store_fs True) example_calls (d, g) =
    ([Ok (Path (lit ''.'')), Ok Done, Ok Done, Ok (Attributes attrs_empty), Ok (Attributes attrs_empty),
      Ok (Entries (map (\<lambda>(name, n). (name, node_attrs n)) d @ [(dir_path, attrs_empty), (link_path, attrs_empty)])),
      Ok Done, Ok Done], d, g)"
proof -
  have "g(link_path := []) = g" using assms(2) by (simp add: fun_upd_idem)
  then show ?thesis using assms(1) path_facts
    by (simp add: example_calls_def without_example_def store_fs_def moved_def fresh_name_def missing_or_def
        target_node_def fresh_update fresh_delete map_add_def)
qed

lemma example_names_finish:
  assumes "without_example d" and "g link_path = []" and "unlimited s" and "disk_ok h" and "disk_store h = (d, g)"
  shows "\<exists>es s' h'. (\<forall>k. example_names (loopback (disk_handler True)) (s, h) k
      = k ([CurrentPath (lit ''.''), DirInfo attrs_empty, SymlinkInfo attrs_empty]
           @ map (\<lambda>e. FileInDirectory (entry_file_name e)) (read_dir_all es)) (s', h'))
    \<and> mset (map fst es) = mset (map fst d @ [dir_path, link_path])
    \<and> unlimited s' \<and> disk_ok h' \<and> dk_files h' = dk_files h \<and> disk_store h' = (d, g)"
proof -
  have I: "disk_ok h \<and> dk_files h = dk_files h" and calls: "list_all call_ok example_calls"
    using assms(4) path_facts by (simp_all add: example_calls_def)
  from disk.run_does [OF assms(3) I calls, where ossh = True] obtain rs s' h' where
    r: "run_remote (loopback (disk_handler True)) example_calls (s, h) = Some (rs, s', h')"
      "list_all2 same_answer (fst (run_local (store_fs True) example_calls (d, g))) rs"
      "disk_store h' = snd (run_local (store_fs True) example_calls (d, g))" "unlimited s'"
      "disk_ok h'" "dk_files h' = dk_files h"
    unfolding assms(5) by blast
  note local = example_calls_local [of d g, OF assms(1,2)]
  let ?es = "map (\<lambda>(name, n). (name, node_attrs n)) d @ [(dir_path, attrs_empty), (link_path, attrs_empty)]"
  obtain es where es: "rs = [Ok (Path (lit ''.'')), Ok Done, Ok Done, Ok (Attributes attrs_empty),
      Ok (Attributes attrs_empty), Ok (Entries es), Ok Done, Ok Done]" "mset es = mset (norm_entries ?es)"
    using r(2) by (auto simp: local list_all2_Cons1)
  have "image_mset fst (mset es) = image_mset fst (mset (norm_entries ?es))" by (simp only: es(2))
  then have "mset (map fst es) = mset (map fst ?es)"
    by (simp add: norm_entries_def case_prod_unfold image_mset.compositionality comp_def)
  moreover have "map fst ?es = map fst d @ [dir_path, link_path]" by (simp add: case_prod_unfold comp_def)
  ultimately have "mset (map fst es) = mset (map fst d @ [dir_path, link_path])" by (simp only:)
  moreover have "disk_store h' = (d, g)" using r(3) by (simp only: local snd_conv)
  ultimately show ?thesis using example_names_remote [OF r(1) [unfolded es(1)]] r(4-6) by blast
qed

section \<open>The session and the file\<close>

lemma disk_new:
  obtains s where "sftp_new (loopback (disk_handler ossh)) (raw_new, h) = (Ok no_extensions, s, h)" "unlimited s"
proof -
  have v: "sendable (Version version_new)"
    by (simp add: sendable_def fits_version_def version_new_def string_map_fits_def frame_fits_def
        packet_body_def wire_version_def wire_entries_def)
  have "h_init (disk_handler ossh) VERSION [] h = (Ok version_new, h)" by simp
  from init_served [OF connected_new this v] obtain s where
    i: "raw_init (loopback (disk_handler ossh)) (raw_new, h) = (Ok version_new, s, h)" "idle s"
      "rs_limits s = rs_limits raw_new" by blast
  have "\<not> announces version_new name revision" for name revision
    by (simp add: announces_def version_new_def)
  then have "sftp_new (loopback (disk_handler ossh)) (raw_new, h) = (Ok no_extensions, s, h)"
    using i(1) by (simp add: sftp_new_def sftp_new_opts_def no_extensions_def Let_def)
  moreover have "unlimited s" using i(2,3) by (simp add: unlimited_def raw_new_def)
  ultimately show thesis by (rule that)
qed

abbreviation example_flags :: u32 where
  "example_flags \<equiv> OPEN_CREATE OR OPEN_TRUNCATE OR OPEN_WRITE OR OPEN_READ"

lemma example_flags: "example_flags AND OPEN_TRUNCATE \<noteq> 0" "example_flags AND OPEN_CREATE \<noteq> 0"
  by (simp_all add: OPEN_CREATE_def OPEN_TRUNCATE_def OPEN_WRITE_def OPEN_READ_def)

text \<open>The disk while the example works with its file, which the table \<open>files\<close> may have open.\<close>

definition test_file_on :: "disk \<Rightarrow> (bytes \<Rightarrow> bytes) \<Rightarrow> (bytes \<times> bytes) list \<Rightarrow> disk_server \<Rightarrow> bool" where
  "test_file_on d g files h \<longleftrightarrow> disk_ok h \<and> dk_names h = d @ [(test_path, FileNode attrs_empty)]
     \<and> dk_files h = files \<and> (\<forall>q. q \<noteq> test_path \<longrightarrow> disk_content q h = g q)"

lemma test_file_peer:
  assumes "path_ok fd"
  shows "file_peer (loopback (disk_handler ossh))
    (\<lambda>sw. unlimited (fst sw) \<and> test_file_on d g [(fd, test_path)] (snd sw)) fd (2 ^ 29)
    (\<lambda>sw. disk_content test_path (snd sw))"
  using assms by (intro disk_file_peer) (auto simp: test_file_on_def same_rest_def disk_ok_def)

lemma disk_opens_test_file:
  assumes "without_example d" and "unlimited s" and "disk_ok h" and "disk_store h = (d, g)" and "dk_files h = []"
  obtains reply s' h' where "raw_open (loopback (disk_handler ossh)) test_path example_flags attrs_empty (s, h)
      = (Ok reply, s', h')"
    "handle_handle reply = file_handle h" "unlimited s'" "test_file_on d g [(file_handle h, test_path)] h'"
    "disk_content test_path h' = []"
proof -
  let ?h = "h\<lparr>dk_contents := AList.delete test_path (dk_contents h),
      dk_names := dk_names h @ [(test_path, FileNode attrs_empty)]\<rparr>"
  have d: "dk_names h = d" "\<And>q. disk_content q h = g q" and absent: "map_of (dk_names h) test_path = None"
    using assms(1,4) by (auto simp: disk_store_def without_example_def)
  obtain reply s' where o: "raw_open (loopback (disk_handler ossh)) test_path example_flags attrs_empty (s, h)
      = (Ok reply, s', opened_file test_path ?h)" "handle_handle reply = file_handle h" "unlimited s'"
    by (rule disk_creates_file [OF assms(2) path_facts(3) absent example_flags])
  have "disk_ok ?h" using assms(3) path_facts(3) by (auto simp: disk_ok_def names_ok_def)
  moreover have "disk_content q ?h = (if q = test_path then [] else g q)" for q
    using d(2) [of q] by (simp add: disk_content_def AList.delete_conv)
  moreover have "dk_files (opened_file test_path ?h) = [(file_handle h, test_path)]"
    by (simp add: opened_file_def file_handle_def assms(5))
  ultimately show thesis
    using d(1) by (intro that [OF o]) (simp_all add: test_file_on_def)
qed

lemma disk_closes_test_file:
  assumes "path_ok fd" and "\<not> is_dir_handle fd"
    and "unlimited (fst sw) \<and> test_file_on d g [(fd, test_path)] (snd sw)"
  shows "\<exists>st sw'. raw_close (loopback (disk_handler ossh)) fd sw = (Ok st, sw')
    \<and> unlimited (fst sw') \<and> test_file_on d g [] (snd sw')"
proof -
  obtain s h where sw: "sw = (s, h)" by (cases sw)
  have s: "unlimited s" and h: "disk_ok h" "dk_files h = [(fd, test_path)]"
    using assms(3) by (simp_all add: sw test_file_on_def)
  have "map_of (dk_files h) fd = Some test_path" by (simp add: h(2))
  then obtain st s' where "raw_close (loopback (disk_handler ossh)) fd (s, h)
      = (Ok st, s', h\<lparr>dk_files := AList.delete fd (dk_files h)\<rparr>)" "unlimited s'"
    by (rule disk_closes_file [OF s assms(1,2)])
  then show ?thesis using assms(3) h disk_ok_closed [OF h(1), of fd]
    by (auto simp: sw test_file_on_def)
qed

definition disk_restored :: "disk \<Rightarrow> (bytes \<Rightarrow> bytes) \<Rightarrow> raw_session \<times> disk_server \<Rightarrow> bool" where
  "disk_restored d g sw \<longleftrightarrow> unlimited (fst sw) \<and> dk_files (snd sw) = [] \<and> disk_store (snd sw) = (d, g)"

lemma disk_removes_test_file:
  assumes "without_example d" and "g test_path = []" and "unlimited (fst sw) \<and> test_file_on d g [] (snd sw)"
  shows "\<exists>st sw'. raw_remove (loopback (disk_handler ossh)) test_path sw = (Ok st, sw') \<and> disk_restored d g sw'"
proof -
  obtain s h where sw: "sw = (s, h)" by (cases sw)
  have s: "unlimited s" and h: "dk_names h = d @ [(test_path, FileNode attrs_empty)]" "dk_files h = []"
      "\<And>q. q \<noteq> test_path \<Longrightarrow> disk_content q h = g q"
    using assms(3) by (simp_all add: sw test_file_on_def)
  let ?h = "h\<lparr>dk_names := d, dk_contents := disk_contents (RemoveFile test_path) h\<rparr>"
  have "disk_call ossh (\<lambda>_. ok_status i) (RemoveFile test_path) h = (Ok (ok_status i), ?h)" for i
    using assms(1) by (simp add: disk_call_def h missing_or_def without_example_def fresh_delete map_add_def)
  then obtain s' where r: "raw_remove (loopback (disk_handler ossh)) test_path (s, h)
      = (status_reply (disk_handler ossh) (rs_next_req_id s) (Ok (ok_status (rs_next_req_id s))), s', ?h)"
      "call_frame s s'"
    using disk_echo.remove_served [of s test_path, where h = h and ossh = ossh] unlimitedD [OF s] path_facts(3)
    by (auto simp: path_ok_def sendable_ok_status)
  have "disk_content q ?h = g q" for q
    using assms(2) h(3) [of q] disk_contents_moved [of ?h "RemoveFile test_path" h q] by (auto simp: moved_def)
  then have "disk_store ?h = (d, g)" by (simp add: disk_store_def)
  then show ?thesis
    using call_frame_unlimited [OF r(2) s] r(1) h(2)
    by (auto simp: sw status_reply_ok ok_status_def disk_restored_def)
qed

text \<open>The last read of the example uses a handle that is closed.\<close>

definition refused_late :: "disk \<Rightarrow> (bytes \<Rightarrow> bytes) \<Rightarrow> (u8, file_error) result poll \<Rightarrow> raw_session \<times> disk_server \<Rightarrow> bool" where
  "refused_late d g byte sw \<longleftrightarrow> disk_restored d g sw
     \<and> (\<exists>st. byte = Ready (Err (display_client_error (CE_Status st))) \<and> status_status_code st = SC_Failure)"

lemma disk_late_read:
  assumes "path_ok fd" and "disk_restored d g sw"
  shows "\<exists>byte f' sw'. read_u8 (loopback (disk_handler ossh)) ((file_open fd e)\<lparr>fl_closed := True\<rparr>) sw
      = (byte, f', sw') \<and> fl_closed f' \<and> refused_late d g byte sw'"
proof -
  obtain s h where sw: "sw = (s, h)" by (cases sw)
  have s: "unlimited s" and h: "map_of (dk_files h) fd = None"
    using assms(2) by (simp_all add: disk_restored_def sw)
  let ?f = "(file_open fd e)\<lparr>fl_closed := True\<rparr>"
  have f: "fl_handle ?f = fd" "fl_pos ?f = 0" "fl_read ?f = None" "fl_closed ?f" by (simp_all add: file_open_def)
  obtain st s' where r: "raw_read (loopback (disk_handler ossh)) fd 0 (rf_len (fst (start_read 1 ?f))) (s, h)
      = (Err (CE_Status st), s', h)" "status_status_code st = SC_Failure" "unlimited s'"
    by (rule disk_reads_closed [OF s assms(1) h])
  have "disk_restored d g (s', h)" using assms(2) r(3) by (simp add: disk_restored_def sw)
  then show ?thesis
    using read_u8_refused [of ?f "loopback (disk_handler ossh)" "(s, h)" st "(s', h)"] r(1,2) f
    by (simp only: sw refused_late_def) (auto simp del: display_client_error.simps One_nat_def)
qed

section \<open>Properties of the example client on a disk\<close>

text \<open>C25: On a disk that takes the paths of a symbolic link in OpenSSH's order and has none of the names
  the example uses, the example client runs to its end and logs what its source announces: it panics
  nowhere, lists the names of the disk and its own two in some order, reads back the text it wrote,
  and its last read fails with the server's status, because its handle was closed. It leaves no
  handle behind, and the names of the disk, the contents of its files and the open files as it
  found them.\<close>

theorem example_client_finishes:
  assumes "without_example (dk_names h0)" and "disk_ok h0" and "dk_files h0 = []"
    and "disk_content link_path h0 = []" and "disk_content test_path h0 = []" and "\<And>i. 0 < room i"
  shows "\<exists>es info st s h. example_client (loopback (disk_handler True)) room (raw_new, h0)
      = Some ([CurrentPath (lit ''.''), DirInfo attrs_empty, SymlinkInfo attrs_empty]
          @ map (\<lambda>e. FileInDirectory (entry_file_name e)) (read_dir_all es)
          @ [MetadataByHandle info, FlushResult (Ready (Ok ())), CursorPosition (Ready (Ok 10)),
             MagicalContents (lit ''magic text'') (Ready (Ok 0)),
             ShouldFail (Ready (Err (display_client_error (CE_Status st))))], True, [], s, h)
    \<and> mset (map fst es) = mset (map fst (dk_names h0) @ [dir_path, link_path])
    \<and> attr_size info = Some 0 \<and> status_status_code st = SC_Failure
    \<and> dk_names h = dk_names h0 \<and> dk_files h = [] \<and> (\<forall>q. disk_content q h = disk_content q h0)"
proof -
  let ?W = "loopback (disk_handler True)" and ?d = "dk_names h0" and ?g = "\<lambda>q. disk_content q h0"
  obtain s where new: "sftp_new ?W (raw_new, h0) = (Ok no_extensions, s, h0)" "unlimited s"
    by (rule disk_new)
  have start: "disk_store h0 = (?d, ?g)" by (simp add: disk_store_def)
  obtain es s1 h1 where
    names: "\<And>k. example_names ?W (s, h0) k
      = k ([CurrentPath (lit ''.''), DirInfo attrs_empty, SymlinkInfo attrs_empty]
           @ map (\<lambda>e. FileInDirectory (entry_file_name e)) (read_dir_all es)) (s1, h1)"
    "mset (map fst es) = mset (map fst ?d @ [dir_path, link_path])"
    and s1: "unlimited s1" "disk_ok h1" "dk_files h1 = []" "disk_store h1 = (?d, ?g)"
    using example_names_finish [of ?d ?g, OF assms(1,4) new(2) assms(2) start] assms(3) by auto
  let ?fd = "file_handle h1"
  obtain reply s2 h2 where o: "raw_open ?W test_path example_flags attrs_empty (s1, h1) = (Ok reply, s2, h2)"
    "handle_handle reply = ?fd" "unlimited s2" "test_file_on ?d ?g [(?fd, test_path)] h2"
    "disk_content test_path h2 = []"
    by (rule disk_opens_test_file [OF assms(1) s1(1,2,4,3)])
  have e: "limits_ok (2 ^ 29) no_extensions" "\<not> ext_fsync no_extensions"
    by (simp_all add: no_extensions_def limits_ok_def limit_or_def MAX_WRITE_LENGTH_def MAX_READ_LENGTH_def)
  have room: "0 < read_size (room i) no_extensions \<and> read_size (room i) no_extensions < 2 ^ 32" for i
    using assms(6) [of i] by (simp add: no_extensions_def read_size_def limit_or_def MAX_READ_LENGTH_def)
  have "\<exists>info byte sw'. example_io ?W room no_extensions log (s1, h1)
      = Some (log @ [MetadataByHandle info, FlushResult (Ready (Ok ())), CursorPosition (Ready (Ok 10)),
          MagicalContents (lit ''magic text'') (Ready (Ok 0)), ShouldFail byte], True, [], sw')
    \<and> attr_size info = Some 0 \<and> refused_late ?d ?g byte sw'" for log
    by (rule example_io_runs [OF test_file_peer [where d = ?d and g = ?g, OF handle_ok(1)] o(1) [unfolded test_path_def] o(2) _ _
          disk_closes_test_file [where d = ?d and g = ?g, OF handle_ok(1) handle_kinds(2)]
          disk_removes_test_file [where d = ?d and g = ?g, OF assms(1,5), unfolded test_path_def] disk_late_read [where d = ?d and g = ?g, OF handle_ok(1)] e room])
      (use o(3-) in \<open>simp_all add: test_path_def\<close>)
  from this [of "[CurrentPath (lit ''.''), DirInfo attrs_empty, SymlinkInfo attrs_empty]
      @ map (\<lambda>e. FileInDirectory (entry_file_name e)) (read_dir_all es)"]
  obtain info st s3 h3 where io: "example_io ?W room no_extensions
      ([CurrentPath (lit ''.''), DirInfo attrs_empty, SymlinkInfo attrs_empty]
        @ map (\<lambda>e. FileInDirectory (entry_file_name e)) (read_dir_all es)) (s1, h1)
      = Some ([CurrentPath (lit ''.''), DirInfo attrs_empty, SymlinkInfo attrs_empty]
        @ map (\<lambda>e. FileInDirectory (entry_file_name e)) (read_dir_all es)
        @ [MetadataByHandle info, FlushResult (Ready (Ok ())), CursorPosition (Ready (Ok 10)),
          MagicalContents (lit ''magic text'') (Ready (Ok 0)),
          ShouldFail (Ready (Err (display_client_error (CE_Status st))))], True, [], s3, h3)"
    "attr_size info = Some 0" "status_status_code st = SC_Failure" "dk_files h3 = []" "disk_store h3 = (?d, ?g)"
    by (auto simp: disk_restored_def refused_late_def)
  have "example_client ?W room (raw_new, h0) = leave_session (example_io ?W room no_extensions
      ([CurrentPath (lit ''.''), DirInfo attrs_empty, SymlinkInfo attrs_empty]
        @ map (\<lambda>e. FileInDirectory (entry_file_name e)) (read_dir_all es)) (s1, h1))"
    by (simp add: example_client_def new(1) names(1))
  moreover have "dk_names h3 = ?d" "\<forall>q. disk_content q h3 = ?g q"
    using io(5) by (auto simp: disk_store_def dest: fun_cong)
  ultimately show ?thesis unfolding io(1) leave_session_def using names(2) io(2-4) by (intro exI conjI) simp_all
qed

theorem example_client_finishes_witness:
  "\<exists>es info st s h. example_client (loopback (disk_handler True)) (\<lambda>_. 4)
      (raw_new, notes_disk\<lparr>dk_files := []\<rparr>)
      = Some ([CurrentPath (lit ''.''), DirInfo attrs_empty, SymlinkInfo attrs_empty]
          @ map (\<lambda>e. FileInDirectory (entry_file_name e)) (read_dir_all es)
          @ [MetadataByHandle info, FlushResult (Ready (Ok ())), CursorPosition (Ready (Ok 10)),
             MagicalContents (lit ''magic text'') (Ready (Ok 0)),
             ShouldFail (Ready (Err (display_client_error (CE_Status st))))], True, [], s, h)
    \<and> mset (map fst es) = mset (map fst (dk_names (notes_disk\<lparr>dk_files := []\<rparr>)) @ [dir_path, link_path])
    \<and> attr_size info = Some 0 \<and> status_status_code st = SC_Failure
    \<and> dk_names h = dk_names (notes_disk\<lparr>dk_files := []\<rparr>) \<and> dk_files h = []
    \<and> (\<forall>q. disk_content q h = disk_content q (notes_disk\<lparr>dk_files := []\<rparr>))"
  by (rule example_client_finishes)
    (simp_all add: notes_disk_def without_example_def names_ok_def disk_ok_def disk_content_def path_ok_def
      string_fits_def valid_utf8_ascii lit_def dir_path_def link_path_def test_path_def)

text \<open>C38: The example client depends on OpenSSH's order of the paths of a symbolic link: on a disk that
  takes the new path first, as the names of the request's fields say, it panics when it creates its
  link, because the first path is the directory it has just created, and leaves that directory
  behind.\<close>

theorem example_client_needs_reversed_links:
  assumes "without_example d"
  shows "\<exists>s h. example_client (loopback (disk_handler False)) room (raw_new, disk_start d)
      = Some ([CurrentPath (lit ''.'')], False, [], s, h)
    \<and> dk_names h = d @ [(dir_path, DirNode attrs_empty)]"
proof -
  let ?W = "loopback (disk_handler False)"
  let ?calls = "[Canonicalize (lit ''.''), CreateDir dir_path, CreateSymlink dir_path link_path]"
  obtain s where new: "sftp_new ?W (raw_new, disk_start d) = (Ok no_extensions, s, disk_start d)" "unlimited s"
    by (rule disk_new)
  have start: "disk_ok (disk_start d) \<and> dk_files (disk_start d) = []" "disk_store (disk_start d) = (d, \<lambda>_. [])"
    using assms by (simp_all add: disk_ok_def disk_start_def disk_store_def disk_content_def without_example_def)
  have local: "run_local (store_fs False) ?calls (d, \<lambda>_. [])
      = ([Ok (Path (lit ''.'')), Ok Done, Err SC_Failure], d @ [(dir_path, DirNode attrs_empty)], \<lambda>_. [])"
    using assms path_facts
    by (simp add: without_example_def store_fs_def moved_def fresh_name_def fresh_update map_add_def)
  have "list_all call_ok ?calls" using path_facts by simp
  from disk.run_does [OF new(2) start(1) this, where ossh = False] obtain rs s' h' where
    r: "run_remote ?W ?calls (s, disk_start d) = Some (rs, s', h')"
      "list_all2 same_answer (fst (run_local (store_fs False) ?calls (d, \<lambda>_. []))) rs"
      "disk_store h' = snd (run_local (store_fs False) ?calls (d, \<lambda>_. []))"
    unfolding start(2) by blast
  obtain st where rs: "rs = [Ok (Path (lit ''.'')), Ok Done, Err (CE_Status st)]"
    using r(2) unfolding local by (auto simp: list_all2_Cons1)
  have "\<exists>err. sftp_symlink ?W dir_path link_path sw = (Err err, sw')"
    if "remote_call ?W (CreateSymlink dir_path link_path) sw = Some (Err (CE_Status st), sw')" for sw sw'
    using that by (cases "sftp_symlink ?W dir_path link_path sw"; cases "fst (sftp_symlink ?W dir_path link_path sw)")
      (auto simp: answer_def)
  note link = this
  from r(1) [unfolded rs] have "example_client ?W room (raw_new, disk_start d)
      = Some ([CurrentPath (lit ''.'')], False, [], drop_session s', h')"
    by (auto simp: run_remote_Cons example_client_def leave_session_def new(1) example_names_def Let_def dir_path_def [symmetric]
        link_path_def [symmetric] simp del: run_remote.simps(2) remote_call.simps(5) dest!: link)
  then show ?thesis using r(3) unfolding local by (simp add: disk_store_def)
qed

theorem example_client_needs_reversed_links_witness:
  "\<exists>s h. example_client (loopback (disk_handler False)) (\<lambda>_. 4) (raw_new, disk_start [])
      = Some ([CurrentPath (lit ''.'')], False, [], s, h)
    \<and> dk_names h = [] @ [(dir_path, DirNode attrs_empty)]"
  by (rule example_client_needs_reversed_links) (simp add: without_example_def names_ok_def)

end
