(* ===== verification/UploadBench.thy ===== *)
theory UploadBench
  imports ExampleRun
begin

text \<open>
  The programs that connect over SSH: the start of \<^verbatim>\<open>examples/client.rs\<close> and the benchmark
  \<^verbatim>\<open>benches/upload_benchmark.rs\<close>, which uploads files from one task each. The SSH library is a
  parameter. The tasks of the benchmark run beside it: a run is a sequence of requests that a
  scheduler picks. How often and how long the benchmark's harness runs it is not modelled.
\<close>

section \<open>Connecting\<close>

text \<open>
  The calls of the SSH library on the state of the connection, of which the world \<open>'w\<close> of the session
  is a part; \<open>sc_authenticate_password\<close> answers whether the server accepted.
\<close>

record ('w, 'x) ssh_connector =
  sc_connect :: "bytes \<Rightarrow> nat \<Rightarrow> 'w \<Rightarrow> (unit, 'x) result \<times> 'w"
  sc_authenticate_password :: "bytes \<Rightarrow> bytes \<Rightarrow> 'w \<Rightarrow> (bool, 'x) result \<times> 'w"
  sc_channel_open_session :: "'w \<Rightarrow> (unit, 'x) result \<times> 'w"
  sc_request_subsystem :: "bool \<Rightarrow> bytes \<Rightarrow> 'w \<Rightarrow> (unit, 'x) result \<times> 'w"

text \<open>What the examples answer to the library: any server key is accepted, data is ignored.\<close>

definition check_server_key :: "'key \<Rightarrow> (bool, 'x) result" where
  "check_server_key server_public_key = Ok True"

definition client_data :: "'i \<Rightarrow> bytes \<Rightarrow> (unit, 'x) result" where
  "client_data channel data = Ok ()"

text \<open>A refused login is no error: the program ends without having done anything.\<close>

definition connected_sftp ::
  "('w, 'x) ssh_connector \<Rightarrow> 'w \<Rightarrow> (raw_session \<times> 'w \<Rightarrow> (raw_session \<times> 'w) ended) \<Rightarrow> 'w ended" where
  "connected_sftp L w k =
     unwrapped [] [] (sc_connect L (lit ''localhost'') 22 w) (\<lambda>_ w.
     unwrapped [] [] (sc_authenticate_password L (lit ''root'') (lit ''password'') w) (\<lambda>success w.
     if success then
       unwrapped [] [] (sc_channel_open_session L w) (\<lambda>_ w.
       unwrapped [] [] (sc_request_subsystem L True (lit ''sftp'') w) (\<lambda>_ w.
       map_option (\<lambda>(log, finished, dropped, s, w). (log, finished, dropped, w)) (k (raw_new, w))))
     else Some ([], True, [], w)))"

definition example_main ::
  "('w, 'x) ssh_connector \<Rightarrow> 'w waits \<Rightarrow> (nat \<Rightarrow> nat) \<Rightarrow> 'w \<Rightarrow> 'w ended" where
  "example_main L W room w = connected_sftp L w (example_client W room)"

section \<open>The benchmark\<close>

definition upload_name :: "nat \<Rightarrow> bytes" where
  "upload_name i = lit ''test_'' @ decimal i @ lit ''.txt''"

text \<open>
  The program creates the files and spawns the task of each at once, waits until all tasks have
  ended, and removes the files; a failed \<^verbatim>\<open>unwrap\<close> ends it. A task is what is left to be written of its
  file. When it ends or panics its file is dropped, and what is thereby spawned closes the handle
  later. The results of the tasks are thrown away; the model only counts the panics.
\<close>

datatype main_state = Creating "nat list" | Joining | Removing "nat list" | Finished bool

record 'w uploads =
  up_main :: main_state
  up_tasks :: "(remote_file \<times> bytes) list"
  up_panicked :: nat
  up_dropped :: "bytes list"
  up_sw :: "raw_session \<times> 'w"

text \<open>
  What can happen next, one request at a time: the program, every task and every close take turns at
  any time. The program waits while a task runs. Requests that are in flight together behave like
  requests one at a time (\<^verbatim>\<open>Concurrent\<close>).
\<close>

definition main_moves :: "'w waits \<Rightarrow> extensions \<Rightarrow> bytes \<Rightarrow> nat \<Rightarrow> 'w uploads \<Rightarrow> 'w uploads list" where
  "main_moves W e data n r =
     (case up_main r of
        Creating [] \<Rightarrow> [r\<lparr>up_main := Joining\<rparr>]
      | Creating (i # is) \<Rightarrow>
          (case sftp_create W e (upload_name i) (up_sw r) of
             (Ok file, sw) \<Rightarrow>
               [r\<lparr>up_main := Creating is, up_tasks := up_tasks r @ [(file, data)], up_sw := sw\<rparr>]
           | (Err _, sw) \<Rightarrow> [r\<lparr>up_main := Finished False, up_sw := sw\<rparr>])
      | Joining \<Rightarrow> if up_tasks r = [] then [r\<lparr>up_main := Removing [0..<n]\<rparr>] else []
      | Removing [] \<Rightarrow> [r\<lparr>up_main := Finished True\<rparr>]
      | Removing (i # is) \<Rightarrow>
          (case sftp_remove_file W (upload_name i) (up_sw r) of
             (Ok _, sw) \<Rightarrow> [r\<lparr>up_main := Removing is, up_sw := sw\<rparr>]
           | (Err _, sw) \<Rightarrow> [r\<lparr>up_main := Finished False, up_sw := sw\<rparr>])
      | Finished _ \<Rightarrow> [])"

text \<open>One round of \<^verbatim>\<open>write_all\<close>; \<open>write_all_file\<close> goes through its rounds without a pause.\<close>

definition write_all_step ::
  "'w waits \<Rightarrow> remote_file \<times> bytes \<Rightarrow> raw_session \<times> 'w
     \<Rightarrow> (unit, file_error) result option \<times> (remote_file \<times> bytes) \<times> raw_session \<times> 'w" where
  "write_all_step W t sw =
     (case t of (f, buf) \<Rightarrow>
        if buf = [] then (Some (Ok ()), (f, buf), sw)
        else
          (case file_write W buf f sw of
             (Err e, f, sw) \<Rightarrow> (Some (Err e), (f, buf), sw)
           | (Ok n, f, sw) \<Rightarrow>
               if n = 0 then (Some (Err [Lit ''failed to write whole buffer'']), (f, buf), sw)
               else (None, (f, drop n buf), sw)))"

lemma write_all_steps:
  "write_all_file W buf f sw =
     (case write_all_step W (f, buf) sw of
        (Some r, (f, _), sw) \<Rightarrow> (r, f, sw)
      | (None, (f, buf), sw) \<Rightarrow> write_all_file W buf f sw)"
  by (subst write_all_file.simps) (auto simp: write_all_step_def split: prod.splits result.splits)

definition but_nth :: "nat \<Rightarrow> 'a list \<Rightarrow> 'a list" where
  "but_nth k xs = take k xs @ drop (Suc k) xs"

definition task_move :: "'w waits \<Rightarrow> 'w uploads \<Rightarrow> nat \<Rightarrow> 'w uploads" where
  "task_move W r k =
     (case write_all_step W (up_tasks r ! k) (up_sw r) of
        (None, task, sw) \<Rightarrow> r\<lparr>up_tasks := (up_tasks r)[k := task], up_sw := sw\<rparr>
      | (Some result, (f, _), sw) \<Rightarrow>
          r\<lparr>up_tasks := but_nth k (up_tasks r), up_panicked := up_panicked r + (if is_ok result then 0 else 1),
            up_dropped := up_dropped r @ dropped_file f, up_sw := sw\<rparr>)"

definition close_move :: "'w waits \<Rightarrow> 'w uploads \<Rightarrow> nat \<Rightarrow> 'w uploads" where
  "close_move W r k =
     r\<lparr>up_dropped := but_nth k (up_dropped r), up_sw := drop_task W (up_dropped r ! k) (up_sw r)\<rparr>"

definition moves :: "'w waits \<Rightarrow> extensions \<Rightarrow> bytes \<Rightarrow> nat \<Rightarrow> 'w uploads \<Rightarrow> 'w uploads list" where
  "moves W e data n r =
     main_moves W e data n r @ map (task_move W r) [0..<length (up_tasks r)]
       @ map (close_move W r) [0..<length (up_dropped r)]"

text \<open>Every move uses something up, so a run ends whatever the server answers.\<close>

fun main_work :: "bytes \<Rightarrow> nat \<Rightarrow> main_state \<Rightarrow> nat" where
  "main_work data n (Creating is) = length is * (length data + 4) + n + 4"
| "main_work data n Joining = n + 3"
| "main_work data n (Removing is) = length is + 2"
| "main_work data n (Finished _) = 0"

definition work :: "bytes \<Rightarrow> nat \<Rightarrow> 'w uploads \<Rightarrow> nat" where
  "work data n r = main_work data n (up_main r) + (\<Sum>(f, buf)\<leftarrow>up_tasks r. length buf + 2) + length (up_dropped r)"

lemma but_nth_split: "k < length xs \<Longrightarrow> \<exists>ys zs. xs = ys @ xs ! k # zs \<and> length ys = k \<and> but_nth k xs = ys @ zs"
  by (intro exI [of _ "take k xs"] exI [of _ "drop (Suc k) xs"])
    (simp add: but_nth_def id_take_nth_drop [symmetric])

lemma dropped_at_most_one: "length (dropped_file f) \<le> 1"
  by (simp add: dropped_file_def split: option.splits)

lemma main_move_works:
  assumes "r' \<in> set (main_moves W e data n r)"
  shows "work data n r' < work data n r"
proof (cases "up_main r")
  case (Creating "is")
  show ?thesis
  proof (cases "is")
    case (Cons i js)
    obtain x sw where x: "sftp_create W e (upload_name i) (up_sw r) = (x, sw)"
      by (cases "sftp_create W e (upload_name i) (up_sw r)")
    with assms show ?thesis
      by (cases x) (simp_all add: main_moves_def work_def Creating Cons)
  qed (use assms in \<open>simp add: main_moves_def work_def Creating\<close>)
next
  case (Removing "is")
  show ?thesis
  proof (cases "is")
    case (Cons i js)
    obtain x sw where x: "sftp_remove_file W (upload_name i) (up_sw r) = (x, sw)"
      by (cases "sftp_remove_file W (upload_name i) (up_sw r)")
    with assms show ?thesis
      by (cases x) (simp_all add: main_moves_def work_def Removing Cons)
  qed (use assms in \<open>simp add: main_moves_def work_def Removing\<close>)
qed (use assms in \<open>auto simp: main_moves_def work_def split: if_splits\<close>)

lemma task_move_split:
  assumes "k < length (up_tasks r)"
  obtains ys f buf zs where "up_tasks r = ys @ (f, buf) # zs"
    "\<And>x f' buf' sw. write_all_step W (f, buf) (up_sw r) = (x, (f', buf'), sw) \<Longrightarrow> task_move W r k =
      (case x of
         None \<Rightarrow> r\<lparr>up_tasks := ys @ (f', buf') # zs, up_sw := sw\<rparr>
       | Some result \<Rightarrow> r\<lparr>up_tasks := ys @ zs, up_panicked := up_panicked r + (if is_ok result then 0 else 1),
           up_dropped := up_dropped r @ dropped_file f', up_sw := sw\<rparr>)"
proof -
  obtain f buf where t: "up_tasks r ! k = (f, buf)" by (cases "up_tasks r ! k")
  obtain ys zs where split: "up_tasks r = ys @ (f, buf) # zs" "length ys = k" "but_nth k (up_tasks r) = ys @ zs"
    using but_nth_split [OF assms] t by auto
  have "(up_tasks r)[k := x] = ys @ x # zs" for x by (simp add: split(1) split(2) [symmetric])
  then show thesis
    by (intro that [OF split(1)]) (simp add: task_move_def t split(3) split: option.splits)
qed

lemma task_move_works:
  assumes "k < length (up_tasks r)"
  shows "work data n (task_move W r k) < work data n r"
proof -
  obtain ys f buf zs where r: "up_tasks r = ys @ (f, buf) # zs"
    and m: "\<And>x f' buf' sw. write_all_step W (f, buf) (up_sw r) = (x, (f', buf'), sw) \<Longrightarrow> task_move W r k =
      (case x of
         None \<Rightarrow> r\<lparr>up_tasks := ys @ (f', buf') # zs, up_sw := sw\<rparr>
       | Some result \<Rightarrow> r\<lparr>up_tasks := ys @ zs, up_panicked := up_panicked r + (if is_ok result then 0 else 1),
           up_dropped := up_dropped r @ dropped_file f', up_sw := sw\<rparr>)"
    by (rule task_move_split [OF assms, of W]) blast
  obtain x f' buf' sw where x: "write_all_step W (f, buf) (up_sw r) = (x, (f', buf'), sw)"
    by (cases "write_all_step W (f, buf) (up_sw r)") auto
  have "length buf' < length buf" if "x = None"
    using x that by (auto simp: write_all_step_def split: if_splits prod.splits result.splits)
  then show ?thesis
    using dropped_at_most_one [of f'] by (auto simp: m [OF x] work_def r split: option.splits)
qed

lemma close_move_works: "k < length (up_dropped r) \<Longrightarrow> work data n (close_move W r k) < work data n r"
  using but_nth_split [of k "up_dropped r"] by (auto simp: close_move_def work_def) (metis add_Suc_right length_Cons length_append lessI)

lemma moves_work: "r' \<in> set (moves W e data n r) \<Longrightarrow> work data n r' < work data n r"
  by (auto simp: moves_def main_move_works task_move_works close_move_works)

definition is_finished :: "main_state \<Rightarrow> bool" where
  "is_finished m \<longleftrightarrow> (case m of Finished _ \<Rightarrow> True | _ \<Rightarrow> False)"

lemma moves_exist:
  assumes "\<not> is_finished (up_main r)"
  shows "moves W e data n r \<noteq> []"
proof (cases "up_main r")
  case (Creating "is")
  then show ?thesis by (cases "is") (auto simp: moves_def main_moves_def split: prod.splits result.splits)
next
  case (Removing "is")
  then show ?thesis by (cases "is") (auto simp: moves_def main_moves_def split: prod.splits result.splits)
qed (use assms in \<open>auto simp: moves_def main_moves_def is_finished_def\<close>)

lemma pick_move:
  assumes "\<not> is_finished (up_main r)"
  shows "moves W e data n r ! (k mod length (moves W e data n r)) \<in> set (moves W e data n r)"
  using moves_exist [OF assms] by (intro nth_mem mod_less_divisor) simp

text \<open>
  A run under the scheduler \<open>sched\<close>, which picks the next move at every time; its answer is the list of
  the states it goes through. It ends with the program.
\<close>

function run_uploads ::
  "'w waits \<Rightarrow> extensions \<Rightarrow> bytes \<Rightarrow> nat \<Rightarrow> (nat \<Rightarrow> nat) \<Rightarrow> nat \<Rightarrow> 'w uploads \<Rightarrow> 'w uploads list" where
  "run_uploads W e data n sched t r =
     (if is_finished (up_main r) then [r]
      else r # run_uploads W e data n sched (Suc t)
        (moves W e data n r ! (sched t mod length (moves W e data n r))))"
  by pat_completeness auto
termination
  by (relation "measure (\<lambda>(W, e, data, n, sched, t, r). work data n r)")
    (simp, unfold in_measure case_prod_conv, erule moves_work [OF pick_move])

declare run_uploads.simps [simp del]

definition uploads_start :: "nat \<Rightarrow> raw_session \<times> 'w \<Rightarrow> 'w uploads" where
  "uploads_start n sw =
     \<lparr>up_main = Creating [0..<n], up_tasks = [], up_panicked = 0, up_dropped = [], up_sw = sw\<rparr>"

text \<open>
  The tasks and the closes hold the session too. A vector of more than \<open>isize::MAX\<close> bytes panics, so a
  negative size does.
\<close>

definition test_upload_data ::
  "'w waits \<Rightarrow> (nat \<Rightarrow> nat) \<Rightarrow> extensions \<Rightarrow> 32 word \<Rightarrow> 32 word \<Rightarrow> raw_session \<times> 'w \<Rightarrow> (raw_session \<times> 'w) ended" where
  "test_upload_data W sched e file_count file_size sw =
     (if sint file_size < 0 then leave_session (Some ([], False, [], sw))
      else
        let n = nat (sint file_count);
            r = last (run_uploads W e (replicate (unat file_size) 0) n sched 0 (uploads_start n sw))
        in (if up_tasks r = [] then leave_session else (\<lambda>r. r))
             (Some ([], up_main r = Finished True, up_dropped r, up_sw r)))"

definition upload_file ::
  "('w, 'x) ssh_connector \<Rightarrow> 'w waits \<Rightarrow> (nat \<Rightarrow> nat) \<Rightarrow> 32 word \<Rightarrow> 32 word \<Rightarrow> 'w \<Rightarrow> 'w ended" where
  "upload_file L W sched file_count file_size w =
     connected_sftp L w (\<lambda>sw. unwrapped [] [] (sftp_new W sw) (\<lambda>e sw.
       test_upload_data W sched e file_count file_size sw))"

definition bench_iteration :: "('w, 'x) ssh_connector \<Rightarrow> 'w waits \<Rightarrow> (nat \<Rightarrow> nat) \<Rightarrow> 'w \<Rightarrow> 'w ended" where
  "bench_iteration L W sched w = upload_file L W sched 8 (1024 * 1024 * 10) w"

section \<open>The names of the uploads\<close>

lemma upload_name_eq [simp]: "upload_name i = upload_name j \<longleftrightarrow> i = j"
  by (auto simp: upload_name_def dest: arg_cong [of _ _ read_decimal] simp: read_decimal_decimal)


section \<open>The benchmark on the reference disk\<close>































lemma run_not_Nil [simp]: "run_uploads W e data n sched t r \<noteq> []"
  by (subst run_uploads.simps) simp






section \<open>Properties of the programs that connect\<close>



text \<open>A login that is refused ends the example and the benchmark without an error, whatever the server
  serves.\<close>

theorem refused_login_is_silent:
  assumes "sc_connect L (lit ''localhost'') 22 w = (Ok (), w1)"
    and "sc_authenticate_password L (lit ''root'') (lit ''password'') w1 = (Ok False, w2)"
  shows "example_main L W room w = Some ([], True, [], w2) \<and> bench_iteration L W sched w = Some ([], True, [], w2)"
  using assms by (simp add: example_main_def bench_iteration_def upload_file_def connected_sftp_def)

end
