(* ===== verification/Spec2Isabelle.thy ===== *)
theory Spec2Isabelle
  imports Liveness Negotiation ExampleSsh Concurrent UploadBench
begin

text \<open>
  A model of russh-sftp, a Rust library for both ends of the SSH file transfer protocol, version 3.

  \<^bold>\<open>The program.\<close> A message of the protocol is a frame: four bytes of length, a type byte, and the
  fields of a struct. \<^verbatim>\<open>src/buf.rs\<close>, \<^verbatim>\<open>src/ser.rs\<close> and \<^verbatim>\<open>src/de.rs\<close> read and write the
  primitive fields, \<^verbatim>\<open>src/protocol/\<close> has a struct per message and the packet type over all of
  them, \<^verbatim>\<open>src/utils.rs\<close> reads a frame from a stream. The server (\<^verbatim>\<open>src/server/\<close>) is a loop: read
  a frame, hand the request to a method of the user's handler, write the response. The client
  (\<^verbatim>\<open>src/client/\<close>) has two tasks, one per direction, a raw session whose methods send a request and
  wait for the reply with the same id, and above it a session with files and directories that
  looks like a local file system. \<^verbatim>\<open>examples/server.rs\<close> is a handler that lists one directory,
  \<^verbatim>\<open>examples/client.rs\<close> and \<^verbatim>\<open>benches/upload_benchmark.rs\<close> are programs that use the session.

  \<^bold>\<open>The theories\<close>, in the order of their imports, with the files they model.

  \<^item> \<^verbatim>\<open>Prelude\<close>: results, messages, lemmas on lists and words. \<^verbatim>\<open>Utf8\<close>: well-formed UTF-8 and the
    replacement of ill-formed parts, which the standard library does for \<^verbatim>\<open>from_utf8_lossy\<close>.
  \<^item> \<^verbatim>\<open>Buf\<close> (\<^verbatim>\<open>buf.rs\<close>, \<^verbatim>\<open>error.rs\<close>), \<^verbatim>\<open>Ser\<close> (\<^verbatim>\<open>ser.rs\<close>), \<^verbatim>\<open>De\<close> (\<^verbatim>\<open>de.rs\<close>): a serializer state is
    the bytes so far, a deserializer is a function from bytes to a value and the rest. \<^verbatim>\<open>Codec\<close> has
    the laws of one field, one sequence and one string map, which the structs are made of.
  \<^item> \<^verbatim>\<open>Attrs\<close> (\<^verbatim>\<open>protocol/file_attrs.rs\<close>), \<^verbatim>\<open>Messages\<close> (one record per file of \<^verbatim>\<open>protocol/\<close> and
    \<^verbatim>\<open>extensions.rs\<close>, with the derived codecs), \<^verbatim>\<open>Packet\<close> (\<^verbatim>\<open>protocol/mod.rs\<close>).
  \<^item> \<^verbatim>\<open>Transport\<close> (\<^verbatim>\<open>utils.rs\<close>): the interface \<open>byte_stream\<close> of what is relied on of a stream, an
    instance on two byte queues, and \<open>read_packet\<close>.
  \<^item> \<^verbatim>\<open>Server\<close> (\<^verbatim>\<open>server/mod.rs\<close>, \<^verbatim>\<open>server/handler.rs\<close>), \<^verbatim>\<open>FileEntry\<close> (\<^verbatim>\<open>protocol/file.rs\<close>),
    \<^verbatim>\<open>ExampleServer\<close> and \<^verbatim>\<open>ExampleSsh\<close> (\<^verbatim>\<open>examples/server.rs\<close>): its handler, and its session on an SSH
    connection, over the parts of the SSH library it calls.
  \<^item> \<^verbatim>\<open>Client\<close> (\<^verbatim>\<open>client/mod.rs\<close>, \<^verbatim>\<open>client/handler.rs\<close>, \<^verbatim>\<open>client/error.rs\<close>): the two loops, as functions
    and as a step relation of the whole connection.
  \<^item> \<^verbatim>\<open>RawSession\<close> (\<^verbatim>\<open>client/rawsession.rs\<close>): the shared state of a session and all its methods.
    \<^verbatim>\<open>Tasks\<close>: any number of concurrent calls on one session as a step relation.
  \<^item> \<^verbatim>\<open>Liveness\<close>: infinite runs of the client under a fair scheduler.
  \<^item> \<^verbatim>\<open>EndToEnd\<close> and \<^verbatim>\<open>Calls\<close>: the raw session connected to the server's loop, one fact per method.
    \<^verbatim>\<open>Concurrent\<close>: the tasks of one client, the bytes in flight and the server as one step relation.
  \<^item> \<^verbatim>\<open>Files\<close> (\<^verbatim>\<open>client/fs/\<close>); \<^verbatim>\<open>FilePeer\<close>: the interfaces \<open>file_server\<close> and \<open>file_peer\<close> of what a file
    relies on at the server's and at the client's end of the wire, the first giving the second, and
    a reference handler that meets them; \<^verbatim>\<open>LocalFile\<close>: the specification of a file as a content and
    a position, which the client's file refines.
  \<^item> \<^verbatim>\<open>Session\<close> (\<^verbatim>\<open>client/session.rs\<close>), with \<^verbatim>\<open>Listing\<close> on directories and \<^verbatim>\<open>Negotiation\<close> on limits.
    \<^verbatim>\<open>RemoteFs\<close>: a file system as a function of the calls on names, the interface \<open>fs_server\<close> of a
    handler that serves one, and the session as that file system; \<^verbatim>\<open>DiskServer\<close>: a reference disk of
    names and files that meets \<open>fs_server\<close> and \<open>file_server\<close>. Its opens answer fresh handles and a
    closed handle is refused. \<^verbatim>\<open>Handles\<close>: the interface \<open>path_peer\<close> of the opens and closes of a path,
    and whole files with the closes that dropping them spawns.
  \<^item> \<^verbatim>\<open>ExampleClient\<close> (\<^verbatim>\<open>examples/client.rs\<close>), \<^verbatim>\<open>ExampleRun\<close>: its runs against the reference disk;
    \<^verbatim>\<open>UploadBench\<close> (\<^verbatim>\<open>benches/upload_benchmark.rs\<close>), with the SSH connection both programs
    make: the benchmark's program, its tasks and the closes of dropped files are a system of moves, one
    request each, and a run follows any scheduler.

  \<^bold>\<open>Conventions.\<close> Names follow the source, with the module in front where two modules share a name
  (\<open>raw_open\<close>, \<open>sftp_open\<close>, \<open>example_opendir\<close>). Machine integers are words; \<^verbatim>\<open>usize\<close> has 64 bits, and
  arithmetic wraps, as it does in a release build. Strings are their UTF-8 bytes. Errors are
  values; their texts are kept piece by piece, and the text of another crate's error is a symbol. A
  panic is a value where it can happen. A method that waits is cut at its wait: what the rest of the
  world does meanwhile is an argument \<open>W\<close>. The loops of tokio that the code awaits (\<^verbatim>\<open>read_to_end\<close>,
  \<^verbatim>\<open>write_all\<close>, \<^verbatim>\<open>seek\<close>) follow its documentation, with the size of the buffer a parameter. A handler
  of a user is a record of functions, so that the theorems on the server hold for every handler.

  \<^bold>\<open>What is shown.\<close> The encoder is total, injective up to what the wire format cannot say, and inverse
  to the decoder (\<^verbatim>\<open>Packet\<close>); every string that is read is well-formed UTF-8 (\<^verbatim>\<open>Buf\<close>). The server's
  loop returns on every finite input with one response per frame in order (\<^verbatim>\<open>Server\<close>). However the
  client's tasks interleave, replies reach the call with their id and no call loses its place
  (\<^verbatim>\<open>Client\<close>, \<^verbatim>\<open>Tasks\<close>). Client and server composed are the handler itself (\<^verbatim>\<open>EndToEnd\<close>), for
  concurrent calls too, which behave as if served one at a time in the order they were sent, and none
  of which waits once the wire is quiet (\<^verbatim>\<open>Concurrent\<close>); on top of it reading a file yields its content and writing stores the data (\<^verbatim>\<open>Session\<close>); any program
  of reads, writes and seeks is one on a local file (\<^verbatim>\<open>LocalFile\<close>), and any program of calls on names
  one on the file system the server serves (\<^verbatim>\<open>DiskServer\<close>). A session that is closed ends
  (\<^verbatim>\<open>Liveness\<close>). What is written is read back and leaves no handle
  open, whenever the spawned closes run (\<^verbatim>\<open>Handles\<close>). The example server accounts for every channel
  (\<^verbatim>\<open>ExampleSsh\<close>). The limits a session
  negotiates are those its files keep to (\<^verbatim>\<open>Negotiation\<close>). The example client and the benchmark run
  to their ends on a disk and leave it as they found it (\<^verbatim>\<open>ExampleRun\<close>, \<^verbatim>\<open>UploadBench\<close>). Some
  theorems show faults: a failed seek jams its file, an answer that is too long makes the client
  panic, a failed listing leaks a handle and a failed shutdown leaves it to another shutdown, the limit on handles can be passed, server and
  client loop on a broken stream, a refused initialization is never reported, the example client
  depends on a server that takes the paths of a symbolic link in the reverse order.

  \<^bold>\<open>Bounds and fuel.\<close> Only the loop over the elements of a sequence takes fuel, which its callers
  give as one more than the bytes that are left; \<open>vec_loop_enough\<close> shows that more changes nothing.
  Loops that may not end are partial functions and the theorems state that they return. A run of the
  benchmark ends because every move uses up some of its \<open>work\<close>, whatever the server answers; what
  its tasks would still do after the program has panicked is not followed. The theorems on
  concurrent calls hold for the first \<open>2^32 - 1\<close> requests, after which ids repeat. A message
  of less than \<open>2^30\<close> bytes per field always fits a frame, which the theorems on whole calls assume.

  \<^bold>\<open>Not modelled.\<close> \<^verbatim>\<open>lib.rs\<close> and \<^verbatim>\<open>client/fs/mod.rs\<close> only declare modules. Of the SSH
  library, which is another crate, the examples and the benchmark use a few calls, which are
  parameters; its configuration, the start of the SSH server and the harness that repeats and
  measures the benchmark are left out. The Windows branch of the metadata conversion, logging, and
  the inside of tokio, bytes, serde and chrono are not modelled; the date format of chrono is a
  parameter of the long names.
\<close>

end
